(* ===== verification/Prelude.thy ===== *)
theory Prelude
  imports Main "HOL-Library.AList" "HOL-Library.List_Lexorder" "HOL-Library.Char_ord"
    "HOL-Library.Product_Lexorder" "HOL-Library.Multiset"
begin

text \<open>
  Shared vocabulary of the development: Python dictionaries as association lists, joining of
  strings, decimal and hexadecimal digits, and the generic facts on lists that the
  components use.
\<close>

section \<open>Dictionaries\<close>

text \<open>
  A Python dictionary keeps its insertion order. It is an association list, and a list of
  pairs stands for the dictionary Python builds from these pairs in turn: a repeated key
  keeps its first position and its last value.
\<close>

type_synonym 'v dict = "(string \<times> 'v) list"

definition dict_of :: "'v dict \<Rightarrow> 'v dict" where
  "dict_of kvs = fold (\<lambda>(k, v). AList.update k v) kvs []"

definition dict_get :: "'v dict \<Rightarrow> string \<Rightarrow> 'v option" where
  "dict_get d k = map_of (dict_of d) k"

text \<open>A dictionary display with entries taken over from another one, as in \<open>{'state': s, **payload}\<close>.\<close>

definition dict_merge :: "'v dict \<Rightarrow> 'v dict \<Rightarrow> 'v dict" where
  "dict_merge d e = dict_of (d @ e)"

lemma fold_update_distinct:
  "distinct (map fst (acc @ kvs)) \<Longrightarrow> fold (\<lambda>(k, v). AList.update k v) kvs acc = acc @ kvs"
proof (induction kvs arbitrary: acc)
  case Nil
  then show ?case by simp
next
  case (Cons p kvs)
  obtain k v where p: "p = (k, v)" by (cases p)
  have "k \<notin> fst ` set acc" using Cons.prems p by auto
  then have "AList.update k v acc = acc @ [(k, v)]"
    by (induction acc) auto
  then show ?case using Cons.IH [of "acc @ [(k, v)]"] Cons.prems p by simp
qed

lemma dict_of_distinct [simp]: "distinct (map fst kvs) \<Longrightarrow> dict_of kvs = kvs"
  using fold_update_distinct [of "[]" kvs] by (simp add: dict_of_def)

lemma distinct_fold_update:
  "distinct (map fst acc) \<Longrightarrow> distinct (map fst (fold (\<lambda>(k, v). AList.update k v) kvs acc))"
  by (induction kvs arbitrary: acc) (auto simp: distinct_update)

lemma distinct_dict_of [simp]: "distinct (map fst (dict_of kvs))"
  by (simp add: dict_of_def distinct_fold_update)

lemma map_of_fold_update:
  "map_of (fold (\<lambda>(k, v). AList.update k v) kvs acc) = map_of (rev kvs @ acc)"
  by (induction kvs arbitrary: acc) (auto simp: update_conv' map_add_def fun_eq_iff split: option.splits)

lemma map_of_dict_of: "map_of (dict_of kvs) = map_of (rev kvs)"
  by (simp add: dict_of_def map_of_fold_update)

lemma dict_get_distinct: "distinct (map fst d) \<Longrightarrow> dict_get d k = map_of d k"
  by (simp add: dict_get_def)

lemma dict_get_Some: "dict_get d k = Some v \<Longrightarrow> (k, v) \<in> set d"
  by (auto simp: dict_get_def map_of_dict_of dest: map_of_SomeD)

lemma dict_get_None: "dict_get d k = None \<longleftrightarrow> k \<notin> fst ` set d"
  by (simp add: dict_get_def map_of_dict_of map_of_eq_None_iff)

lemma dict_get_update: "distinct (map fst d) \<Longrightarrow> dict_get (AList.update k v d) k' = (if k' = k then Some v else dict_get d k')"
  by (simp add: dict_get_distinct distinct_update update_conv')

lemma dict_of_idem [simp]: "dict_of (dict_of kvs) = dict_of kvs"
  by simp

lemma update_map_prod:
  "AList.update k (f v) (map (map_prod (\<lambda>k. k) f) kvs) = map (map_prod (\<lambda>k. k) f) (AList.update k v kvs)"
  by (induction kvs) auto

lemma fold_update_map_prod:
  "fold (\<lambda>(k, v). AList.update k v) (map (map_prod (\<lambda>k. k) f) kvs) (map (map_prod (\<lambda>k. k) f) acc)
     = map (map_prod (\<lambda>k. k) f) (fold (\<lambda>(k, v). AList.update k v) kvs acc)"
  by (induction kvs arbitrary: acc) (auto simp: update_map_prod)

lemma dict_of_map_prod: "dict_of (map (map_prod (\<lambda>k. k) f) kvs) = map (map_prod (\<lambda>k. k) f) (dict_of kvs)"
  using fold_update_map_prod [where acc = "[]"] by (simp add: dict_of_def)

section \<open>Sorting\<close>

lemma sort_key_map: "sort_key f (map g xs) = map g (sort_key (\<lambda>x. f (g x)) xs)"
proof (induction xs)
  case Nil
  then show ?case by simp
next
  case (Cons x xs)
  have "insort_key f (g x) (map g ys) = map g (insort_key (\<lambda>x. f (g x)) x ys)" for ys
    by (induction ys) auto
  with Cons show ?case by simp
qed

lemma sort_key_map_prod:
  "sort_key fst (map (map_prod (\<lambda>k. k) f) kvs) = map (map_prod (\<lambda>k. k) f) (sort_key fst kvs)"
proof -
  have "(\<lambda>x. fst (map_prod (\<lambda>k. k) f x)) = fst" by auto
  then show ?thesis by (simp add: sort_key_map)
qed

section \<open>Strings\<close>

fun join :: "string \<Rightarrow> string list \<Rightarrow> string" where
  "join sep [] = []"
| "join sep [s] = s"
| "join sep (s # t # ts) = s @ sep @ join sep (t # ts)"

definition digit :: "nat \<Rightarrow> char" where
  "digit d = char_of (48 + d)"

definition is_digit :: "char \<Rightarrow> bool" where
  "is_digit c \<longleftrightarrow> 48 \<le> (of_char c :: nat) \<and> (of_char c :: nat) \<le> 57"

definition digit_val :: "char \<Rightarrow> nat" where
  "digit_val c = of_char c - 48"

lemma is_digit_digit [simp]: "d < 10 \<Longrightarrow> is_digit (digit d)"
  by (simp add: is_digit_def digit_def of_char_of)

lemma digit_val_digit [simp]: "d < 10 \<Longrightarrow> digit_val (digit d) = d"
  by (simp add: digit_val_def digit_def of_char_of)

fun nat_dec :: "nat \<Rightarrow> string" where
  "nat_dec n = (if n < 10 then [digit n] else nat_dec (n div 10) @ [digit (n mod 10)])"

declare nat_dec.simps [simp del]

lemma digit_chars:
  "digit 0 = CHR ''0''" "digit (Suc 0) = CHR ''1''" "digit 1 = CHR ''1''" "digit 2 = CHR ''2''" "digit 3 = CHR ''3''"
  "digit 4 = CHR ''4''" "digit 5 = CHR ''5''" "digit 6 = CHR ''6''" "digit 7 = CHR ''7''"
  "digit 8 = CHR ''8''" "digit 9 = CHR ''9''"
  by code_simp+

definition dec_nat :: "string \<Rightarrow> nat" where
  "dec_nat s = foldl (\<lambda>a c. 10 * a + digit_val c) 0 s"

definition int_dec :: "int \<Rightarrow> string" where
  "int_dec i = (if i < 0 then CHR ''-'' # nat_dec (nat (- i)) else nat_dec (nat i))"

lemma nat_dec_nonempty [simp]: "nat_dec n \<noteq> []"
  by (subst nat_dec.simps) simp

lemma nat_dec_digits: "c \<in> set (nat_dec n) \<Longrightarrow> is_digit c"
proof (induction n rule: nat_dec.induct)
  case (1 n)
  then show ?case by (cases "n < 10") (auto simp: nat_dec.simps [of n])
qed

lemma dec_nat_nat_dec [simp]: "dec_nat (nat_dec n) = n"
proof (induction n rule: nat_dec.induct)
  case (1 n)
  then show ?case by (cases "n < 10") (auto simp: nat_dec.simps [of n] dec_nat_def)
qed

lemma nat_dec_hd_zero: "hd (nat_dec n) = CHR ''0'' \<Longrightarrow> n = 0 \<and> nat_dec n = ''0''"
proof (induction n rule: nat_dec.induct)
  case (1 n)
  show ?case
  proof (cases "n < 10")
    case True
    have "digit n = CHR ''0'' \<Longrightarrow> digit_val (digit n) = digit_val CHR ''0''" by simp
    then have "digit n = CHR ''0'' \<Longrightarrow> n = digit_val CHR ''0''"
      using True by (metis digit_val_digit)
    then have "digit n = CHR ''0'' \<Longrightarrow> n = 0" by (simp add: digit_val_def)
    then show ?thesis using True 1(2) by (auto simp: nat_dec.simps [of n] nat_dec.simps [of 0])
  next
    case False
    with 1 show ?thesis by (auto simp: nat_dec.simps [of n])
  qed
qed

lemma int_dec_inj: "int_dec i = int_dec j \<Longrightarrow> i = j"
proof -
  have neg: "hd (nat_dec n) \<noteq> CHR ''-''" for n
    using nat_dec_digits [of "hd (nat_dec n)" n] by (auto simp: is_digit_def)
  have dec: "nat_dec m = nat_dec n \<Longrightarrow> m = n" for m n
    by (metis dec_nat_nat_dec)
  assume "int_dec i = int_dec j"
  then show "i = j"
    using neg [of "nat i"] neg [of "nat j"]
    by (auto simp: int_dec_def split: if_splits dest!: dec) (metis list.sel(1))+
qed

text \<open>\<open>str.startswith\<close>.\<close>

fun starts_with :: "string \<Rightarrow> string \<Rightarrow> bool" where
  "starts_with s [] = True"
| "starts_with [] (p # ps) = False"
| "starts_with (c # s) (p # ps) = (c = p \<and> starts_with s ps)"

lemma starts_with_iff: "starts_with s p \<longleftrightarrow> (\<exists>t. s = p @ t)"
  by (induction s p rule: starts_with.induct) auto

end
