(* ===== verification/Json.thy ===== *)
theory Json
  imports Prelude
begin

text \<open>
  JSON values as the program handles them, the two functions of Python's \<open>json\<close> module it
  calls (\<open>json.dumps\<close> in the modes used, \<open>json.loads\<close>), \<open>canonical_json\<close> of
  \<open>asv/evidence.py\<close>, and the conversions (\<open>bool\<close>, \<open>str\<close>, \<open>int\<close>,
  \<open>isinstance\<close>) the handlers apply to request values.

  Scope: a string holds the code points below 256, and a number is an integer. A document
  with a fraction, an exponent, \<open>NaN\<close> or a code point above 255 is outside the model:
  the reader below returns \<^const>\<open>None\<close> for it. Python's limits on recursion depth and
  on the number of digits of an integer are not modelled.
\<close>

section \<open>Values\<close>

datatype json =
    JNull
  | JBool bool
  | JInt int
  | JStr string
  | JArr "json list"
  | JObj "(string \<times> json) list"

text \<open>Python's truth value testing, as in \<open>if not request.get(field)\<close>.\<close>

fun py_truthy :: "json \<Rightarrow> bool" where
  "py_truthy JNull = False"
| "py_truthy (JBool b) = b"
| "py_truthy (JInt i) = (i \<noteq> 0)"
| "py_truthy (JStr s) = (s \<noteq> [])"
| "py_truthy (JArr xs) = (xs \<noteq> [])"
| "py_truthy (JObj kvs) = (kvs \<noteq> [])"

fun is_jstr :: "json \<Rightarrow> bool" where
  "is_jstr (JStr s) = True"
| "is_jstr _ = False"

text \<open>\<open>isinstance(x, int)\<close>: in Python a boolean is an integer.\<close>

fun is_jint :: "json \<Rightarrow> bool" where
  "is_jint (JInt i) = True"
| "is_jint (JBool b) = True"
| "is_jint _ = False"

text \<open>The value of a missing key counts as absent: \<open>request.get(key)\<close> is \<open>None\<close> then.\<close>

definition get_or_null :: "json dict \<Rightarrow> string \<Rightarrow> json" where
  "get_or_null d k = (case dict_get d k of None \<Rightarrow> JNull | Some v \<Rightarrow> v)"

section \<open>Writing: \<open>json.dumps\<close>\<close>

definition quote :: char where
  "quote = CHR 0x22"

definition backslash :: char where
  "backslash = CHR 0x5C"

definition hex_digit :: "nat \<Rightarrow> char" where
  "hex_digit n = (if n < 10 then char_of (48 + n) else char_of (87 + n))"

text \<open>The ASCII escapes of the encoder (\<open>ensure_ascii\<close> is on everywhere in the program).\<close>

definition esc :: "char \<Rightarrow> string" where
  "esc c =
     (if c = quote then [backslash, quote]
      else if c = backslash then [backslash, backslash]
      else if c = CHR 0x0A then [backslash, CHR ''n'']
      else if c = CHR 0x0D then [backslash, CHR ''r'']
      else if c = CHR 0x09 then [backslash, CHR ''t'']
      else if c = CHR 0x0C then [backslash, CHR ''f'']
      else if c = CHR 0x08 then [backslash, CHR ''b'']
      else if 32 \<le> (of_char c :: nat) \<and> (of_char c :: nat) \<le> 126 then [c]
      else [backslash, CHR ''u'', CHR ''0'', CHR ''0'',
            hex_digit (of_char c div 16), hex_digit (of_char c mod 16)])"

definition dumps_str :: "string \<Rightarrow> string" where
  "dumps_str s = quote # concat (map esc s) @ [quote]"

text \<open>
  \<open>json.dumps(v, sort_keys=srt, separators=("," + sp, ":" + sp))\<close>: the program uses the
  compact separators (\<open>sp\<close> empty) and the default ones (\<open>sp\<close> one blank).
\<close>

primrec dumps :: "bool \<Rightarrow> string \<Rightarrow> json \<Rightarrow> string" where
  "dumps srt sp JNull = ''null''"
| "dumps srt sp (JBool b) = (if b then ''true'' else ''false'')"
| "dumps srt sp (JInt i) = int_dec i"
| "dumps srt sp (JStr s) = dumps_str s"
| "dumps srt sp (JArr xs) = CHR ''['' # join ('','' @ sp) (map (dumps srt sp) xs) @ '']''"
| "dumps srt sp (JObj kvs) =
     (let ds = dict_of (map (map_prod (\<lambda>k. k) (dumps srt sp)) kvs);
          ds' = (if srt then sort_key fst ds else ds)
      in CHR ''{'' # join ('','' @ sp) (map (\<lambda>(k, t). dumps_str k @ '':'' @ sp @ t) ds') @ ''}'')"

text \<open>\<open>asv.evidence.canonical_json\<close>: sorted keys and compact separators.\<close>

definition canonical_json :: "json \<Rightarrow> string" where
  "canonical_json v = dumps True [] v"

section \<open>Reading: \<open>json.loads\<close>\<close>

definition is_ws :: "char \<Rightarrow> bool" where
  "is_ws c \<longleftrightarrow> c = CHR '' '' \<or> c = CHR 0x09 \<or> c = CHR 0x0A \<or> c = CHR 0x0D"

definition skip_ws :: "string \<Rightarrow> string" where
  "skip_ws s = dropWhile is_ws s"

definition hex_val :: "char \<Rightarrow> nat option" where
  "hex_val c =
     (let n = (of_char c :: nat) in
      if 48 \<le> n \<and> n \<le> 57 then Some (n - 48)
      else if 97 \<le> n \<and> n \<le> 102 then Some (n - 87)
      else if 65 \<le> n \<and> n \<le> 70 then Some (n - 55)
      else None)"

definition unescape :: "char \<Rightarrow> char option" where
  "unescape e =
     (if e = quote then Some quote
      else if e = backslash then Some backslash
      else if e = CHR ''/'' then Some (CHR ''/'')
      else if e = CHR ''b'' then Some (CHR 0x08)
      else if e = CHR ''f'' then Some (CHR 0x0C)
      else if e = CHR ''n'' then Some (CHR 0x0A)
      else if e = CHR ''r'' then Some (CHR 0x0D)
      else if e = CHR ''t'' then Some (CHR 0x09)
      else None)"

text \<open>A string after its opening quote: its characters and the rest of the document.\<close>

fun p_string :: "string \<Rightarrow> (string \<times> string) option" where
  "p_string [] = None"
| "p_string (c # r) =
     (if c = quote then Some ([], r)
      else if c = backslash then
        (case r of
           [] \<Rightarrow> None
         | e # r' \<Rightarrow>
             if e = CHR ''u'' then
               (case r' of
                  h1 # h2 # h3 # h4 # r'' \<Rightarrow>
                    (case (hex_val h1, hex_val h2, hex_val h3, hex_val h4) of
                       (Some 0, Some 0, Some a, Some b) \<Rightarrow>
                         map_option (apfst ((#) (char_of (16 * a + b)))) (p_string r'')
                     | _ \<Rightarrow> None)
                | _ \<Rightarrow> None)
             else (case unescape e of
                     None \<Rightarrow> None
                   | Some c' \<Rightarrow> map_option (apfst ((#) c')) (p_string r')))
      else if (of_char c :: nat) < 32 then None
      else map_option (apfst ((#) c)) (p_string r))"

text \<open>After the integer part: whether a fraction or an exponent follows.\<close>

definition float_tail :: "string \<Rightarrow> bool" where
  "float_tail s =
     (case s of
        [] \<Rightarrow> False
      | c # r \<Rightarrow>
          if c = CHR ''.'' then (case r of [] \<Rightarrow> False | d # _ \<Rightarrow> is_digit d)
          else if c = CHR ''e'' \<or> c = CHR ''E'' then
            (case r of
               [] \<Rightarrow> False
             | d # r' \<Rightarrow> is_digit d \<or>
                 ((d = CHR ''+'' \<or> d = CHR ''-'') \<and> (case r' of [] \<Rightarrow> False | d' # _ \<Rightarrow> is_digit d')))
          else False)"

definition int_digits :: "string \<Rightarrow> string" where
  "int_digits t = (if starts_with t ''0'' then ''0'' else takeWhile is_digit t)"

definition p_number :: "string \<Rightarrow> (json \<times> string) option" where
  "p_number s =
     (let neg = starts_with s ''-'';
          t = (if neg then tl s else s);
          ds = int_digits t;
          r = drop (length ds) t
      in if ds = [] \<or> float_tail r then None
         else Some (JInt (if neg then - int (dec_nat ds) else int (dec_nat ds)), r))"

text \<open>
  The reader proper. The first argument is fuel: it is used up by one per value, element or
  member, each of which consumes a character, so the length of the document is enough.
\<close>

fun p_value :: "nat \<Rightarrow> string \<Rightarrow> (json \<times> string) option"
and p_elems :: "nat \<Rightarrow> json list \<Rightarrow> string \<Rightarrow> (json \<times> string) option"
and p_members :: "nat \<Rightarrow> json dict \<Rightarrow> string \<Rightarrow> (json \<times> string) option"
where
  "p_value 0 s = None"
| "p_value (Suc n) s =
     (case s of
        [] \<Rightarrow> None
      | c # r \<Rightarrow>
          if c = quote then map_option (apfst JStr) (p_string r)
          else if c = CHR ''{'' then
            (case skip_ws r of
               [] \<Rightarrow> None
             | d # r' \<Rightarrow> if d = CHR ''}'' then Some (JObj [], r') else p_members n [] (d # r'))
          else if c = CHR ''['' then
            (case skip_ws r of
               [] \<Rightarrow> None
             | d # r' \<Rightarrow> if d = CHR '']'' then Some (JArr [], r') else p_elems n [] (d # r'))
          else if starts_with s ''null'' then Some (JNull, drop 4 s)
          else if starts_with s ''true'' then Some (JBool True, drop 4 s)
          else if starts_with s ''false'' then Some (JBool False, drop 5 s)
          else p_number s)"
| "p_elems 0 acc s = None"
| "p_elems (Suc n) acc s =
     (case p_value n s of
        None \<Rightarrow> None
      | Some (v, r) \<Rightarrow>
          (case skip_ws r of
             [] \<Rightarrow> None
           | c # r' \<Rightarrow>
               if c = CHR '']'' then Some (JArr (acc @ [v]), r')
               else if c = CHR '','' then p_elems n (acc @ [v]) (skip_ws r')
               else None))"
| "p_members 0 acc s = None"
| "p_members (Suc n) acc s =
     (case s of
        [] \<Rightarrow> None
      | q # r \<Rightarrow>
          if q \<noteq> quote then None
          else (case p_string r of
                  None \<Rightarrow> None
                | Some (k, r1) \<Rightarrow>
                    (case skip_ws r1 of
                       [] \<Rightarrow> None
                     | c # r2 \<Rightarrow>
                         if c \<noteq> CHR '':'' then None
                         else (case p_value n (skip_ws r2) of
                                 None \<Rightarrow> None
                               | Some (v, r3) \<Rightarrow>
                                   (case skip_ws r3 of
                                      [] \<Rightarrow> None
                                    | d # r4 \<Rightarrow>
                                        if d = CHR ''}'' then Some (JObj (AList.update k v acc), r4)
                                        else if d = CHR '','' then
                                          p_members n (AList.update k v acc) (skip_ws r4)
                                        else None)))))"

definition loads :: "string \<Rightarrow> json option" where
  "loads s =
     (case p_value (Suc (length s)) (skip_ws s) of
        None \<Rightarrow> None
      | Some (v, r) \<Rightarrow> if skip_ws r = [] then Some v else None)"

section \<open>Reading back what was written\<close>

text \<open>
  What \<open>json.loads\<close> returns for the text of \<open>v\<close>: the same value, its dictionaries in
  the order they were written.
\<close>

primrec norm_json :: "bool \<Rightarrow> json \<Rightarrow> json" where
  "norm_json srt JNull = JNull"
| "norm_json srt (JBool b) = JBool b"
| "norm_json srt (JInt i) = JInt i"
| "norm_json srt (JStr s) = JStr s"
| "norm_json srt (JArr xs) = JArr (map (norm_json srt) xs)"
| "norm_json srt (JObj kvs) =
     (let ds = dict_of (map (map_prod (\<lambda>k. k) (norm_json srt)) kvs)
      in JObj (if srt then sort_key fst ds else ds))"

definition written_order :: "bool \<Rightarrow> 'v dict \<Rightarrow> 'v dict" where
  "written_order srt kvs = (if srt then sort_key fst (dict_of kvs) else dict_of kvs)"

lemma written_order_map_prod:
  "written_order srt (map (map_prod (\<lambda>k. k) f) kvs) = map (map_prod (\<lambda>k. k) f) (written_order srt kvs)"
  by (simp add: written_order_def dict_of_map_prod sort_key_map_prod)

lemma distinct_written_order: "distinct (map fst (written_order srt kvs))"
proof -
  have *: "distinct (map fst (sort_key fst ds))" if "distinct (map fst ds)" for ds :: "'a dict"
    using that by (simp add: distinct_map)
  show ?thesis by (simp add: written_order_def *)
qed

lemma set_written_order: "set (written_order srt kvs) \<subseteq> set kvs"
proof -
  have "set (fold (\<lambda>(k, v). AList.update k v) xs acc) \<subseteq> set xs \<union> set acc" for xs acc :: "'a dict"
  proof (induction xs arbitrary: acc)
    case Nil
    then show ?case by simp
  next
    case (Cons p xs)
    have "set (AList.update k v al) \<subseteq> insert (k, v) (set al)" for k and v :: 'a and al
      by (induction al) auto
    with Cons show ?case by (cases p) fastforce
  qed
  from this [of kvs "[]"] show ?thesis by (simp add: written_order_def dict_of_def)
qed

lemma written_order_idem [simp]: "written_order srt (written_order srt kvs) = written_order srt kvs"
proof -
  have "distinct (map fst (written_order srt kvs))" by (rule distinct_written_order)
  then show ?thesis
    by (auto simp: written_order_def sort_key_id_if_sorted)
qed

lemma dumps_obj:
  "dumps srt sp (JObj kvs) =
     CHR ''{'' # join ('','' @ sp)
       (map (\<lambda>(k, v). dumps_str k @ '':'' @ sp @ dumps srt sp v) (written_order srt kvs)) @ ''}''"
proof -
  have *: "map (\<lambda>(k, t). g k t) (map (map_prod (\<lambda>k. k) f) xs) = map (\<lambda>(k, v). g k (f v)) xs"
    for g :: "string \<Rightarrow> string \<Rightarrow> string" and f :: "json \<Rightarrow> string" and xs
    by (induction xs) auto
  have "dumps srt sp (JObj kvs) =
     CHR ''{'' # join ('','' @ sp) (map (\<lambda>(k, t). dumps_str k @ '':'' @ sp @ t)
        (written_order srt (map (map_prod (\<lambda>k. k) (dumps srt sp)) kvs))) @ ''}''"
    unfolding dumps.simps(6) Let_def written_order_def ..
  then show ?thesis
    unfolding written_order_map_prod * .
qed

lemma norm_obj:
  "norm_json srt (JObj kvs) = JObj (map (map_prod (\<lambda>k. k) (norm_json srt)) (written_order srt kvs))"
  using written_order_map_prod [of srt "norm_json srt" kvs]
  by (simp add: written_order_def Let_def)

declare dumps.simps(6) [simp del] norm_json.simps(6) [simp del]

lemma hex_val_digit: "n < 16 \<Longrightarrow> hex_val (hex_digit n) = Some n"
  by (auto simp: hex_val_def hex_digit_def of_char_of Let_def)

lemma p_string_esc: "p_string (esc c @ t) = map_option (apfst ((#) c)) (p_string t)"
proof (cases "esc c = [c]")
  case True
  then show ?thesis
    by (auto simp: esc_def split: if_splits)
next
  case False
  have hx: "16 * (of_char c div 16) + of_char c mod 16 = (of_char c :: nat)" by simp
  have lt: "of_char c div 16 < (16::nat)"
    by (simp add: less_mult_imp_div_less)
  have hv: "hex_val (hex_digit (of_char c div 16)) = Some (of_char c div 16)"
    "hex_val (hex_digit (of_char c mod 16)) = Some (of_char c mod 16)"
    using lt by (simp_all add: hex_val_digit)
  have z: "hex_val (CHR ''0'') = Some 0" by (simp add: hex_val_def)
  show ?thesis using False
    by (auto simp: esc_def quote_def backslash_def unescape_def hv z)
qed

lemma p_string_dumps [simp]: "p_string (concat (map esc s) @ quote # rest) = Some (s, rest)"
  by (induction s) (simp_all add: p_string_esc)

definition num_cont :: "string \<Rightarrow> bool" where
  "num_cont s = (case s of [] \<Rightarrow> False | c # _ \<Rightarrow> is_digit c \<or> c = CHR ''.'' \<or> c = CHR ''e'' \<or> c = CHR ''E'')"

lemma int_digits_nat_dec:
  assumes "\<not> num_cont rest"
  shows "int_digits (nat_dec n @ rest) = nat_dec n"
proof -
  have digs: "\<forall>d \<in> set (nat_dec n). is_digit d" by (simp add: nat_dec_digits)
  have "rest = [] \<or> \<not> is_digit (hd rest)"
    using assms by (cases rest) (auto simp: num_cont_def)
  then have tw: "takeWhile is_digit (nat_dec n @ rest) = nat_dec n"
    using digs by (cases rest) (auto simp: takeWhile_append2)
  have "starts_with (nat_dec n @ rest) ''0'' \<Longrightarrow> nat_dec n = ''0''"
    using nat_dec_hd_zero [of n] by (cases "nat_dec n") auto
  with tw show ?thesis by (cases "starts_with (nat_dec n @ rest) ''0''") (simp_all add: int_digits_def)
qed

lemma p_number_int:
  assumes "\<not> num_cont rest"
  shows "p_number (int_dec i @ rest) = Some (JInt i, rest)"
proof -
  have nm: "\<not> starts_with (nat_dec n @ rest) ''-''" for n
    using nat_dec_digits [of "hd (nat_dec n)" n] by (cases "nat_dec n") (auto simp: is_digit_def)
  have ft: "\<not> float_tail rest"
    using assms by (auto simp: num_cont_def float_tail_def split: list.splits)
  show ?thesis
    using nm ft int_digits_nat_dec [OF assms] by (simp add: p_number_def int_dec_def Let_def)
qed

text \<open>The first character of a written value: never blank, never a closing bracket.\<close>

lemma int_dec_hd: "\<exists>c t. int_dec i = c # t \<and> (is_digit c \<or> c = CHR ''-'')"
proof -
  have "\<exists>c t. nat_dec n = c # t \<and> is_digit c" for n
    using nat_dec_digits [of "hd (nat_dec n)" n] by (cases "nat_dec n") auto
  then show ?thesis by (cases "i < 0") (simp_all add: int_dec_def, blast)
qed

lemma dumps_hd:
  "\<exists>c t. dumps srt sp v = c # t \<and> \<not> is_ws c \<and> c \<noteq> CHR '']''"
proof (cases v)
  case (JInt i)
  then show ?thesis using int_dec_hd [of i] by (auto simp: is_ws_def is_digit_def)
qed (auto simp: is_ws_def dumps_str_def quote_def dumps_obj)

lemma skip_ws_dumps [simp]: "skip_ws (dumps srt sp v @ t) = dumps srt sp v @ t"
  using dumps_hd [of srt sp v] by (auto simp: skip_ws_def)

lemma skip_ws_nonws: "\<not> is_ws c \<Longrightarrow> skip_ws (c # t) = c # t"
  by (simp add: skip_ws_def)

lemma is_ws_consts [simp]:
  "\<not> is_ws (CHR '','')" "\<not> is_ws (CHR '':'')" "\<not> is_ws (CHR '']'')" "\<not> is_ws (CHR ''}'')"
  "\<not> is_ws quote"
  by (simp_all add: is_ws_def quote_def)

lemma skip_ws_pad: "list_all is_ws sp \<Longrightarrow> skip_ws (sp @ t) = skip_ws t"
  by (induction sp) (auto simp: skip_ws_def)

lemma num_cont_seps [simp]:
  "\<not> num_cont []" "\<not> num_cont (CHR '','' # t)" "\<not> num_cont (CHR '']'' # t)" "\<not> num_cont (CHR ''}'' # t)"
  by (simp_all add: num_cont_def is_digit_def)

text \<open>One written element, and then a whole list of them.\<close>

definition reads :: "bool \<Rightarrow> string \<Rightarrow> json \<Rightarrow> bool" where
  "reads srt sp v \<longleftrightarrow>
     (\<forall>n rest. length (dumps srt sp v) \<le> n \<longrightarrow> \<not> num_cont rest \<longrightarrow>
        p_value n (dumps srt sp v @ rest) = Some (norm_json srt v, rest))"

lemma readsD:
  "reads srt sp v \<Longrightarrow> length (dumps srt sp v) \<le> n \<Longrightarrow> \<not> num_cont rest \<Longrightarrow>
     p_value n (dumps srt sp v @ rest) = Some (norm_json srt v, rest)"
  by (simp add: reads_def)

lemma dumps_nonempty: "0 < length (dumps srt sp v)"
  using dumps_hd [of srt sp v] by auto

lemma p_elems_join:
  assumes "list_all is_ws sp" and "\<forall>v \<in> set vs. reads srt sp v" and "vs \<noteq> []"
    and "length (join ('','' @ sp) (map (dumps srt sp) vs)) < n"
  shows "p_elems n acc (join ('','' @ sp) (map (dumps srt sp) vs) @ CHR '']'' # rest)
           = Some (JArr (acc @ map (norm_json srt) vs), rest)"
  using assms(2-)
proof (induction vs arbitrary: n acc rule: induct_list012)
  case 1
  then show ?case by simp
next
  case (2 v)
  then obtain m where "n = Suc m" "length (dumps srt sp v) \<le> m" by (cases n) auto
  with 2 show ?case by (simp add: readsD skip_ws_nonws)
next
  case (3 v w vs)
  obtain m where m: "n = Suc m" using 3 by (cases n) auto
  let ?rest = "join ('','' @ sp) (map (dumps srt sp) (w # vs))"
  have len: "length (dumps srt sp v) \<le> m" "length ?rest < m"
    using 3(5) m dumps_nonempty [of srt sp v] by auto
  have step: "skip_ws (sp @ ?rest @ CHR '']'' # rest) = ?rest @ CHR '']'' # rest"
  proof -
    obtain t where "?rest @ CHR '']'' # rest = dumps srt sp w @ t"
      by (cases vs) auto
    then show ?thesis by (simp add: skip_ws_pad [OF assms(1)])
  qed
  have "p_elems m (acc @ [norm_json srt v]) (?rest @ CHR '']'' # rest)
      = Some (JArr ((acc @ [norm_json srt v]) @ map (norm_json srt) (w # vs)), rest)"
    using 3(2) 3(3) len(2) by (intro 3) auto
  then show ?case
    using 3(3) len step m by (simp add: readsD skip_ws_nonws)
qed

definition member_text :: "bool \<Rightarrow> string \<Rightarrow> string \<times> json \<Rightarrow> string" where
  "member_text srt sp = (\<lambda>(k, v). dumps_str k @ '':'' @ sp @ dumps srt sp v)"

lemma length_member_text: "length (dumps srt sp v) < length (member_text srt sp (k, v))"
  by (simp add: member_text_def dumps_str_def)

lemma update_fresh: "k \<notin> fst ` set acc \<Longrightarrow> AList.update k v acc = acc @ [(k, v)]"
  by (induction acc) auto

lemma p_members_join:
  assumes "list_all is_ws sp" and "\<forall>(k, v) \<in> set kvs. reads srt sp v" and "kvs \<noteq> []"
    and "length (join ('','' @ sp) (map (member_text srt sp) kvs)) < n"
    and "distinct (map fst (acc @ kvs))"
  shows "p_members n acc (join ('','' @ sp) (map (member_text srt sp) kvs) @ CHR ''}'' # rest)
           = Some (JObj (acc @ map (map_prod (\<lambda>k. k) (norm_json srt)) kvs), rest)"
  using assms(2-)
proof (induction kvs arbitrary: n acc rule: induct_list012)
  case 1
  then show ?case by simp
next
  case (2 p)
  obtain k v where p: "p = (k, v)" by (cases p)
  obtain m where m: "n = Suc m" using 2 by (cases n) auto
  have "length (dumps srt sp v) \<le> m" using 2(3) m p length_member_text [of srt sp v k] by simp
  moreover have "k \<notin> fst ` set acc" using 2(4) p by auto
  ultimately show ?case
    using 2(1) by (simp add: m p member_text_def dumps_str_def readsD skip_ws_nonws
        skip_ws_pad [OF assms(1)] update_fresh)
next
  case (3 p q kvs)
  obtain k v where p: "p = (k, v)" by (cases p)
  obtain m where m: "n = Suc m" using 3 by (cases n) auto
  let ?rest = "join ('','' @ sp) (map (member_text srt sp) (q # kvs))"
  have len: "length (dumps srt sp v) \<le> m" "length ?rest < m"
    using 3(5) m p length_member_text [of srt sp v k] by auto
  have fresh: "k \<notin> fst ` set acc" using 3(6) p by auto
  have step: "skip_ws (sp @ ?rest @ CHR ''}'' # rest) = ?rest @ CHR ''}'' # rest"
  proof -
    obtain t where "?rest @ CHR ''}'' # rest = quote # t"
      by (cases q; cases kvs) (auto simp: member_text_def dumps_str_def)
    then show ?thesis by (simp add: skip_ws_pad [OF assms(1)] skip_ws_nonws)
  qed
  have "p_members m (acc @ [(k, norm_json srt v)]) (?rest @ CHR ''}'' # rest)
      = Some (JObj ((acc @ [(k, norm_json srt v)]) @ map (map_prod (\<lambda>k. k) (norm_json srt)) (q # kvs)), rest)"
    using 3(2) 3(3) 3(6) len(2) p by (intro 3) auto
  then show ?case
    using 3(3) len(1) step fresh
    by (simp add: m p member_text_def dumps_str_def readsD skip_ws_nonws
        skip_ws_pad [OF assms(1)] update_fresh)
qed

lemma readsI:
  assumes "\<And>n rest. length (dumps srt sp v) \<le> Suc n \<Longrightarrow> \<not> num_cont rest \<Longrightarrow>
     p_value (Suc n) (dumps srt sp v @ rest) = Some (norm_json srt v, rest)"
  shows "reads srt sp v"
  unfolding reads_def
proof (intro allI impI)
  fix n rest
  assume *: "length (dumps srt sp v) \<le> n" "\<not> num_cont rest"
  then obtain m where "n = Suc m" using dumps_nonempty [of srt sp v] by (cases n) auto
  with * assms show "p_value n (dumps srt sp v @ rest) = Some (norm_json srt v, rest)" by simp
qed

lemma reads_arr:
  assumes "list_all is_ws sp" and "\<forall>v \<in> set vs. reads srt sp v"
  shows "reads srt sp (JArr vs)"
proof (rule readsI)
  fix n rest
  assume len: "length (dumps srt sp (JArr vs)) \<le> Suc n"
  show "p_value (Suc n) (dumps srt sp (JArr vs) @ rest) = Some (norm_json srt (JArr vs), rest)"
  proof (cases vs)
    case Nil
    then show ?thesis by (simp add: quote_def skip_ws_nonws)
  next
    case (Cons v vs')
    let ?body = "join ('','' @ sp) (map (dumps srt sp) vs)"
    have "\<exists>t. ?body = dumps srt sp v @ t" using Cons by (cases vs') auto
    then obtain c t where ct: "?body @ CHR '']'' # rest = c # t" "\<not> is_ws c" "c \<noteq> CHR '']''"
      using dumps_hd [of srt sp v] by auto
    have "p_elems n [] (?body @ CHR '']'' # rest) = Some (JArr ([] @ map (norm_json srt) vs), rest)"
      using assms len Cons by (intro p_elems_join) auto
    with ct show ?thesis by (simp add: quote_def skip_ws_nonws)
  qed
qed

lemma reads_obj:
  assumes "list_all is_ws sp" and "\<And>k v. (k, v) \<in> set kvs \<Longrightarrow> reads srt sp v"
  shows "reads srt sp (JObj kvs)"
proof (rule readsI)
  fix n rest
  assume len: "length (dumps srt sp (JObj kvs)) \<le> Suc n"
  define ws where "ws = written_order srt kvs"
  have wr: "dumps srt sp (JObj kvs) = CHR ''{'' # join ('','' @ sp) (map (member_text srt sp) ws) @ ''}''"
    by (simp only: dumps_obj ws_def member_text_def)
  have res: "norm_json srt (JObj kvs) = JObj (map (map_prod (\<lambda>k. k) (norm_json srt)) ws)"
    by (simp only: norm_obj ws_def)
  show "p_value (Suc n) (dumps srt sp (JObj kvs) @ rest) = Some (norm_json srt (JObj kvs), rest)"
  proof (cases ws)
    case Nil
    then show ?thesis unfolding wr res by (simp add: quote_def skip_ws_nonws)
  next
    case (Cons p ws')
    let ?body = "join ('','' @ sp) (map (member_text srt sp) ws)"
    have "\<exists>t. ?body = member_text srt sp p @ t" using Cons by (cases ws') auto
    then obtain t where ct: "?body @ CHR ''}'' # rest = quote # t"
      by (cases p) (auto simp: member_text_def dumps_str_def)
    have "p_members n [] (?body @ CHR ''}'' # rest)
        = Some (JObj ([] @ map (map_prod (\<lambda>k. k) (norm_json srt)) ws), rest)"
    proof (rule p_members_join [OF assms(1)])
      show "length ?body < n" using len unfolding wr by simp
      show "\<forall>(k, v) \<in> set ws. reads srt sp v"
        using assms(2) set_written_order [of srt kvs] by (auto simp: ws_def)
      show "distinct (map fst ([] @ ws))" using distinct_written_order [of srt kvs] by (simp add: ws_def)
    qed (simp add: Cons)
    with ct show ?thesis unfolding wr res by (simp add: quote_def skip_ws_nonws is_ws_def)
  qed
qed

lemma number_start:
  "is_digit c \<or> c = CHR ''-'' \<Longrightarrow> c \<noteq> quote \<and> c \<noteq> CHR ''{'' \<and> c \<noteq> CHR ''['' \<and>
     c \<noteq> CHR ''n'' \<and> c \<noteq> CHR ''t'' \<and> c \<noteq> CHR ''f''"
  by (auto simp: is_digit_def quote_def)

lemma reads_dumps: "list_all is_ws sp \<Longrightarrow> reads srt sp v"
proof (induction v)
  case (JInt i)
  obtain c t where ct: "int_dec i = c # t" "is_digit c \<or> c = CHR ''-''" using int_dec_hd by blast
  have "p_value (Suc n) (int_dec i @ rest) = p_number (int_dec i @ rest)" for n rest
    using ct number_start [OF ct(2)] by simp
  then show ?case by (intro readsI) (simp add: p_number_int del: p_value.simps)
next
  case (JArr vs)
  then show ?case by (intro reads_arr) auto
next
  case (JObj kvs)
  show ?case
  proof (rule reads_obj [OF JObj.prems])
    fix k v
    assume "(k, v) \<in> set kvs"
    then show "reads srt sp v" by (rule JObj.IH) (simp_all add: JObj.prems)
  qed
next
  case JNull
  show ?case by (rule readsI) (simp add: quote_def)
next
  case (JBool b)
  show ?case by (rule readsI) (simp add: quote_def)
next
  case (JStr s)
  show ?case by (rule readsI) (simp add: dumps_str_def)
qed

theorem loads_dumps:
  assumes "list_all is_ws sp"
  shows "loads (dumps srt sp v) = Some (norm_json srt v)"
proof -
  have "p_value (Suc (length (dumps srt sp v))) (dumps srt sp v @ []) = Some (norm_json srt v, [])"
    using reads_dumps [OF assms, of srt v] by (intro readsD) auto
  then show ?thesis
    using skip_ws_dumps [of srt sp v "[]"] by (simp add: loads_def skip_ws_def del: p_value.simps)
qed

lemma loads_canonical [simp]: "loads (canonical_json v) = Some (norm_json True v)"
  by (simp add: canonical_json_def loads_dumps)

lemma loads_dumps_default [simp]:
  "loads (dumps srt [] v) = Some (norm_json srt v)" "loads (dumps srt '' '' v) = Some (norm_json srt v)"
  by (simp_all add: loads_dumps is_ws_def)

section \<open>The canonical text\<close>

lemma written_order_nested [simp]:
  "written_order srt (map (map_prod (\<lambda>k. k) f) (written_order srt kvs))
     = map (map_prod (\<lambda>k. k) f) (written_order srt kvs)"
  by (simp add: written_order_map_prod)

lemma dumps_norm [simp]: "dumps srt sp (norm_json srt v) = dumps srt sp v"
proof (induction v)
  case (JArr vs)
  then have "map (dumps srt sp \<circ> norm_json srt) vs = map (dumps srt sp) vs" by simp
  then show ?case by (simp only: norm_json.simps dumps.simps map_map)
next
  case (JObj kvs)
  have "dumps srt sp (norm_json srt v) = dumps srt sp v" if "(k, v) \<in> set (written_order srt kvs)" for k v
    using that set_written_order [of srt kvs] by (intro JObj.IH) auto
  then have "map ((\<lambda>(k, v). dumps_str k @ '':'' @ sp @ dumps srt sp v) \<circ> map_prod (\<lambda>k. k) (norm_json srt))
        (written_order srt kvs)
      = map (\<lambda>(k, v). dumps_str k @ '':'' @ sp @ dumps srt sp v) (written_order srt kvs)"
    by (intro map_cong) auto
  then show ?case by (simp only: norm_obj dumps_obj written_order_nested map_map)
qed simp_all

lemma canonical_norm [simp]: "canonical_json (norm_json True v) = canonical_json v"
  by (simp add: canonical_json_def)

lemma canonical_eq_iff: "canonical_json v = canonical_json w \<longleftrightarrow> norm_json True v = norm_json True w"
  by (metis canonical_norm loads_canonical option.inject)

lemma sort_key_fst_eq:
  assumes "distinct (map fst xs)" and "distinct (map fst ys)" and "map_of xs = map_of ys"
  shows "sort_key fst xs = sort_key fst (ys :: ('a::linorder \<times> 'b) list)"
proof -
  have "set xs = set ys" using assms by (metis map_of_inject_set)
  moreover have "distinct xs" "distinct ys" using assms by (auto simp: distinct_map)
  ultimately have "mset xs = mset ys" by (simp add: set_eq_iff_mset_eq_distinct)
  moreover have "inj_on fst (set xs)" using assms(1) by (simp add: distinct_map)
  ultimately show ?thesis
    by (intro sort_key_inj_key_eq) simp_all
qed

text \<open>Looking up a key in what was written and read back.\<close>

lemma map_of_map_prod: "map_of (map (map_prod (\<lambda>k. k) f) xs) k = map_option f (map_of xs k)"
  by (induction xs) auto

lemma map_of_written_order: "map_of (written_order srt kvs) = map_of (dict_of kvs)"
  by (rule map_of_inject_set [THEN iffD2], rule distinct_written_order, simp) (simp add: written_order_def)

lemma dict_get_norm:
  "dict_get (map (map_prod (\<lambda>k. k) f) (written_order srt kvs)) k = map_option f (dict_get kvs k)"
proof -
  have "distinct (map fst (map (map_prod (\<lambda>k. k) f) (written_order srt kvs)))"
    using distinct_written_order [of srt kvs] by (simp add: comp_def)
  then show ?thesis
    by (simp only: dict_get_distinct map_of_map_prod map_of_written_order) (simp add: dict_get_def)
qed

text \<open>The order in which a dictionary was built does not show in its canonical text.\<close>

lemma canonical_key_order:
  assumes "map_of (dict_of d) = map_of (dict_of e)"
  shows "canonical_json (JObj d) = canonical_json (JObj e)"
proof -
  have "written_order True d = written_order True e"
    using assms by (simp add: written_order_def sort_key_fst_eq)
  then show ?thesis by (simp add: canonical_json_def dumps_obj)
qed

text \<open>The text is plain ASCII, so \<open>.encode()\<close> yields its characters as bytes.\<close>

definition is_ascii :: "string \<Rightarrow> bool" where
  "is_ascii s \<longleftrightarrow> (\<forall>c \<in> set s. (of_char c :: nat) < 128)"

lemma is_ascii_simps [simp]:
  "is_ascii []" "is_ascii (c # s) \<longleftrightarrow> (of_char c :: nat) < 128 \<and> is_ascii s"
  "is_ascii (s @ t) \<longleftrightarrow> is_ascii s \<and> is_ascii t"
  by (auto simp: is_ascii_def)

lemma is_ascii_join: "is_ascii sep \<Longrightarrow> \<forall>s \<in> set ss. is_ascii s \<Longrightarrow> is_ascii (join sep ss)"
  by (induction sep ss rule: join.induct) auto

lemma is_ascii_int_dec: "is_ascii (int_dec i)"
  using nat_dec_digits by (fastforce simp: is_ascii_def int_dec_def is_digit_def)

lemma is_ascii_esc: "is_ascii (esc c)"
proof -
  have h: "(of_char (hex_digit n) :: nat) < 128" if "n < 16" for n
    using that by (simp add: hex_digit_def of_char_of)
  have "of_char c div 16 < (16::nat)" by (simp add: less_mult_imp_div_less)
  then show ?thesis by (simp add: esc_def h backslash_def quote_def)
qed

lemma is_ascii_dumps_str: "is_ascii (dumps_str s)"
  by (induction s) (use is_ascii_esc in \<open>auto simp: dumps_str_def quote_def\<close>)

lemma is_ascii_dumps:
  assumes "is_ascii sp"
  shows "is_ascii (dumps srt sp v)"
proof (induction v)
  case (JArr vs)
  with assms show ?case by (auto intro!: is_ascii_join)
next
  case (JObj kvs)
  have "is_ascii (dumps srt sp v)" if "(k, v) \<in> set (written_order srt kvs)" for k v
    using that set_written_order [of srt kvs] by (intro JObj.IH) auto
  with assms show ?case by (auto simp: dumps_obj is_ascii_dumps_str intro!: is_ascii_join)
qed (simp_all add: is_ascii_int_dec is_ascii_dumps_str)

lemma is_ascii_canonical: "is_ascii (canonical_json v)"
  by (simp add: canonical_json_def is_ascii_dumps)

section \<open>\<open>str(x)\<close> and \<open>int(s)\<close>\<close>

text \<open>The characters below 256 that \<open>repr\<close> escapes, and its choice of quotes.\<close>

definition py_repr_str :: "string \<Rightarrow> string" where
  "py_repr_str s =
     (let q = (if CHR 0x27 \<in> set s \<and> quote \<notin> set s then quote else CHR 0x27);
          e = (\<lambda>c. let n = (of_char c :: nat) in
                 if c = q \<or> c = backslash then [backslash, c]
                 else if n = 9 then [backslash, CHR ''t'']
                 else if n = 10 then [backslash, CHR ''n'']
                 else if n = 13 then [backslash, CHR ''r'']
                 else if n < 32 \<or> (127 \<le> n \<and> n \<le> 160) \<or> n = 173
                   then [backslash, CHR ''x'', hex_digit (n div 16), hex_digit (n mod 16)]
                 else [c])
      in q # concat (map e s) @ [q])"

primrec py_repr :: "json \<Rightarrow> string" where
  "py_repr JNull = ''None''"
| "py_repr (JBool b) = (if b then ''True'' else ''False'')"
| "py_repr (JInt i) = int_dec i"
| "py_repr (JStr s) = py_repr_str s"
| "py_repr (JArr xs) = ''['' @ join '', '' (map py_repr xs) @ '']''"
| "py_repr (JObj kvs) =
     ''{'' @ join '', '' (map (\<lambda>(k, t). py_repr_str k @ '': '' @ t)
       (dict_of (map (map_prod (\<lambda>k. k) py_repr) kvs))) @ ''}''"

fun py_str :: "json \<Rightarrow> string" where
  "py_str (JStr s) = s"
| "py_str v = py_repr v"

definition is_space :: "char \<Rightarrow> bool" where
  "is_space c \<longleftrightarrow> (let n = (of_char c :: nat) in
     (9 \<le> n \<and> n \<le> 13) \<or> (28 \<le> n \<and> n \<le> 32) \<or> n = 133 \<or> n = 160)"

text \<open>\<open>str.strip()\<close>.\<close>

definition py_strip :: "string \<Rightarrow> string" where
  "py_strip s = rev (dropWhile is_space (rev (dropWhile is_space s)))"

text \<open>Digits, with single underscores allowed between them.\<close>

fun int_body :: "string \<Rightarrow> bool" where
  "int_body [] = False"
| "int_body [c] = is_digit c"
| "int_body (c # d # r) = (is_digit c \<and> (if d = CHR ''_'' then int_body r else int_body (d # r)))"

text \<open>\<open>int(s)\<close> of a string: \<^const>\<open>None\<close> where Python raises \<open>ValueError\<close>.\<close>

definition parse_int :: "string \<Rightarrow> int option" where
  "parse_int s =
     (let t = py_strip s;
          sgn = starts_with t ''-'' \<or> starts_with t ''+'';
          b = (if sgn then tl t else t);
          n = int (dec_nat (filter is_digit b))
      in if int_body b then Some (if starts_with t ''-'' then - n else n) else None)"

end
