(* ===== verification/Domain.thy ===== *)
theory Domain
  imports Json
begin

text \<open>
  \<open>asv/domain.py\<close>: the shutdown states, the probe results, the five probe kinds, a probe
  observation and the aggregation of results into a terminal state; and the exceptions of the
  program, with the class name and the message Python shows for them.
\<close>

section \<open>Exceptions\<close>

text \<open>
  The classes the program raises or catches. \<open>OtherError\<close> carries the name of any other
  class: what a transport, an adapter or SQLite may raise.
\<close>

datatype exn_class =
    ValidationError | NotFoundError | ConflictError
  | AuthenticationError | AuthorizationError | IntegrationError
  | ValueError | TypeError | KeyError | AttributeError | RuntimeError | OverflowError
  | IntegrityError | OtherError string

datatype exn = Exn (exn_class: exn_class) (exn_message: string)

fun class_name :: "exn_class \<Rightarrow> string" where
  "class_name ValidationError = ''ValidationError''"
| "class_name NotFoundError = ''NotFoundError''"
| "class_name ConflictError = ''ConflictError''"
| "class_name AuthenticationError = ''AuthenticationError''"
| "class_name AuthorizationError = ''AuthorizationError''"
| "class_name IntegrationError = ''IntegrationError''"
| "class_name ValueError = ''ValueError''"
| "class_name TypeError = ''TypeError''"
| "class_name KeyError = ''KeyError''"
| "class_name AttributeError = ''AttributeError''"
| "class_name RuntimeError = ''RuntimeError''"
| "class_name OverflowError = ''OverflowError''"
| "class_name IntegrityError = ''IntegrityError''"
| "class_name (OtherError n) = n"

section \<open>\<open>ShutdownState\<close>, \<open>ProbeResult\<close>\<close>

datatype shutdown_state =
    RUNNING | REQUESTED | FENCING | PROCESS_STOP_SENT | CHILD_DISCOVERY | PROBING
  | VERIFIED | S_PARTIAL | S_UNKNOWN | FAILED

fun state_value :: "shutdown_state \<Rightarrow> string" where
  "state_value RUNNING = ''RUNNING''"
| "state_value REQUESTED = ''REQUESTED''"
| "state_value FENCING = ''FENCING''"
| "state_value PROCESS_STOP_SENT = ''PROCESS_STOP_SENT''"
| "state_value CHILD_DISCOVERY = ''CHILD_DISCOVERY''"
| "state_value PROBING = ''PROBING''"
| "state_value VERIFIED = ''VERIFIED''"
| "state_value S_PARTIAL = ''PARTIAL''"
| "state_value S_UNKNOWN = ''UNKNOWN''"
| "state_value FAILED = ''FAILED''"

definition shutdown_states :: "shutdown_state list" where
  "shutdown_states =
     [RUNNING, REQUESTED, FENCING, PROCESS_STOP_SENT, CHILD_DISCOVERY, PROBING,
      VERIFIED, S_PARTIAL, S_UNKNOWN, FAILED]"

definition TERMINAL_STATES :: "shutdown_state list" where
  "TERMINAL_STATES = [VERIFIED, S_PARTIAL, S_UNKNOWN, FAILED]"

definition terminal :: "shutdown_state \<Rightarrow> bool" where
  "terminal s \<longleftrightarrow> s \<in> set TERMINAL_STATES"

lemma terminal_iff: "terminal s \<longleftrightarrow> s = VERIFIED \<or> s = S_PARTIAL \<or> s = S_UNKNOWN \<or> s = FAILED"
  by (simp add: terminal_def TERMINAL_STATES_def)

datatype probe_result = PASS | FAIL | P_PARTIAL | P_UNKNOWN

fun result_value :: "probe_result \<Rightarrow> string" where
  "result_value PASS = ''PASS''"
| "result_value FAIL = ''FAIL''"
| "result_value P_PARTIAL = ''PARTIAL''"
| "result_value P_UNKNOWN = ''UNKNOWN''"

definition probe_results :: "probe_result list" where
  "probe_results = [PASS, FAIL, P_PARTIAL, P_UNKNOWN]"

text \<open>\<open>ProbeResult(text)\<close>: \<^const>\<open>None\<close> where Python raises \<open>ValueError\<close>.\<close>

definition result_of :: "string \<Rightarrow> probe_result option" where
  "result_of s = find (\<lambda>r. result_value r = s) probe_results"

lemma result_of_value [simp]: "result_of (result_value r) = Some r"
  by (cases r) (simp_all add: result_of_def probe_results_def)

lemma result_of_Some: "result_of s = Some r \<longleftrightarrow> s = result_value r"
proof
  assume "result_of s = Some r"
  then show "s = result_value r" by (auto simp: result_of_def find_Some_iff)
qed simp

lemma state_value_inj: "state_value s = state_value t \<longleftrightarrow> s = t"
  by (cases s; cases t) simp_all

definition PROBE_KINDS :: "string list" where
  "PROBE_KINDS = [''process'', ''delegation'', ''kafka'', ''credential'', ''network'']"

lemma PROBE_KINDS_distinct [simp]: "distinct PROBE_KINDS"
  by (simp add: PROBE_KINDS_def)

section \<open>\<open>ProbeObservation\<close>\<close>

record observation =
  obs_kind :: string
  obs_result :: probe_result
  obs_observed :: "json dict"
  obs_authority :: string
  obs_confidence :: string

definition to_dict :: "observation \<Rightarrow> json dict" where
  "to_dict ob =
     [(''kind'', JStr (obs_kind ob)),
      (''result'', JStr (result_value (obs_result ob))),
      (''observed'', JObj (obs_observed ob)),
      (''authority'', JStr (obs_authority ob)),
      (''confidence'', JStr (obs_confidence ob))]"

section \<open>\<open>aggregate_probe_results\<close>\<close>

definition aggregate_probe_results :: "probe_result list \<Rightarrow> shutdown_state" where
  "aggregate_probe_results results =
     (if results = [] then S_UNKNOWN
      else if list_ex (\<lambda>r. r = FAIL) results then FAILED
      else if list_ex (\<lambda>r. r = P_UNKNOWN) results then S_UNKNOWN
      else if list_ex (\<lambda>r. r = P_PARTIAL) results then S_PARTIAL
      else VERIFIED)"

lemma aggregate_terminal: "terminal (aggregate_probe_results rs)"
  by (simp add: aggregate_probe_results_def terminal_iff)

lemma aggregate_verified_iff:
  "aggregate_probe_results rs = VERIFIED \<longleftrightarrow> rs \<noteq> [] \<and> (\<forall>r \<in> set rs. r = PASS)"
proof -
  have "r = PASS \<longleftrightarrow> r \<noteq> FAIL \<and> r \<noteq> P_UNKNOWN \<and> r \<noteq> P_PARTIAL" for r by (cases r) auto
  then show ?thesis by (auto simp: aggregate_probe_results_def list_ex_iff)
qed

text \<open>
  The order of severity behind the aggregation: the terminal state of a non-empty list is the
  state of its worst result.
\<close>

fun severity :: "probe_result \<Rightarrow> nat" where
  "severity PASS = 0"
| "severity P_PARTIAL = 1"
| "severity P_UNKNOWN = 2"
| "severity FAIL = 3"

definition state_of_severity :: "nat \<Rightarrow> shutdown_state" where
  "state_of_severity n =
     (if n = 0 then VERIFIED else if n = 1 then S_PARTIAL else if n = 2 then S_UNKNOWN else FAILED)"

end
