(* ===== verification/Timestamps.thy ===== *)
theory Timestamps
  imports Json Domain
begin

text \<open>
  Points in time. The program keeps every time as the text of
  \<open>datetime.now(UTC).isoformat()\<close> and lets SQLite compare these texts. The model keeps an
  instant, the microseconds since 1970-01-01T00:00:00 UTC, and writes the text where it enters
  a payload or a receipt.
\<close>

type_synonym instant = int

definition us_per_day :: int where
  "us_per_day = 86400000000"

section \<open>The calendar of \<open>datetime\<close>\<close>

text \<open>\<open>_DAYS_BEFORE_MONTH\<close> and \<open>_ord2ymd\<close> of the standard library's \<open>datetime\<close>.\<close>

definition days_before_month :: "int list" where
  "days_before_month = [-1, 0, 31, 59, 90, 120, 151, 181, 212, 243, 273, 304, 334]"

definition days_in_month :: "int list" where
  "days_in_month = [-1, 31, 28, 31, 30, 31, 30, 31, 31, 30, 31, 30, 31]"

definition month_day :: "bool \<Rightarrow> int \<Rightarrow> int \<times> int" where
  "month_day leap n =
     (let m = (n + 50) div 32;
          p = days_before_month ! nat m + (if m > 2 \<and> leap then 1 else 0)
      in if p > n then
           (let m' = m - 1;
                p' = p - (days_in_month ! nat m' + (if m' = 2 \<and> leap then 1 else 0))
            in (m', n - p' + 1))
         else (m, n - p + 1))"

definition ord2ymd :: "int \<Rightarrow> int \<times> int \<times> int" where
  "ord2ymd ordinal =
     (let n = ordinal - 1;
          n400 = n div 146097; n = n mod 146097;
          n100 = n div 36524; n = n mod 36524;
          n4 = n div 1461; n = n mod 1461;
          n1 = n div 365; n = n mod 365;
          year = n400 * 400 + 1 + n100 * 100 + n4 * 4 + n1
      in if n1 = 4 \<or> n100 = 4 then (year - 1, 12, 31)
         else (year, month_day (n1 = 3 \<and> (n4 \<noteq> 24 \<or> n100 = 3)) n))"

section \<open>\<open>isoformat\<close>\<close>

text \<open>A non-negative number in at least \<open>k\<close> digits.\<close>

definition pad_dec :: "nat \<Rightarrow> int \<Rightarrow> string" where
  "pad_dec k i = (let s = nat_dec (nat i) in replicate (k - length s) (CHR ''0'') @ s)"

definition isoformat :: "instant \<Rightarrow> string" where
  "isoformat t =
     (let day = t div us_per_day; us = t mod us_per_day; sec = us div 1000000; frac = us mod 1000000
      in case ord2ymd (719163 + day) of (y, m, d) \<Rightarrow>
         pad_dec 4 y @ ''-'' @ pad_dec 2 m @ ''-'' @ pad_dec 2 d @ ''T'' @
         pad_dec 2 (sec div 3600) @ '':'' @ pad_dec 2 (sec div 60 mod 60) @ '':'' @ pad_dec 2 (sec mod 60) @
         (if frac = 0 then [] else ''.'' @ pad_dec 6 frac) @ ''+00:00'')"

definition iso_json :: "instant \<Rightarrow> json" where
  "iso_json t = JStr (isoformat t)"

section \<open>Adding a \<open>timedelta\<close>\<close>

text \<open>The instants a \<open>datetime\<close> can hold: the years 1 to 9999.\<close>

definition min_instant :: instant where
  "min_instant = -62135596800000000"

definition max_instant :: instant where
  "max_instant = 253402300799999999"

definition plus_us :: "instant \<Rightarrow> int \<Rightarrow> exn + instant" where
  "plus_us t us =
     (if min_instant \<le> t + us \<and> t + us \<le> max_instant then Inr (t + us)
      else Inl (Exn OverflowError ''date value out of range''))"

definition plus_seconds :: "instant \<Rightarrow> int \<Rightarrow> exn + instant" where
  "plus_seconds t s = plus_us t (1000000 * s)"

lemma plus_us_Inr: "plus_us t us = Inr u \<Longrightarrow> u = t + us"
  by (auto simp: plus_us_def split: if_splits)

end
