(* ===== verification/Store.thy ===== *)
theory Store
  imports Timestamps
begin

text \<open>
  \<open>asv/store.py\<close>: the tables of the schema, one record per row and one list per table in
  the order of insertion, with the statements that insert into them and their constraints.
  JSON columns hold the text that is written; \<open>Store.row\<close> decodes it. Times are instants
  (theory Timestamps), and the columns that only ever hold the value of an enumeration hold
  that enumeration.
\<close>

section \<open>Rows\<close>

record 'j agent_row =
  ag_agent_id :: string
  ag_tenant_id :: string
  ag_name :: string
  ag_image_digest :: string
  ag_namespace :: string
  ag_scope_owner :: string
  ag_declared_scope :: 'j
  ag_status :: string
  ag_created_at :: instant

record run_row =
  rn_run_id :: string
  rn_tenant_id :: string
  rn_agent_id :: string
  rn_parent_run_id :: "string option"
  rn_identity_ref :: string
  rn_started_at :: instant
  rn_stopped_at :: "instant option"
  rn_state :: shutdown_state
  rn_correlation_id :: string
  rn_policy_version :: int
  rn_shutdown_requested_at :: "instant option"
  rn_deadline_at :: "instant option"
  rn_shutdown_idempotency_key :: "string option"

record 'j probe_row =
  pb_probe_id :: string
  pb_tenant_id :: string
  pb_run_id :: string
  pb_kind :: string
  pb_target :: string
  pb_requested_at :: instant
  pb_completed_at :: instant
  pb_result :: probe_result
  pb_observed :: 'j
  pb_authority :: string
  pb_confidence :: string

datatype job_state = J_ACTIVE | J_INACTIVE | J_UNKNOWN

record job_row =
  jb_job_id :: string
  jb_tenant_id :: string
  jb_run_id :: string
  jb_system :: string
  jb_external_id :: string
  jb_state :: job_state
  jb_discovered_at :: instant

record 'j evidence_row =
  ev_evidence_id :: string
  ev_tenant_id :: string
  ev_run_id :: string
  ev_sequence_no :: int
  ev_event_type :: string
  ev_payload :: 'j
  ev_payload_hash :: string
  ev_previous_hash :: string
  ev_observed_at :: instant
  ev_actor :: string
  ev_policy_version :: int
  ev_correlation_id :: string

datatype outbox_status = O_PENDING | O_DELIVERED | O_DEAD_LETTER

record outbox_row =
  ob_event_id :: string
  ob_tenant_id :: string
  ob_run_id :: string
  ob_payload :: string
  ob_status :: outbox_status
  ob_attempts :: int
  ob_last_error :: "string option"
  ob_created_at :: instant
  ob_delivered_at :: "instant option"

record delivery_row =
  dl_event_id :: string
  dl_next_attempt_at :: "instant option"
  dl_dead_lettered_at :: "instant option"

record retry_row =
  rc_event_id :: string
  rc_attempts_baseline :: int

record report_row =
  rp_run_id :: string
  rp_tenant_id :: string
  rp_generated_at :: instant
  rp_payload :: string
  rp_signature :: string

datatype drill_status = D_PENDING_APPROVAL | D_APPROVED | D_STARTED | D_FAILED | D_REJECTED

record 'j drill_row =
  dr_drill_id :: string
  dr_tenant_id :: string
  dr_agent_id :: string
  dr_requested_by :: string
  dr_requested_at :: instant
  dr_approved_by :: "string option"
  dr_approved_at :: "instant option"
  dr_rejected_by :: "string option"
  dr_rejected_at :: "instant option"
  dr_rejection_reason :: "string option"
  dr_status :: drill_status
  dr_request_payload :: 'j
  dr_run_id :: "string option"

datatype work_status = W_PENDING | W_RUNNING | W_COMPLETE

record work_row =
  wk_run_id :: string
  wk_tenant_id :: string
  wk_status :: work_status
  wk_attempts :: int
  wk_lease_owner :: "string option"
  wk_lease_expires_at :: "instant option"
  wk_last_error :: "string option"
  wk_updated_at :: instant

text \<open>
  The database. SQLite enforces the foreign keys of a connection only after
  \<open>PRAGMA foreign_keys = ON\<close> on that connection: the flag tells whether the connection
  in use is the one that ran the schema script.
\<close>

record db =
  foreign_keys :: bool
  agents :: "string agent_row list"
  runs :: "run_row list"
  probes :: "string probe_row list"
  delegated_jobs :: "job_row list"
  evidences :: "string evidence_row list"
  event_outbox :: "outbox_row list"
  event_delivery_state :: "delivery_row list"
  event_retry_cycle :: "retry_row list"
  reports :: "report_row list"
  drills :: "string drill_row list"
  shutdown_works :: "work_row list"

text \<open>
  \<open>Store.__init__\<close>: a memory database keeps the one connection that ran the schema; a
  file database opens a new one for every later statement.
\<close>

definition new_store :: "string \<Rightarrow> db" where
  "new_store database =
     \<lparr>foreign_keys = (database = '':memory:''), agents = [], runs = [], probes = [], delegated_jobs = [],
      evidences = [], event_outbox = [], event_delivery_state = [], event_retry_cycle = [],
      reports = [], drills = [], shutdown_works = []\<rparr>"

section \<open>Statements\<close>

text \<open>The constraints of an insert, in order: the first one violated is reported.\<close>

fun guarded :: "(bool \<times> string) list \<Rightarrow> 'a \<Rightarrow> exn + 'a" where
  "guarded [] x = Inr x"
| "guarded ((b, m) # cs) x = (if b then Inl (Exn IntegrityError m) else guarded cs x)"

lemma guarded_Inr: "guarded cs x = Inr y \<longleftrightarrow> y = x \<and> (\<forall>(b, m) \<in> set cs. \<not> b)"
  by (induction cs) (auto split: if_splits)

lemma guarded_Inl: "guarded cs x = Inl e \<Longrightarrow> exn_class e = IntegrityError"
  by (induction cs) (auto split: if_splits)

definition fk_message :: string where
  "fk_message = ''FOREIGN KEY constraint failed''"

definition has_run :: "string \<Rightarrow> db \<Rightarrow> bool" where
  "has_run r d \<longleftrightarrow> (\<exists>x \<in> set (runs d). rn_run_id x = r)"

definition has_event :: "string \<Rightarrow> db \<Rightarrow> bool" where
  "has_event e d \<longleftrightarrow> (\<exists>x \<in> set (event_outbox d). ob_event_id x = e)"

definition insert_agent :: "string agent_row \<Rightarrow> db \<Rightarrow> exn + db" where
  "insert_agent r d = guarded
     [(\<exists>x \<in> set (agents d). ag_agent_id x = ag_agent_id r, ''UNIQUE constraint failed: agent.agent_id'')]
     (d\<lparr>agents := agents d @ [r]\<rparr>)"

definition insert_run :: "run_row \<Rightarrow> db \<Rightarrow> exn + db" where
  "insert_run r d = guarded
     [(has_run (rn_run_id r) d, ''UNIQUE constraint failed: run.run_id''),
      (\<exists>x \<in> set (runs d). rn_correlation_id x = rn_correlation_id r,
         ''UNIQUE constraint failed: run.correlation_id''),
      (foreign_keys d \<and>
         (\<not> (\<exists>x \<in> set (agents d). ag_agent_id x = rn_agent_id r) \<or>
          (case rn_parent_run_id r of None \<Rightarrow> False | Some p \<Rightarrow> p \<noteq> rn_run_id r \<and> \<not> has_run p d)),
         fk_message)]
     (d\<lparr>runs := runs d @ [r]\<rparr>)"

definition insert_probe :: "string probe_row \<Rightarrow> db \<Rightarrow> exn + db" where
  "insert_probe r d = guarded
     [(\<exists>x \<in> set (probes d). pb_probe_id x = pb_probe_id r, ''UNIQUE constraint failed: probe.probe_id''),
      (foreign_keys d \<and> \<not> has_run (pb_run_id r) d, fk_message)]
     (d\<lparr>probes := probes d @ [r]\<rparr>)"

definition insert_evidence :: "string evidence_row \<Rightarrow> db \<Rightarrow> exn + db" where
  "insert_evidence r d = guarded
     [(\<exists>x \<in> set (evidences d). ev_evidence_id x = ev_evidence_id r,
         ''UNIQUE constraint failed: evidence.evidence_id''),
      (\<exists>x \<in> set (evidences d). ev_run_id x = ev_run_id r \<and> ev_sequence_no x = ev_sequence_no r,
         ''UNIQUE constraint failed: evidence.run_id, evidence.sequence_no''),
      (foreign_keys d \<and> \<not> has_run (ev_run_id r) d, fk_message)]
     (d\<lparr>evidences := evidences d @ [r]\<rparr>)"

definition insert_outbox :: "outbox_row \<Rightarrow> db \<Rightarrow> exn + db" where
  "insert_outbox r d = guarded
     [(has_event (ob_event_id r) d, ''UNIQUE constraint failed: event_outbox.event_id'')]
     (d\<lparr>event_outbox := event_outbox d @ [r]\<rparr>)"

definition insert_report :: "report_row \<Rightarrow> db \<Rightarrow> exn + db" where
  "insert_report r d = guarded
     [(\<exists>x \<in> set (reports d). rp_run_id x = rp_run_id r, ''UNIQUE constraint failed: report.run_id'')]
     (d\<lparr>reports := reports d @ [r]\<rparr>)"

definition insert_drill :: "string drill_row \<Rightarrow> db \<Rightarrow> exn + db" where
  "insert_drill r d = guarded
     [(\<exists>x \<in> set (drills d). dr_drill_id x = dr_drill_id r, ''UNIQUE constraint failed: drill.drill_id'')]
     (d\<lparr>drills := drills d @ [r]\<rparr>)"

text \<open>When an insert goes through, and what it leaves.\<close>

lemma insert_agent_Inr:
  "insert_agent r d = Inr d' \<longleftrightarrow>
     d' = d\<lparr>agents := agents d @ [r]\<rparr> \<and> (\<forall>x \<in> set (agents d). ag_agent_id x \<noteq> ag_agent_id r)"
  by (auto simp: insert_agent_def guarded_Inr)

lemma insert_run_Inr:
  "insert_run r d = Inr d' \<longleftrightarrow>
     d' = d\<lparr>runs := runs d @ [r]\<rparr> \<and> \<not> has_run (rn_run_id r) d \<and>
     (\<forall>x \<in> set (runs d). rn_correlation_id x \<noteq> rn_correlation_id r) \<and>
     (foreign_keys d \<longrightarrow>
        (\<exists>x \<in> set (agents d). ag_agent_id x = rn_agent_id r) \<and>
        (case rn_parent_run_id r of None \<Rightarrow> True | Some p \<Rightarrow> p = rn_run_id r \<or> has_run p d))"
  by (auto simp: insert_run_def guarded_Inr split: option.splits)

lemma insert_probe_Inr:
  "insert_probe r d = Inr d' \<longleftrightarrow>
     d' = d\<lparr>probes := probes d @ [r]\<rparr> \<and> (\<forall>x \<in> set (probes d). pb_probe_id x \<noteq> pb_probe_id r) \<and>
     (foreign_keys d \<longrightarrow> has_run (pb_run_id r) d)"
  by (auto simp: insert_probe_def guarded_Inr)

lemma insert_evidence_Inr:
  "insert_evidence r d = Inr d' \<longleftrightarrow>
     d' = d\<lparr>evidences := evidences d @ [r]\<rparr> \<and>
     (\<forall>x \<in> set (evidences d). ev_evidence_id x \<noteq> ev_evidence_id r) \<and>
     (\<forall>x \<in> set (evidences d). ev_run_id x = ev_run_id r \<longrightarrow> ev_sequence_no x \<noteq> ev_sequence_no r) \<and>
     (foreign_keys d \<longrightarrow> has_run (ev_run_id r) d)"
  by (auto simp: insert_evidence_def guarded_Inr)

lemma insert_outbox_Inr:
  "insert_outbox r d = Inr d' \<longleftrightarrow>
     d' = d\<lparr>event_outbox := event_outbox d @ [r]\<rparr> \<and> \<not> has_event (ob_event_id r) d"
  by (auto simp: insert_outbox_def guarded_Inr)

lemma insert_report_Inr:
  "insert_report r d = Inr d' \<longleftrightarrow>
     d' = d\<lparr>reports := reports d @ [r]\<rparr> \<and> (\<forall>x \<in> set (reports d). rp_run_id x \<noteq> rp_run_id r)"
  by (auto simp: insert_report_def guarded_Inr)

lemma insert_drill_Inr:
  "insert_drill r d = Inr d' \<longleftrightarrow>
     d' = d\<lparr>drills := drills d @ [r]\<rparr> \<and> (\<forall>x \<in> set (drills d). dr_drill_id x \<noteq> dr_drill_id r)"
  by (auto simp: insert_drill_def guarded_Inr)

lemmas insert_Inr = insert_agent_Inr insert_run_Inr insert_probe_Inr insert_evidence_Inr
  insert_outbox_Inr insert_report_Inr insert_drill_Inr

text \<open>\<open>UPDATE t SET ... WHERE ...\<close>.\<close>

definition sql_update :: "('r \<Rightarrow> bool) \<Rightarrow> ('r \<Rightarrow> 'r) \<Rightarrow> 'r list \<Rightarrow> 'r list" where
  "sql_update P f rows = map (\<lambda>r. if P r then f r else r) rows"

text \<open>\<open>INSERT ... ON CONFLICT(key) DO UPDATE\<close>: the row with this key is updated, or a new one added.\<close>

definition sql_upsert :: "('r \<Rightarrow> bool) \<Rightarrow> ('r \<Rightarrow> 'r) \<Rightarrow> 'r \<Rightarrow> 'r list \<Rightarrow> 'r list" where
  "sql_upsert P f new rows = (if list_ex P rows then sql_update P f rows else rows @ [new])"

lemma set_sql_update: "set (sql_update P f rows) = (\<lambda>r. if P r then f r else r) ` set rows"
  by (simp add: sql_update_def)

lemma sql_update_key:
  "(\<And>r. key (f r) = key r) \<Longrightarrow> map key (sql_update P f rows) = map key rows"
  by (simp add: sql_update_def)

lemma sql_update_none: "\<forall>r \<in> set rows. \<not> P r \<Longrightarrow> sql_update P f rows = rows"
  by (simp add: sql_update_def map_idI)

lemma filter_sql_update:
  "(\<And>r. Q (f r) = Q r) \<Longrightarrow> filter Q (sql_update P f rows) = sql_update P f (filter Q rows)"
  by (induction rows) (auto simp: sql_update_def)

lemma in_sql_updateE:
  assumes "r \<in> set (sql_update P f rows)"
  obtains s where "s \<in> set rows" "r = (if P s then f s else s)"
  using assms by (auto simp: set_sql_update)

end
