(* ===== verification/Effects.thy ===== *)
theory Effects
  imports Store
begin

text \<open>
  What an operation of the control plane may do: read and write the database in transactions
  (\<open>Store.connection\<close>), read the clock (\<open>utc_now\<close>), draw a UUID, call out over HTTP, start
  a thread, raise. An operation is a function of the world that returns an exception or a
  value, and the world afterwards; an exception leaves the effects before it in place, except
  that a transaction it leaves is rolled back.

  The second half is a small program logic for these functions: preconditions and two
  postconditions, for the normal and for the exceptional exit.
\<close>

section \<open>The world\<close>

record http_request =
  rq_method :: string
  rq_url :: string
  rq_headers :: "(string \<times> string) list"
  rq_body :: "json option"

record http_result =
  hr_status :: int
  hr_body :: json

text \<open>
  The outside: the requests sent so far, and how the outside answers the next one, which may
  depend on all earlier requests (\<open>Inl\<close>: the transport raises).
\<close>

record ext =
  ex_log :: "http_request list"
  ex_reply :: "http_request list \<Rightarrow> http_request \<Rightarrow> exn + http_result"

type_synonym 'a ext_m = "ext \<Rightarrow> (exn + 'a) \<times> ext"

text \<open>
  Code that only talks to the outside. \<open>urlopen\<close> sends one request: it is logged, and the
  answer is the status and the decoded body, or the exception of the transport.
\<close>

definition ext_ret :: "'a \<Rightarrow> 'a ext_m" where
  "ext_ret v x = (Inr v, x)"

definition ext_throw :: "exn \<Rightarrow> 'a ext_m" where
  "ext_throw e x = (Inl e, x)"

definition ext_bnd :: "'a ext_m \<Rightarrow> ('a \<Rightarrow> 'b ext_m) \<Rightarrow> 'b ext_m" where
  "ext_bnd m f x = (case m x of (Inl e, x') \<Rightarrow> (Inl e, x') | (Inr v, x') \<Rightarrow> f v x')"

definition ext_catch :: "'a ext_m \<Rightarrow> (exn \<Rightarrow> 'a ext_m) \<Rightarrow> 'a ext_m" where
  "ext_catch m h x = (case m x of (Inl e, x') \<Rightarrow> h e x' | (Inr v, x') \<Rightarrow> (Inr v, x'))"

definition urlopen :: "http_request \<Rightarrow> http_result ext_m" where
  "urlopen rq x = (ex_reply x (ex_log x) rq, x\<lparr>ex_log := ex_log x @ [rq]\<rparr>)"

text \<open>
  The adapter a thread was started with: the configured one, or the synthetic adapter of a
  drill with its outcomes.
\<close>

datatype adapter_ref = ConfiguredAdapter | SyntheticOutcomes "probe_result dict"

record thread =
  th_tenant_id :: string
  th_run_id :: string
  th_actor :: string
  th_adapter :: adapter_ref
  th_recovering :: bool
  th_lease_owner :: "string option"

text \<open>
  \<open>w_clock n\<close> is the \<open>n\<close>-th reading of the clock and \<open>w_uuid_src n\<close> the \<open>n\<close>-th UUID:
  nothing is assumed about either unless a theorem says so. \<open>w_threads\<close> holds the threads
  started and not yet run.
\<close>

record world =
  w_db :: db
  w_clock :: "nat \<Rightarrow> instant"
  w_ticks :: nat
  w_uuid_src :: "nat \<Rightarrow> string"
  w_uuids :: nat
  w_ext :: ext
  w_threads :: "thread list"

type_synonym 'a m = "world \<Rightarrow> (exn + 'a) \<times> world"

section \<open>Operations of the monad\<close>

definition ret :: "'a \<Rightarrow> 'a m" where
  "ret x w = (Inr x, w)"

definition throw :: "exn \<Rightarrow> 'a m" where
  "throw e w = (Inl e, w)"

definition bnd :: "'a m \<Rightarrow> ('a \<Rightarrow> 'b m) \<Rightarrow> 'b m" where
  "bnd m f w = (case m w of (Inl e, w') \<Rightarrow> (Inl e, w') | (Inr x, w') \<Rightarrow> f x w')"

text \<open>One statement after another, as \<open>;\<close>.\<close>

definition seq :: "unit m \<Rightarrow> 'b m \<Rightarrow> 'b m" where
  "seq m k = bnd m (\<lambda>_. k)"

text \<open>\<open>try: m  except Exception as e: h(e)\<close>.\<close>

definition catch :: "'a m \<Rightarrow> (exn \<Rightarrow> 'a m) \<Rightarrow> 'a m" where
  "catch m h w = (case m w of (Inl e, w') \<Rightarrow> h e w' | (Inr x, w') \<Rightarrow> (Inr x, w'))"

text \<open>\<open>with self.store.connection() as connection: m\<close>: commit, or roll back and re-raise.\<close>

definition transaction :: "'a m \<Rightarrow> 'a m" where
  "transaction m w =
     (case m w of
        (Inl e, w') \<Rightarrow> (Inl e, w'\<lparr>w_db := w_db w\<rparr>)
      | (Inr x, w') \<Rightarrow> (Inr x, w'))"

text \<open>A statement that reads, one that writes, and one that may violate a constraint.\<close>

definition query :: "(db \<Rightarrow> 'a) \<Rightarrow> 'a m" where
  "query q w = (Inr (q (w_db w)), w)"

definition exec :: "(db \<Rightarrow> db) \<Rightarrow> unit m" where
  "exec f w = (Inr (), w\<lparr>w_db := f (w_db w)\<rparr>)"

definition exec_checked :: "(db \<Rightarrow> exn + db) \<Rightarrow> unit m" where
  "exec_checked f w =
     (case f (w_db w) of Inl e \<Rightarrow> (Inl e, w) | Inr d \<Rightarrow> (Inr (), w\<lparr>w_db := d\<rparr>))"

definition utc_now :: "instant m" where
  "utc_now w = (Inr (w_clock w (w_ticks w)), w\<lparr>w_ticks := Suc (w_ticks w)\<rparr>)"

definition uuid4 :: "string m" where
  "uuid4 w = (Inr (w_uuid_src w (w_uuids w)), w\<lparr>w_uuids := Suc (w_uuids w)\<rparr>)"

definition lift_ext :: "'a ext_m \<Rightarrow> 'a m" where
  "lift_ext f w = (case f (w_ext w) of (r, x) \<Rightarrow> (r, w\<lparr>w_ext := x\<rparr>))"

definition start_thread :: "thread \<Rightarrow> unit m" where
  "start_thread t w = (Inr (), w\<lparr>w_threads := w_threads w @ [t]\<rparr>)"

text \<open>A value or an exception computed without effects.\<close>

definition lift :: "exn + 'a \<Rightarrow> 'a m" where
  "lift r w = (r, w)"

fun for_each :: "'a list \<Rightarrow> ('a \<Rightarrow> unit m) \<Rightarrow> unit m" where
  "for_each [] f = ret ()"
| "for_each (x # xs) f = seq (f x) (for_each xs f)"

lemmas m_defs = ret_def throw_def bnd_def seq_def catch_def transaction_def query_def exec_def
  exec_checked_def utc_now_def uuid4_def lift_ext_def start_thread_def lift_def

text \<open>Running an operation in a world, step by step.\<close>

lemma m_exec:
  "ret x w = (Inr x, w)"
  "throw e w = (Inl e, w)"
  "query q w = (Inr (q (w_db w)), w)"
  "exec f w = (Inr (), w\<lparr>w_db := f (w_db w)\<rparr>)"
  "bnd (ret x) g w = g x w"
  "bnd (throw e) g w = (Inl e, w)"
  "bnd (query q) g3 w = g3 (q (w_db w)) w"
  "bnd utc_now g1 w = g1 (w_clock w (w_ticks w)) (w\<lparr>w_ticks := Suc (w_ticks w)\<rparr>)"
  "bnd uuid4 g2 w = g2 (w_uuid_src w (w_uuids w)) (w\<lparr>w_uuids := Suc (w_uuids w)\<rparr>)"
  "bnd (lift r) g5 w = (case r of Inl e \<Rightarrow> (Inl e, w) | Inr x \<Rightarrow> g5 x w)"
  "bnd (lift_ext f2) g4 w =
     (case f2 (w_ext w) of (Inl e, x) \<Rightarrow> (Inl e, w\<lparr>w_ext := x\<rparr>) | (Inr v, x) \<Rightarrow> g4 v (w\<lparr>w_ext := x\<rparr>))"
  "seq (exec f) k w = k (w\<lparr>w_db := f (w_db w)\<rparr>)"
  "seq (exec_checked h) k w =
     (case h (w_db w) of Inl e \<Rightarrow> (Inl e, w) | Inr d \<Rightarrow> k (w\<lparr>w_db := d\<rparr>))"
  "seq (ret u) k w = k w"
  "seq (start_thread t) k w = k (w\<lparr>w_threads := w_threads w @ [t]\<rparr>)"
  by (auto simp: m_defs split: sum.splits prod.splits)

lemma transaction_pair:
  "m w = (Inr x, w') \<Longrightarrow> transaction m w = (Inr x, w')"
  "m w = (Inl e, w') \<Longrightarrow> transaction m w = (Inl e, w'\<lparr>w_db := w_db w\<rparr>)"
  by (simp_all add: transaction_def)

lemma transaction_Inr: "transaction m w = (Inr x, w') \<longleftrightarrow> m w = (Inr x, w')"
  by (auto simp: transaction_def split: prod.splits sum.splits)

lemma transaction_Inl: "transaction m w = (Inl e, w') \<Longrightarrow> w_db w' = w_db w"
  by (auto simp: transaction_def split: prod.splits sum.splits)

lemma bnd_Inr:
  "bnd m f w = (Inr y, w'') \<longleftrightarrow> (\<exists>x w'. m w = (Inr x, w') \<and> f x w' = (Inr y, w''))"
  by (auto simp: bnd_def split: prod.splits sum.splits)

lemma bnd_Inl:
  "bnd m f w = (Inl e, w'') \<longleftrightarrow>
     m w = (Inl e, w'') \<or> (\<exists>x w'. m w = (Inr x, w') \<and> f x w' = (Inl e, w''))"
  by (auto simp: bnd_def split: prod.splits sum.splits)

section \<open>Triples\<close>

text \<open>
  \<open>hoare P m Q E\<close>: from a world with \<open>P\<close>, a normal exit with \<open>x\<close> reaches a world with
  \<open>Q x\<close> and an exceptional one with \<open>e\<close> a world with \<open>E e\<close>. All operations are total, so
  partial and total correctness coincide.
\<close>

definition hoare :: "(world \<Rightarrow> bool) \<Rightarrow> 'a m \<Rightarrow> ('a \<Rightarrow> world \<Rightarrow> bool) \<Rightarrow> (exn \<Rightarrow> world \<Rightarrow> bool) \<Rightarrow> bool" where
  "hoare P m Q E \<longleftrightarrow>
     (\<forall>w. P w \<longrightarrow> (case m w of (Inl e, w') \<Rightarrow> E e w' | (Inr x, w') \<Rightarrow> Q x w'))"

named_theorems hoare_rules "syntax-directed rules for triples"

lemma hoareI:
  "(\<And>w e w'. P w \<Longrightarrow> m w = (Inl e, w') \<Longrightarrow> E e w') \<Longrightarrow>
   (\<And>w x w'. P w \<Longrightarrow> m w = (Inr x, w') \<Longrightarrow> Q x w') \<Longrightarrow> hoare P m Q E"
  by (auto simp: hoare_def split: prod.splits sum.splits)

lemma hoareD_Inr: "hoare P m Q E \<Longrightarrow> P w \<Longrightarrow> m w = (Inr x, w') \<Longrightarrow> Q x w'"
  by (force simp: hoare_def)

lemma hoareD_Inl: "hoare P m Q E \<Longrightarrow> P w \<Longrightarrow> m w = (Inl e, w') \<Longrightarrow> E e w'"
  by (force simp: hoare_def)

lemma hoare_total: "hoare P m Q (\<lambda>_ _. False) \<Longrightarrow> P w \<Longrightarrow> \<exists>x w'. m w = (Inr x, w') \<and> Q x w'"
  by (cases "m w"; cases "fst (m w)") (auto dest: hoareD_Inr hoareD_Inl)

lemma hoare_weaken:
  assumes "hoare P m Q E" and "\<And>w. P' w \<Longrightarrow> P w"
    and "\<And>x w. Q x w \<Longrightarrow> Q' x w" and "\<And>e w. E e w \<Longrightarrow> E' e w"
  shows "hoare P' m Q' E'"
  using assms unfolding hoare_def by (fastforce split: prod.splits sum.splits)

lemma hoare_fact: "(b \<Longrightarrow> hoare P m Q E) \<Longrightarrow> hoare (\<lambda>w. P w \<and> b) m Q E"
  by (auto simp: hoare_def)

lemma hoare_pre: "hoare P m Q E \<Longrightarrow> (\<And>w. P' w \<Longrightarrow> P w) \<Longrightarrow> hoare P' m Q E"
  by (rule hoare_weaken)

lemma hoare_ret [hoare_rules]: "hoare (Q x) (ret x) Q E"
  by (simp add: hoare_def ret_def)

lemma hoare_throw [hoare_rules]: "hoare (E e) (throw e) Q E"
  by (simp add: hoare_def throw_def)

lemma hoare_bnd [hoare_rules]:
  "(\<And>x. hoare (R x) (f x) Q E) \<Longrightarrow> hoare P m R E \<Longrightarrow> hoare P (bnd m f) Q E"
  unfolding hoare_def bnd_def by (fastforce split: prod.splits sum.splits)

lemma hoare_seq [hoare_rules]:
  "hoare R k Q E \<Longrightarrow> hoare P m (\<lambda>_. R) E \<Longrightarrow> hoare P (seq m k) Q E"
  unfolding seq_def by (rule hoare_bnd)

lemma hoare_catch [hoare_rules]:
  "(\<And>e. hoare (E' e) (h e) Q E) \<Longrightarrow> hoare P m Q E' \<Longrightarrow> hoare P (catch m h) Q E"
  unfolding hoare_def catch_def by (fastforce split: prod.splits sum.splits)

lemma hoare_if [hoare_rules]:
  "hoare P m Q E \<Longrightarrow> hoare P' m' Q E \<Longrightarrow>
     hoare (\<lambda>w. (b \<longrightarrow> P w) \<and> (\<not> b \<longrightarrow> P' w)) (if b then m else m') Q E"
  by (simp add: hoare_def)

lemma hoare_query [hoare_rules]: "hoare (\<lambda>w. Q (q (w_db w)) w) (query q) Q E"
  by (simp add: hoare_def query_def)

lemma hoare_exec [hoare_rules]: "hoare (\<lambda>w. Q () (w\<lparr>w_db := f (w_db w)\<rparr>)) (exec f) Q E"
  by (simp add: hoare_def exec_def)

lemma hoare_exec_checked [hoare_rules]:
  "hoare (\<lambda>w. (\<forall>e. f (w_db w) = Inl e \<longrightarrow> E e w) \<and> (\<forall>d. f (w_db w) = Inr d \<longrightarrow> Q () (w\<lparr>w_db := d\<rparr>)))
     (exec_checked f) Q E"
  by (auto simp: hoare_def exec_checked_def split: sum.splits)

lemma hoare_utc_now [hoare_rules]:
  "hoare (\<lambda>w. Q (w_clock w (w_ticks w)) (w\<lparr>w_ticks := Suc (w_ticks w)\<rparr>)) utc_now Q E"
  by (simp add: hoare_def utc_now_def)

lemma hoare_uuid4 [hoare_rules]:
  "hoare (\<lambda>w. Q (w_uuid_src w (w_uuids w)) (w\<lparr>w_uuids := Suc (w_uuids w)\<rparr>)) uuid4 Q E"
  by (simp add: hoare_def uuid4_def)

lemma hoare_start_thread [hoare_rules]:
  "hoare (\<lambda>w. Q () (w\<lparr>w_threads := w_threads w @ [t]\<rparr>)) (start_thread t) Q E"
  by (simp add: hoare_def start_thread_def)

lemma hoare_lift [hoare_rules]:
  "hoare (\<lambda>w. (\<forall>e. r = Inl e \<longrightarrow> E e w) \<and> (\<forall>x. r = Inr x \<longrightarrow> Q x w)) (lift r) Q E"
  by (auto simp: hoare_def lift_def split: sum.splits)

lemma hoare_lift_ext [hoare_rules]:
  "hoare (\<lambda>w. \<forall>r x. (\<forall>e. r = Inl e \<longrightarrow> E e (w\<lparr>w_ext := x\<rparr>)) \<and> (\<forall>v. r = Inr v \<longrightarrow> Q v (w\<lparr>w_ext := x\<rparr>)))
     (lift_ext f) Q E"
  by (auto simp: hoare_def lift_ext_def split: prod.splits sum.splits)

text \<open>
  Assertions that ignore the clock, the counters and the outside: over the database and the
  queued threads.
\<close>

type_synonym assertion = "db \<Rightarrow> thread list \<Rightarrow> bool"

abbreviation on :: "assertion \<Rightarrow> world \<Rightarrow> bool" where
  "on V w \<equiv> V (w_db w) (w_threads w)"

abbreviation db_only :: "(db \<Rightarrow> bool) \<Rightarrow> assertion" where
  "db_only I \<equiv> \<lambda>d ts. I d"

text \<open>An operation keeps an assertion, whichever way it ends.\<close>

definition keeps :: "assertion \<Rightarrow> 'a m \<Rightarrow> bool" where
  "keeps V m \<longleftrightarrow> hoare (on V) m (\<lambda>_. on V) (\<lambda>_. on V)"

text \<open>It starts no thread.\<close>

definition quiet :: "'a m \<Rightarrow> bool" where
  "quiet m \<longleftrightarrow> (\<forall>w. w_threads (snd (m w)) = w_threads w)"

named_theorems keeps_rules "preservation rules"

lemma keeps_iff: "keeps V m \<longleftrightarrow> (\<forall>w. on V w \<longrightarrow> on V (snd (m w)))"
proof -
  have "(case r of Inl _ \<Rightarrow> b | Inr _ \<Rightarrow> b) = b" for r :: "exn + 'b" and b :: bool
    by (cases r) simp_all
  then show ?thesis by (simp add: keeps_def hoare_def case_prod_beta)
qed

lemma keepsD: "keeps V m \<Longrightarrow> on V w \<Longrightarrow> on V (snd (m w))"
  by (simp add: keeps_iff)

lemma keeps_ret [keeps_rules]: "keeps V (ret x)"
  by (simp add: keeps_iff ret_def)

lemma keeps_throw [keeps_rules]: "keeps V (throw e)"
  by (simp add: keeps_iff throw_def)

lemma keeps_bnd [keeps_rules]: "keeps V m \<Longrightarrow> (\<And>x. keeps V (f x)) \<Longrightarrow> keeps V (bnd m f)"
  unfolding keeps_def by (rule hoare_bnd)

lemma keeps_seq [keeps_rules]: "keeps V m \<Longrightarrow> keeps V k \<Longrightarrow> keeps V (seq m k)"
  unfolding seq_def by (rule keeps_bnd)

lemma keeps_catch [keeps_rules]: "keeps V m \<Longrightarrow> (\<And>e. keeps V (h e)) \<Longrightarrow> keeps V (catch m h)"
  unfolding keeps_def by (rule hoare_catch)

lemma keeps_if [keeps_rules]: "(b \<Longrightarrow> keeps V m) \<Longrightarrow> (\<not> b \<Longrightarrow> keeps V n) \<Longrightarrow> keeps V (if b then m else n)"
  by simp

lemma keeps_query [keeps_rules]: "keeps V (query q)"
  by (simp add: keeps_iff query_def)

lemma keeps_utc_now [keeps_rules]: "keeps V utc_now"
  by (simp add: keeps_iff utc_now_def)

lemma keeps_uuid4 [keeps_rules]: "keeps V uuid4"
  by (simp add: keeps_iff uuid4_def)

lemma keeps_lift [keeps_rules]: "keeps V (lift r)"
  by (simp add: keeps_iff lift_def)

lemma keeps_lift_ext [keeps_rules]: "keeps V (lift_ext f)"
  by (simp add: keeps_iff lift_ext_def split: prod.splits)

lemma keeps_start_thread: "(\<And>d ts. V d ts \<Longrightarrow> V d (ts @ [t])) \<Longrightarrow> keeps V (start_thread t)"
  by (simp add: keeps_iff start_thread_def)

lemma keeps_exec: "(\<And>d ts. V d ts \<Longrightarrow> V (f d) ts) \<Longrightarrow> keeps V (exec f)"
  by (simp add: keeps_iff exec_def)

lemma keeps_exec_checked: "(\<And>d d' ts. V d ts \<Longrightarrow> f d = Inr d' \<Longrightarrow> V d' ts) \<Longrightarrow> keeps V (exec_checked f)"
  by (auto simp: keeps_iff exec_checked_def split: sum.splits)

lemma hoare_checked:
  "(\<And>d d' ts. V d ts \<Longrightarrow> f d = Inr d' \<Longrightarrow> U d' ts) \<Longrightarrow>
     hoare (on V) (exec_checked f) (\<lambda>_. on U) (\<lambda>_. on V)"
  by (auto simp: hoare_def exec_checked_def split: sum.splits)

lemma keeps_for_each [keeps_rules]: "(\<And>x. x \<in> set xs \<Longrightarrow> keeps V (f x)) \<Longrightarrow> keeps V (for_each xs f)"
  by (induction xs) (auto intro!: keeps_rules)

lemma keeps_case_option [keeps_rules]:
  "(x = None \<Longrightarrow> keeps V m) \<Longrightarrow> (\<And>y. x = Some y \<Longrightarrow> keeps V (f y)) \<Longrightarrow>
     keeps V (case x of None \<Rightarrow> m | Some y \<Rightarrow> f y)"
  by (cases x) auto

lemma keeps_case_prod [keeps_rules]:
  "(\<And>a b. x = (a, b) \<Longrightarrow> keeps V (f a b)) \<Longrightarrow> keeps V (case x of (a, b) \<Rightarrow> f a b)"
  by (cases x) auto

lemma keeps_case_sum [keeps_rules]:
  "(\<And>a. x = Inl a \<Longrightarrow> keeps V (f a)) \<Longrightarrow> (\<And>b. x = Inr b \<Longrightarrow> keeps V (g b)) \<Longrightarrow>
     keeps V (case x of Inl a \<Rightarrow> f a | Inr b \<Rightarrow> g b)"
  by (cases x) auto

lemma keeps_case_json [keeps_rules]:
  "keeps V a \<Longrightarrow> (\<And>x. keeps V (b x)) \<Longrightarrow> (\<And>x. keeps V (c x)) \<Longrightarrow> (\<And>x. keeps V (f x)) \<Longrightarrow>
     (\<And>x. keeps V (g x)) \<Longrightarrow> (\<And>x. keeps V (h x)) \<Longrightarrow>
     keeps V (case v of JNull \<Rightarrow> a | JBool x \<Rightarrow> b x | JInt x \<Rightarrow> c x | JStr x \<Rightarrow> f x | JArr x \<Rightarrow> g x | JObj x \<Rightarrow> h x)"
  by (cases v) auto

lemma keeps_let [keeps_rules]: "keeps V (f x) \<Longrightarrow> keeps V (Let x f)"
  by (simp add: Let_def)

lemma keeps_conj: "keeps V m \<Longrightarrow> keeps U m \<Longrightarrow> keeps (\<lambda>d ts. V d ts \<and> U d ts) m"
  by (simp add: keeps_iff)

lemma hoare_conj:
  "hoare P m Q E \<Longrightarrow> hoare P' m Q' E' \<Longrightarrow>
     hoare (\<lambda>w. P w \<and> P' w) m (\<lambda>x w. Q x w \<and> Q' x w) (\<lambda>e w. E e w \<and> E' e w)"
  by (auto simp: hoare_def split: prod.splits sum.splits)

lemma quiet_basic [keeps_rules]:
  "quiet (ret x)" "quiet (throw e)" "quiet (query q)" "quiet (exec f)" "quiet (exec_checked g)"
  "quiet utc_now" "quiet uuid4" "quiet (lift r)" "quiet (lift_ext h)"
  by (auto simp: quiet_def m_defs split: sum.splits prod.splits)

lemma quiet_bnd [keeps_rules]: "quiet m \<Longrightarrow> (\<And>x. quiet (f x)) \<Longrightarrow> quiet (bnd m f)"
  unfolding quiet_def bnd_def by (metis (no_types, lifting) prod.case_eq_if snd_conv sum.case_eq_if)

lemma quiet_seq [keeps_rules]: "quiet m \<Longrightarrow> quiet k \<Longrightarrow> quiet (seq m k)"
  unfolding seq_def by (rule quiet_bnd)

lemma quiet_catch [keeps_rules]: "quiet m \<Longrightarrow> (\<And>e. quiet (h e)) \<Longrightarrow> quiet (catch m h)"
  unfolding quiet_def catch_def by (metis (no_types, lifting) prod.case_eq_if snd_conv sum.case_eq_if)

lemma quiet_split [keeps_rules]:
  "(b \<Longrightarrow> quiet m) \<Longrightarrow> (\<not> b \<Longrightarrow> quiet n) \<Longrightarrow> quiet (if b then m else n)"
  "(x = None \<Longrightarrow> quiet m) \<Longrightarrow> (\<And>y. x = Some y \<Longrightarrow> quiet (f y)) \<Longrightarrow>
     quiet (case x of None \<Rightarrow> m | Some y \<Rightarrow> f y)"
  "quiet (g v) \<Longrightarrow> quiet (Let v g)"
  by (auto split: option.splits)

lemma quiet_for_each [keeps_rules]: "(\<And>x. x \<in> set xs \<Longrightarrow> quiet (f x)) \<Longrightarrow> quiet (for_each xs f)"
  by (induction xs) (auto intro!: keeps_rules)

lemma quiet_transaction [keeps_rules]: "quiet m \<Longrightarrow> quiet (transaction m)"
  unfolding quiet_def transaction_def
  by (auto simp: snd_def split: prod.splits sum.splits)

lemma quietD: "quiet m \<Longrightarrow> m w = (r, w') \<Longrightarrow> w_threads w' = w_threads w"
  unfolding quiet_def by (metis snd_conv)

text \<open>
  A transaction that starts no thread keeps what holds where it commits: rolling back restores
  the rest.
\<close>

lemma hoare_transaction:
  assumes "quiet m" and "hoare (on V) m Q (\<lambda>_ _. True)"
  shows "hoare (on V) (transaction m) Q (\<lambda>_. on V)"
proof (rule hoareI)
  fix w e w' assume V: "on V w" and run: "transaction m w = (Inl e, w')"
  then obtain w1 where w1: "m w = (Inl e, w1)" "w' = w1\<lparr>w_db := w_db w\<rparr>"
    by (auto simp: transaction_def split: prod.splits sum.splits)
  moreover have "w_threads w1 = w_threads w"
    using assms(1) w1(1) unfolding quiet_def by (metis snd_conv)
  ultimately show "on V w'" using V by simp
next
  fix w x w' assume "on V w" and "transaction m w = (Inr x, w')"
  then show "Q x w'" using assms(2) unfolding transaction_Inr by (rule hoareD_Inr [rotated])
qed

lemma keeps_transaction_commit:
  assumes "quiet m" and "\<And>w x w'. on V w \<Longrightarrow> m w = (Inr x, w') \<Longrightarrow> on V w'"
  shows "keeps V (transaction m)"
  unfolding keeps_def using assms by (intro hoare_transaction hoareI) auto

lemma keeps_transaction [keeps_rules]: "quiet m \<Longrightarrow> keeps V m \<Longrightarrow> keeps V (transaction m)"
  by (erule keeps_transaction_commit) (metis keepsD snd_conv)

end
