(* ===== verification/Crypto.thy ===== *)
theory Crypto
  imports Domain "HOL-Library.Word"
begin

unbundle bit_operations_syntax

text \<open>
  The digests the program takes from Python's standard library: \<open>hashlib.sha256\<close>
  (FIPS 180-4, on 32-bit words with wrap-around), \<open>hmac.new(key, msg, sha256)\<close> (RFC 2104),
  both as lower-case hexadecimal text, and \<open>str.encode()\<close>. Bytes are characters below 256.
  The proofs about the program treat the digests as opaque: no theorem assumes that they are
  free of collisions, and where one matters the statement names the colliding pair.
\<close>

section \<open>SHA-256\<close>

type_synonym word32 = "32 word"

text \<open>
  The constants of the standard are the first 32 bits of the fractions of the cube roots of the
  first 64 primes, and of the square roots of the first eight. \<open>root_bits k n j\<close> is the
  largest number below \<open>2 ^ j\<close> whose \<open>k\<close>-th power is at most \<open>n\<close>, bit by bit.
\<close>

fun root_bits :: "nat \<Rightarrow> nat \<Rightarrow> nat \<Rightarrow> nat \<Rightarrow> nat" where
  "root_bits k n 0 r = r"
| "root_bits k n (Suc j) r = root_bits k n j (if (r + 2 ^ j) ^ k \<le> n then r + 2 ^ j else r)"

definition root_fraction :: "nat \<Rightarrow> nat \<Rightarrow> word32" where
  "root_fraction k p = word_of_nat (root_bits k (p * 2 ^ (32 * k)) 40 0)"

definition sha_primes :: "nat list" where
  "sha_primes = filter (\<lambda>n. \<forall>m \<in> set [2..<n]. n mod m \<noteq> 0) [2..<312]"

definition sha_k :: "word32 list" where
  "sha_k = map (root_fraction 3) sha_primes"

record sha_state =
  sa :: word32
  sb :: word32
  sc :: word32
  sd :: word32
  se :: word32
  sf :: word32
  sg :: word32
  sh :: word32

definition sha_init :: sha_state where
  "sha_init =
     (let h = (\<lambda>i. root_fraction 2 (sha_primes ! i))
      in \<lparr>sa = h 0, sb = h 1, sc = h 2, sd = h 3, se = h 4, sf = h 5, sg = h 6, sh = h 7\<rparr>)"

definition rotr :: "nat \<Rightarrow> word32 \<Rightarrow> word32" where
  "rotr n w = (drop_bit n w) OR (push_bit (32 - n) w)"

definition sha_round :: "sha_state \<Rightarrow> word32 \<times> word32 \<Rightarrow> sha_state" where
  "sha_round s kw =
     (let s1 = rotr 6 (se s) XOR rotr 11 (se s) XOR rotr 25 (se s);
          ch = (se s AND sf s) XOR (NOT (se s) AND sg s);
          t1 = sh s + s1 + ch + fst kw + snd kw;
          s0 = rotr 2 (sa s) XOR rotr 13 (sa s) XOR rotr 22 (sa s);
          maj = (sa s AND sb s) XOR (sa s AND sc s) XOR (sb s AND sc s);
          t2 = s0 + maj
      in \<lparr>sa = t1 + t2, sb = sa s, sc = sb s, sd = sc s,
          se = sd s + t1, sf = se s, sg = sf s, sh = sg s\<rparr>)"

definition sha_extend :: "word32 list \<Rightarrow> nat \<Rightarrow> word32 list" where
  "sha_extend ws t =
     (let x = ws ! (t - 15); y = ws ! (t - 2);
          s0 = rotr 7 x XOR rotr 18 x XOR drop_bit 3 x;
          s1 = rotr 17 y XOR rotr 19 y XOR drop_bit 10 y
      in ws @ [ws ! (t - 16) + s0 + ws ! (t - 7) + s1])"

definition sha_block :: "sha_state \<Rightarrow> word32 list \<Rightarrow> sha_state" where
  "sha_block s ws =
     (let v = foldl sha_round s (zip sha_k (foldl sha_extend ws [16..<64]))
      in \<lparr>sa = sa s + sa v, sb = sb s + sb v, sc = sc s + sc v, sd = sd s + sd v,
          se = se s + se v, sf = sf s + sf v, sg = sg s + sg v, sh = sh s + sh v\<rparr>)"

definition byte_of :: "nat \<Rightarrow> char" where
  "byte_of n = char_of (n mod 256)"

text \<open>A number as \<open>k\<close> bytes, most significant first.\<close>

definition be_bytes :: "nat \<Rightarrow> nat \<Rightarrow> string" where
  "be_bytes k n = map (\<lambda>i. byte_of (n div 256 ^ (k - 1 - i))) [0..<k]"

definition sha_pad :: "string \<Rightarrow> string" where
  "sha_pad s =
     s @ [CHR 0x80] @ replicate ((119 - length s mod 64) mod 64) (CHR 0x00) @ be_bytes 8 (8 * length s)"

fun sha_words :: "string \<Rightarrow> word32 list" where
  "sha_words (a # b # c # d # r) =
     word_of_nat (((of_char a * 256 + of_char b) * 256 + of_char c) * 256 + of_char d) # sha_words r"
| "sha_words _ = []"

fun chunks16 :: "'a list \<Rightarrow> 'a list list" where
  "chunks16 [] = []"
| "chunks16 (x # xs) = take 16 (x # xs) # chunks16 (drop 15 xs)"

definition sha256 :: "string \<Rightarrow> string" where
  "sha256 s =
     (let v = foldl sha_block sha_init (chunks16 (sha_words (sha_pad s)))
      in concat (map (\<lambda>w. be_bytes 4 (unat w)) [sa v, sb v, sc v, sd v, se v, sf v, sg v, sh v]))"

text \<open>\<open>bytes.hex()\<close>.\<close>

definition hex :: "string \<Rightarrow> string" where
  "hex s = concat (map (\<lambda>c. [hex_digit (of_char c div 16), hex_digit (of_char c mod 16)]) s)"

definition sha256_hex :: "string \<Rightarrow> string" where
  "sha256_hex s = hex (sha256 s)"

section \<open>HMAC\<close>

definition xor_byte :: "nat \<Rightarrow> char \<Rightarrow> char" where
  "xor_byte n c = char_of (n XOR of_char c)"

definition hmac_sha256 :: "string \<Rightarrow> string \<Rightarrow> string" where
  "hmac_sha256 key msg =
     (let k = (if 64 < length key then sha256 key else key);
          k' = k @ replicate (64 - length k) (CHR 0x00)
      in sha256 (map (xor_byte 0x5C) k' @ sha256 (map (xor_byte 0x36) k' @ msg)))"

definition hmac_hex :: "string \<Rightarrow> string \<Rightarrow> string" where
  "hmac_hex key msg = hex (hmac_sha256 key msg)"

text \<open>
  \<open>hmac.compare_digest\<close> on two strings: equality, whatever its timing; it refuses strings
  that are not plain ASCII.
\<close>

definition compare_digest :: "string \<Rightarrow> string \<Rightarrow> exn + bool" where
  "compare_digest a b =
     (if is_ascii a \<and> is_ascii b then Inr (a = b)
      else Inl (Exn TypeError ''comparing strings with non-ASCII characters is not supported''))"

lemma is_ascii_hex [simp]: "is_ascii (hex s)"
proof -
  have h: "(of_char (hex_digit n) :: nat) < 128" if "n < 16" for n
    using that by (simp add: hex_digit_def of_char_of)
  have "of_char c div 16 < (16::nat)" for c :: char by (simp add: less_mult_imp_div_less)
  then show ?thesis by (auto simp: hex_def is_ascii_def h)
qed

lemma is_ascii_digests [simp]: "is_ascii (sha256_hex s)" "is_ascii (hmac_hex k s)"
  by (simp_all add: sha256_hex_def hmac_hex_def)

lemma compare_digest_refl [simp]: "is_ascii a \<Longrightarrow> compare_digest a a = Inr True"
  by (simp add: compare_digest_def)

lemma compare_digest_True: "compare_digest a b = Inr True \<longleftrightarrow> a = b \<and> is_ascii a"
  by (auto simp: compare_digest_def)

section \<open>\<open>str.encode()\<close>\<close>

definition utf8 :: "string \<Rightarrow> string" where
  "utf8 s = concat (map (\<lambda>c. let n = (of_char c :: nat) in
      if n < 128 then [c] else [char_of (192 + n div 64), char_of (128 + n mod 64)]) s)"

lemma utf8_ascii [simp]: "is_ascii s \<Longrightarrow> utf8 s = s"
  by (induction s) (auto simp: utf8_def Let_def)

lemma utf8_canonical [simp]: "utf8 (canonical_json v) = canonical_json v"
  by (simp add: is_ascii_canonical)

end
