(* ===== verification/Evidence.thy ===== *)
theory Evidence
  imports Effects Crypto
begin

text \<open>
  \<open>asv/evidence.py\<close>: the evidence ledger. \<open>append\<close> writes the evidence record and its
  outbox event in one transaction; \<open>verify_chain\<close> checks a run's records; \<open>manifest\<close>
  summarises and signs them.
\<close>

section \<open>The ledger\<close>

definition GENESIS_HASH :: string where
  "GENESIS_HASH = replicate 64 (CHR ''0'')"

text \<open>\<open>hashlib.sha256(canonical_json(payload).encode()).hexdigest()\<close>.\<close>

definition payload_digest :: "json \<Rightarrow> string" where
  "payload_digest v = sha256_hex (utf8 (canonical_json v))"

definition of_run :: "string \<Rightarrow> string \<Rightarrow> 'j evidence_row \<Rightarrow> bool" where
  "of_run tenant_id run_id r \<longleftrightarrow> ev_tenant_id r = tenant_id \<and> ev_run_id r = run_id"

text \<open>\<open>SELECT * ... WHERE tenant_id=? AND run_id=? ORDER BY sequence_no\<close>.\<close>

definition select_evidence :: "string \<Rightarrow> string \<Rightarrow> db \<Rightarrow> string evidence_row list" where
  "select_evidence tenant_id run_id d =
     sort_key ev_sequence_no (filter (of_run tenant_id run_id) (evidences d))"

text \<open>\<open>ORDER BY sequence_no DESC LIMIT 1\<close>.\<close>

definition last_evidence :: "string \<Rightarrow> string \<Rightarrow> db \<Rightarrow> string evidence_row option" where
  "last_evidence tenant_id run_id d =
     (let rows = select_evidence tenant_id run_id d in if rows = [] then None else Some (last rows))"

definition find_run :: "string \<Rightarrow> string \<Rightarrow> db \<Rightarrow> run_row option" where
  "find_run tenant_id run_id d =
     find (\<lambda>r. rn_tenant_id r = tenant_id \<and> rn_run_id r = run_id) (runs d)"

definition opt_json :: "string option \<Rightarrow> json" where
  "opt_json x = (case x of None \<Rightarrow> JNull | Some s \<Rightarrow> JStr s)"

text \<open>The envelope of the outbox event.\<close>

definition event_envelope :: "json evidence_row \<Rightarrow> run_row \<Rightarrow> json dict" where
  "event_envelope rec run =
     [(''event_id'', JStr (ev_evidence_id rec)),
      (''run_id'', JStr (ev_run_id rec)),
      (''parent_run_id'', opt_json (rn_parent_run_id run)),
      (''agent_id'', JStr (rn_agent_id run)),
      (''correlation_id'', JStr (ev_correlation_id rec)),
      (''policy_version'', JInt (ev_policy_version rec)),
      (''occurred_at'', iso_json (ev_observed_at rec)),
      (''producer'', JStr (ev_actor rec)),
      (''schema_version'', JStr ''1.0''),
      (''idempotency_key'', JStr (ev_run_id rec @ '':'' @ int_dec (ev_sequence_no rec))),
      (''event_type'', JStr (ev_event_type rec)),
      (''payload'', ev_payload rec)]"

text \<open>A record with its payload column replaced: encoded for storing, decoded after loading.\<close>

definition with_payload :: "'a evidence_row \<Rightarrow> 'b \<Rightarrow> 'b evidence_row" where
  "with_payload r v =
     \<lparr>ev_evidence_id = ev_evidence_id r, ev_tenant_id = ev_tenant_id r, ev_run_id = ev_run_id r,
      ev_sequence_no = ev_sequence_no r, ev_event_type = ev_event_type r, ev_payload = v,
      ev_payload_hash = ev_payload_hash r, ev_previous_hash = ev_previous_hash r,
      ev_observed_at = ev_observed_at r, ev_actor = ev_actor r,
      ev_policy_version = ev_policy_version r, ev_correlation_id = ev_correlation_id r\<rparr>"

lemma with_payload_sel [simp]:
  "ev_evidence_id (with_payload r v) = ev_evidence_id r" "ev_tenant_id (with_payload r v) = ev_tenant_id r"
  "ev_run_id (with_payload r v) = ev_run_id r" "ev_sequence_no (with_payload r v) = ev_sequence_no r"
  "ev_event_type (with_payload r v) = ev_event_type r" "ev_payload (with_payload r v) = v"
  "ev_payload_hash (with_payload r v) = ev_payload_hash r"
  "ev_previous_hash (with_payload r v) = ev_previous_hash r"
  "ev_observed_at (with_payload r v) = ev_observed_at r" "ev_actor (with_payload r v) = ev_actor r"
  "ev_policy_version (with_payload r v) = ev_policy_version r"
  "ev_correlation_id (with_payload r v) = ev_correlation_id r"
  by (simp_all add: with_payload_def)

definition none_subscript :: exn where
  "none_subscript = Exn TypeError (CHR 0x27 # ''NoneType'' @ [CHR 0x27] @ '' object is not subscriptable'')"

text \<open>The record \<open>append\<close> builds from the run's last one, a UUID and the time.\<close>

definition new_record ::
  "string evidence_row option \<Rightarrow> string \<Rightarrow> instant \<Rightarrow> string \<Rightarrow> string \<Rightarrow> string \<Rightarrow> json dict \<Rightarrow> string \<Rightarrow>
     int \<Rightarrow> string \<Rightarrow> json evidence_row" where
  "new_record previous evidence_id observed_at tenant_id run_id event_type payload actor
     policy_version correlation_id =
     \<lparr>ev_evidence_id = evidence_id, ev_tenant_id = tenant_id, ev_run_id = run_id,
      ev_sequence_no = (case previous of None \<Rightarrow> 1 | Some p \<Rightarrow> ev_sequence_no p + 1),
      ev_event_type = event_type, ev_payload = JObj payload,
      ev_payload_hash = payload_digest (JObj payload),
      ev_previous_hash = (case previous of None \<Rightarrow> GENESIS_HASH | Some p \<Rightarrow> ev_payload_hash p),
      ev_observed_at = observed_at, ev_actor = actor, ev_policy_version = policy_version,
      ev_correlation_id = correlation_id\<rparr>"

definition stored :: "json evidence_row \<Rightarrow> string evidence_row" where
  "stored rec = with_payload rec (canonical_json (ev_payload rec))"

definition outbox_event :: "json evidence_row \<Rightarrow> run_row \<Rightarrow> outbox_row" where
  "outbox_event rec run =
     \<lparr>ob_event_id = ev_evidence_id rec, ob_tenant_id = ev_tenant_id rec, ob_run_id = ev_run_id rec,
      ob_payload = canonical_json (JObj (event_envelope rec run)),
      ob_status = O_PENDING, ob_attempts = 0, ob_last_error = None,
      ob_created_at = ev_observed_at rec, ob_delivered_at = None\<rparr>"

definition ledger_append ::
  "string \<Rightarrow> string \<Rightarrow> string \<Rightarrow> json dict \<Rightarrow> string \<Rightarrow> int \<Rightarrow> string \<Rightarrow> json evidence_row m" where
  "ledger_append tenant_id run_id event_type payload actor policy_version correlation_id =
     transaction (
       bnd (query (last_evidence tenant_id run_id)) (\<lambda>previous.
       bnd uuid4 (\<lambda>evidence_id.
       bnd utc_now (\<lambda>observed_at.
       let rec = new_record previous evidence_id observed_at tenant_id run_id event_type payload
                   actor policy_version correlation_id
       in seq (exec_checked (insert_evidence (stored rec)))
         (bnd (query (find_run tenant_id run_id)) (\<lambda>found.
          case found of
            None \<Rightarrow> throw none_subscript
          | Some run \<Rightarrow> seq (exec_checked (insert_outbox (outbox_event rec run))) (ret rec)))))))"

section \<open>Reading the records\<close>

definition json_error :: exn where
  "json_error = Exn (OtherError ''JSONDecodeError'') ''invalid JSON document''"

text \<open>\<open>json.loads\<close> of a stored column.\<close>

definition py_loads :: "string \<Rightarrow> exn + json" where
  "py_loads s = (case loads s of None \<Rightarrow> Inl json_error | Some v \<Rightarrow> Inr v)"

fun collect :: "('a \<Rightarrow> exn + 'b) \<Rightarrow> 'a list \<Rightarrow> exn + 'b list" where
  "collect f [] = Inr []"
| "collect f (x # xs) =
     (case f x of
        Inl e \<Rightarrow> Inl e
      | Inr y \<Rightarrow> (case collect f xs of Inl e \<Rightarrow> Inl e | Inr ys \<Rightarrow> Inr (y # ys)))"

text \<open>\<open>Store.row\<close> of an evidence row.\<close>

definition load_evidence :: "string evidence_row \<Rightarrow> exn + json evidence_row" where
  "load_evidence r = (case py_loads (ev_payload r) of Inl e \<Rightarrow> Inl e | Inr v \<Rightarrow> Inr (with_payload r v))"

definition ledger_records :: "string \<Rightarrow> string \<Rightarrow> json evidence_row list m" where
  "ledger_records tenant_id run_id =
     bnd (query (select_evidence tenant_id run_id)) (\<lambda>rows. lift (collect load_evidence rows))"

section \<open>\<open>verify_chain\<close>\<close>

fun verify_from :: "int \<Rightarrow> string \<Rightarrow> json evidence_row list \<Rightarrow> exn + (bool \<times> string option)" where
  "verify_from expected previous_hash [] = Inr (True, None)"
| "verify_from expected previous_hash (r # rs) =
     (if ev_sequence_no r \<noteq> expected then
        Inr (False, Some (''expected sequence '' @ int_dec expected))
      else if ev_previous_hash r \<noteq> previous_hash then
        Inr (False, Some (''broken previous hash at sequence '' @ int_dec expected))
      else (case compare_digest (payload_digest (ev_payload r)) (ev_payload_hash r) of
              Inl e \<Rightarrow> Inl e
            | Inr same \<Rightarrow>
                if \<not> same then Inr (False, Some (''payload hash mismatch at sequence '' @ int_dec expected))
                else verify_from (expected + 1) (ev_payload_hash r) rs))"

definition verify_chain :: "json evidence_row list \<Rightarrow> exn + (bool \<times> string option)" where
  "verify_chain records = verify_from 1 GENESIS_HASH records"

section \<open>Manifest and signatures\<close>

definition manifest_body :: "string \<Rightarrow> string \<Rightarrow> json evidence_row list \<Rightarrow> bool \<Rightarrow> string option \<Rightarrow> json dict" where
  "manifest_body tenant_id run_id records valid error =
     [(''tenant_id'', JStr tenant_id),
      (''run_id'', JStr run_id),
      (''record_count'', JInt (int (length records))),
      (''head_hash'', JStr (if records = [] then GENESIS_HASH else ev_payload_hash (last records))),
      (''chain_valid'', JBool valid),
      (''chain_error'', opt_json error),
      (''signer_key_id'', JStr ''local-dev-hmac-v1''),
      (''signature_algorithm'', JStr ''hmac-sha256'')]"

definition sign_text :: "string \<Rightarrow> json dict \<Rightarrow> string" where
  "sign_text key body = hmac_hex key (utf8 (canonical_json (JObj body)))"

definition ledger_manifest :: "string \<Rightarrow> string \<Rightarrow> string \<Rightarrow> json dict m" where
  "ledger_manifest key tenant_id run_id =
     bnd (ledger_records tenant_id run_id) (\<lambda>records.
     bnd (lift (verify_chain records)) (\<lambda>(valid, error).
       let body = manifest_body tenant_id run_id records valid error
       in ret (body @ [(''signature'', JStr (sign_text key body))])))"

definition verify_manifest :: "string \<Rightarrow> json dict \<Rightarrow> exn + bool" where
  "verify_manifest key manifest =
     (let unsigned = filter (\<lambda>(k, v). k \<noteq> ''signature'') (dict_of manifest);
          supplied = (case dict_get manifest ''signature'' of None \<Rightarrow> [] | Some v \<Rightarrow> py_str v)
      in compare_digest (sign_text key unsigned) supplied)"

definition sign_payload :: "string \<Rightarrow> json dict \<Rightarrow> json dict" where
  "sign_payload key payload =
     [(''algorithm'', JStr ''hmac-sha256''),
      (''key_id'', JStr ''local-dev-hmac-v1''),
      (''signature'', JStr (sign_text key payload))]"

text \<open>The signature argument is annotated \<open>dict[str, str]\<close>.\<close>

definition verify_signed_payload :: "string \<Rightarrow> json dict \<Rightarrow> string dict \<Rightarrow> exn + bool" where
  "verify_signed_payload key payload signature =
     (if dict_get signature ''algorithm'' \<noteq> Some ''hmac-sha256'' then Inr False
      else compare_digest (sign_text key payload)
             (case dict_get signature ''signature'' of None \<Rightarrow> [] | Some s \<Rightarrow> s))"

section \<open>What a verified chain is\<close>

text \<open>The reference: numbers, links and hashes of every record, by position.\<close>

definition well_chained :: "json evidence_row list \<Rightarrow> bool" where
  "well_chained rs \<longleftrightarrow>
     (\<forall>i < length rs.
        ev_sequence_no (rs ! i) = int i + 1 \<and>
        ev_previous_hash (rs ! i) = (if i = 0 then GENESIS_HASH else ev_payload_hash (rs ! (i - 1))) \<and>
        ev_payload_hash (rs ! i) = payload_digest (ev_payload (rs ! i)))"

lemma is_ascii_payload_digest [simp]: "is_ascii (payload_digest v)"
  by (simp add: payload_digest_def)

lemma payload_digest_norm [simp]: "payload_digest (norm_json True v) = payload_digest v"
  by (simp add: payload_digest_def)

lemma verify_from_ok_Cons:
  "verify_from n prev (r # rs) = Inr (True, None) \<longleftrightarrow>
     ev_sequence_no r = n \<and> ev_previous_hash r = prev \<and>
     ev_payload_hash r = payload_digest (ev_payload r) \<and>
     verify_from (n + 1) (ev_payload_hash r) rs = Inr (True, None)"
proof -
  have "payload_digest (ev_payload r) = ev_payload_hash r \<Longrightarrow> is_ascii (ev_payload_hash r)"
    by (metis is_ascii_payload_digest)
  then show ?thesis by (auto simp: compare_digest_def)
qed

lemma verify_from_ok_iff:
  "verify_from n prev rs = Inr (True, None) \<longleftrightarrow>
     (\<forall>i < length rs.
        ev_sequence_no (rs ! i) = n + int i \<and>
        ev_previous_hash (rs ! i) = (if i = 0 then prev else ev_payload_hash (rs ! (i - 1))) \<and>
        ev_payload_hash (rs ! i) = payload_digest (ev_payload (rs ! i)))"
proof (induction rs arbitrary: n prev)
  case Nil
  then show ?case by simp
next
  case (Cons r rs)
  show ?case
    unfolding verify_from_ok_Cons Cons.IH
    by (auto simp: nth_Cons' All_less_Suc2 algebra_simps)
qed

lemma verify_from_append:
  "verify_from n prev xs = Inr (True, None) \<Longrightarrow>
     verify_from n prev (xs @ ys)
       = verify_from (n + int (length xs)) (if xs = [] then prev else ev_payload_hash (last xs)) ys"
proof (induction xs arbitrary: n prev)
  case Nil
  then show ?case by simp
next
  case (Cons r xs)
  then have r: "ev_sequence_no r = n" "ev_previous_hash r = prev"
      "ev_payload_hash r = payload_digest (ev_payload r)"
      "verify_from (n + 1) (ev_payload_hash r) xs = Inr (True, None)"
    unfolding verify_from_ok_Cons by blast+
  have "verify_from n prev ((r # xs) @ ys) = verify_from (n + 1) (ev_payload_hash r) (xs @ ys)"
    using r(1-3) by simp
  with Cons.IH [OF r(4)] show ?case by (simp add: add.assoc)
qed

lemma verify_from_append_ok:
  "verify_from n prev (xs @ ys) = Inr (True, None) \<longleftrightarrow>
     verify_from n prev xs = Inr (True, None) \<and>
     verify_from (n + int (length xs)) (if xs = [] then prev else ev_payload_hash (last xs)) ys = Inr (True, None)"
proof -
  have "verify_from n prev (xs @ ys) = Inr (True, None) \<Longrightarrow> verify_from n prev xs = Inr (True, None)"
  proof (induction xs arbitrary: n prev)
    case (Cons r xs)
    then show ?case unfolding append_Cons verify_from_ok_Cons by blast
  qed simp
  then show ?thesis using verify_from_append [of n prev xs ys] by auto
qed

section \<open>The chain in the database\<close>

definition is_canonical :: "string \<Rightarrow> bool" where
  "is_canonical s \<longleftrightarrow> (case loads s of None \<Rightarrow> False | Some v \<Rightarrow> canonical_json v = s)"

lemma is_canonical_canonical [simp]: "is_canonical (canonical_json v)"
  by (simp add: is_canonical_def)

fun chained :: "int \<Rightarrow> string \<Rightarrow> string evidence_row list \<Rightarrow> bool" where
  "chained n prev [] = True"
| "chained n prev (r # rs) =
     (ev_sequence_no r = n \<and> ev_previous_hash r = prev \<and> is_canonical (ev_payload r) \<and>
      ev_payload_hash r = sha256_hex (utf8 (ev_payload r)) \<and> chained (n + 1) (ev_payload_hash r) rs)"

definition head_hash :: "string \<Rightarrow> 'j evidence_row list \<Rightarrow> string" where
  "head_hash prev rs = (if rs = [] then prev else ev_payload_hash (last rs))"

lemma chained_snoc:
  "chained n prev (rs @ [r]) \<longleftrightarrow>
     chained n prev rs \<and> ev_sequence_no r = n + int (length rs) \<and> ev_previous_hash r = head_hash prev rs \<and>
     is_canonical (ev_payload r) \<and> ev_payload_hash r = sha256_hex (utf8 (ev_payload r))"
  by (induction rs arbitrary: n prev) (auto simp: head_hash_def algebra_simps)

lemma chained_sorted: "chained n prev rs \<Longrightarrow> sorted (map ev_sequence_no rs) \<and> (\<forall>r \<in> set rs. n \<le> ev_sequence_no r)"
  by (induction rs arbitrary: n prev) fastforce+

lemma chained_last: "chained n prev rs \<Longrightarrow> rs \<noteq> [] \<Longrightarrow> ev_sequence_no (last rs) = n + int (length rs) - 1"
  by (induction rs arbitrary: n prev) auto

text \<open>Every run's records, in the order they were inserted, form a chain.\<close>

definition ledger_inv :: "db \<Rightarrow> bool" where
  "ledger_inv d \<longleftrightarrow>
     (\<forall>x \<in> set (evidences d).
        chained 1 GENESIS_HASH (filter (of_run (ev_tenant_id x) (ev_run_id x)) (evidences d)))"

lemma ledger_inv_iff: "ledger_inv d \<longleftrightarrow> (\<forall>t r. chained 1 GENESIS_HASH (filter (of_run t r) (evidences d)))"
proof
  assume inv: "ledger_inv d"
  show "\<forall>t r. chained 1 GENESIS_HASH (filter (of_run t r) (evidences d))"
  proof (intro allI)
    fix t r
    show "chained 1 GENESIS_HASH (filter (of_run t r) (evidences d))"
    proof (cases "filter (of_run t r) (evidences d)")
      case (Cons x xs)
      then have "x \<in> set (filter (of_run t r) (evidences d))" by simp
      then have "x \<in> set (evidences d)" "t = ev_tenant_id x" "r = ev_run_id x"
        by (auto simp: of_run_def)
      with inv show ?thesis by (auto simp: ledger_inv_def)
    qed simp
  qed
qed (simp add: ledger_inv_def)

lemma select_evidence_chained:
  "ledger_inv d \<Longrightarrow> select_evidence t r d = filter (of_run t r) (evidences d)"
  unfolding select_evidence_def
  by (rule sort_key_id_if_sorted) (use chained_sorted in \<open>fastforce simp: ledger_inv_iff\<close>)

text \<open>Everything \<open>append\<close> does, on success and on failure.\<close>

lemma find_run_upd [simp]:
  "find_run t r (d\<lparr>evidences := x\<rparr>) = find_run t r d" "find_run t r (d\<lparr>event_outbox := y\<rparr>) = find_run t r d"
  by (simp_all add: find_run_def)

lemma has_event_evidences [simp]: "has_event e (d\<lparr>evidences := x\<rparr>) = has_event e d"
  by (simp add: has_event_def)

lemma outbox_event_id [simp]: "ob_event_id (outbox_event rec run) = ev_evidence_id rec"
  by (simp add: outbox_event_def)

lemma ledger_append_Inr:
  assumes "ledger_append t r ty pl ac pv co w = (Inr rec, w')"
  obtains run where "find_run t r (w_db w) = Some run"
    and "rec = new_record (last_evidence t r (w_db w)) (w_uuid_src w (w_uuids w)) (w_clock w (w_ticks w)) t r ty pl ac pv co"
    and "w' = w\<lparr>w_db := (w_db w)\<lparr>evidences := evidences (w_db w) @ [stored rec],
                  event_outbox := event_outbox (w_db w) @ [outbox_event rec run]\<rparr>,
               w_ticks := Suc (w_ticks w), w_uuids := Suc (w_uuids w)\<rparr>"
    and "insert_evidence (stored rec) (w_db w) = Inr ((w_db w)\<lparr>evidences := evidences (w_db w) @ [stored rec]\<rparr>)"
    and "\<not> has_event (ev_evidence_id rec) (w_db w)"
  using assms unfolding ledger_append_def transaction_Inr
  by (auto simp: m_exec Let_def insert_evidence_Inr insert_outbox_Inr split: sum.splits option.splits)

lemma ledger_append_runs:
  assumes "find_run t r (w_db w) = Some run"
    and "rec = new_record (last_evidence t r (w_db w)) (w_uuid_src w (w_uuids w)) (w_clock w (w_ticks w)) t r ty pl ac pv co"
    and "\<forall>x \<in> set (evidences (w_db w)). ev_evidence_id x \<noteq> ev_evidence_id rec"
    and "\<forall>x \<in> set (evidences (w_db w)). ev_run_id x = r \<longrightarrow> ev_sequence_no x \<noteq> ev_sequence_no rec"
    and "\<not> has_event (ev_evidence_id rec) (w_db w)"
  shows "ledger_append t r ty pl ac pv co w =
     (Inr rec, w\<lparr>w_db := (w_db w)\<lparr>evidences := evidences (w_db w) @ [stored rec],
                  event_outbox := event_outbox (w_db w) @ [outbox_event rec run]\<rparr>,
               w_ticks := Suc (w_ticks w), w_uuids := Suc (w_uuids w)\<rparr>)"
proof -
  have "has_run r (w_db w)" using assms(1) by (auto simp: find_run_def find_Some_iff has_run_def)
  moreover have "ev_run_id rec = r" using assms(2) by (simp add: new_record_def)
  ultimately have "insert_evidence (stored rec) (w_db w) = Inr ((w_db w)\<lparr>evidences := evidences (w_db w) @ [stored rec]\<rparr>)"
    using assms(3,4) by (simp add: insert_evidence_Inr stored_def)
  then show ?thesis unfolding ledger_append_def transaction_Inr
    using assms by (simp add: m_exec Let_def insert_outbox_def)
qed

lemma ledger_append_Inl:
  assumes "ledger_append t r ty pl ac pv co w = (Inl e, w')"
  shows "w_db w' = w_db w"
  using assms unfolding ledger_append_def by (rule transaction_Inl)

text \<open>The rows a successful \<open>append\<close> adds, as one change of the database.\<close>

definition append_rows :: "json evidence_row \<Rightarrow> run_row \<Rightarrow> db \<Rightarrow> db" where
  "append_rows rec run d =
     d\<lparr>evidences := evidences d @ [stored rec], event_outbox := event_outbox d @ [outbox_event rec run]\<rparr>"

text \<open>What is known of the appended record: the next of its run, and fresh.\<close>

definition appendable :: "json evidence_row \<Rightarrow> run_row \<Rightarrow> db \<Rightarrow> bool" where
  "appendable rec run d \<longleftrightarrow>
     find_run (ev_tenant_id rec) (ev_run_id rec) d = Some run \<and>
     rec = new_record (last_evidence (ev_tenant_id rec) (ev_run_id rec) d) (ev_evidence_id rec)
             (ev_observed_at rec) (ev_tenant_id rec) (ev_run_id rec) (ev_event_type rec)
             (case ev_payload rec of JObj kvs \<Rightarrow> kvs | _ \<Rightarrow> []) (ev_actor rec)
             (ev_policy_version rec) (ev_correlation_id rec) \<and>
     (\<forall>x \<in> set (evidences d). ev_evidence_id x \<noteq> ev_evidence_id rec) \<and>
     \<not> has_event (ev_evidence_id rec) d"

lemma new_record_sel [simp]:
  "ev_evidence_id (new_record p i tm t r ty pl ac pv co) = i"
  "ev_tenant_id (new_record p i tm t r ty pl ac pv co) = t"
  "ev_run_id (new_record p i tm t r ty pl ac pv co) = r"
  "ev_event_type (new_record p i tm t r ty pl ac pv co) = ty"
  "ev_payload (new_record p i tm t r ty pl ac pv co) = JObj pl"
  "ev_payload_hash (new_record p i tm t r ty pl ac pv co) = payload_digest (JObj pl)"
  "ev_observed_at (new_record p i tm t r ty pl ac pv co) = tm"
  "ev_actor (new_record p i tm t r ty pl ac pv co) = ac"
  "ev_policy_version (new_record p i tm t r ty pl ac pv co) = pv"
  "ev_correlation_id (new_record p i tm t r ty pl ac pv co) = co"
  by (simp_all add: new_record_def)

lemma stored_sel [simp]:
  "ev_evidence_id (stored r) = ev_evidence_id r" "ev_tenant_id (stored r) = ev_tenant_id r"
  "ev_run_id (stored r) = ev_run_id r" "ev_sequence_no (stored r) = ev_sequence_no r"
  "ev_event_type (stored r) = ev_event_type r" "ev_payload (stored r) = canonical_json (ev_payload r)"
  "ev_payload_hash (stored r) = ev_payload_hash r" "ev_previous_hash (stored r) = ev_previous_hash r"
  "ev_actor (stored r) = ev_actor r"
  by (simp_all add: stored_def)

lemma of_run_stored [simp]: "of_run t r (stored rec) = of_run t r rec"
  by (simp add: of_run_def)

lemma quiet_ledger_append [keeps_rules]: "quiet (ledger_append t r ty pl ac pv co)"
  unfolding ledger_append_def by (intro keeps_rules)

lemma hoare_ledger_append:
  assumes "\<And>w rec run. P w \<Longrightarrow> appendable rec run (w_db w) \<Longrightarrow>
      rec = new_record (last_evidence t r (w_db w)) (w_uuid_src w (w_uuids w)) (w_clock w (w_ticks w)) t r ty pl ac pv co \<Longrightarrow>
      Q rec (w\<lparr>w_db := append_rows rec run (w_db w), w_ticks := Suc (w_ticks w), w_uuids := Suc (w_uuids w)\<rparr>)"
    and "\<And>w e w'. P w \<Longrightarrow> w_db w' = w_db w \<Longrightarrow> w_threads w' = w_threads w \<Longrightarrow> E e w'"
  shows "hoare P (ledger_append t r ty pl ac pv co) Q E"
proof (rule hoareI)
  fix w e w'
  assume "P w" "ledger_append t r ty pl ac pv co w = (Inl e, w')"
  then show "E e w'"
    using ledger_append_Inl quietD [OF quiet_ledger_append] by (intro assms(2) [of w w' e]) auto
next
  fix w rec w'
  assume P: "P w" and run: "ledger_append t r ty pl ac pv co w = (Inr rec, w')"
  from run show "Q rec w'"
  proof (rule ledger_append_Inr)
    fix run
    assume *: "find_run t r (w_db w) = Some run"
      "rec = new_record (last_evidence t r (w_db w)) (w_uuid_src w (w_uuids w)) (w_clock w (w_ticks w)) t r ty pl ac pv co"
      "w' = w\<lparr>w_db := (w_db w)\<lparr>evidences := evidences (w_db w) @ [stored rec],
                  event_outbox := event_outbox (w_db w) @ [outbox_event rec run]\<rparr>,
               w_ticks := Suc (w_ticks w), w_uuids := Suc (w_uuids w)\<rparr>"
      "insert_evidence (stored rec) (w_db w) = Inr ((w_db w)\<lparr>evidences := evidences (w_db w) @ [stored rec]\<rparr>)"
      "\<not> has_event (ev_evidence_id rec) (w_db w)"
    then have "appendable rec run (w_db w)"
      by (simp add: appendable_def insert_evidence_Inr)
    then show "Q rec w'" using assms(1) [OF P] * by (simp add: append_rows_def)
  qed
qed

lemma keeps_ledger_append:
  "(\<And>d ts rec run. V d ts \<Longrightarrow> appendable rec run d \<Longrightarrow> ev_tenant_id rec = t \<Longrightarrow> ev_run_id rec = r \<Longrightarrow>
       V (append_rows rec run d) ts) \<Longrightarrow>
     keeps V (ledger_append t r ty pl ac pv co)"
  unfolding keeps_def by (rule hoare_ledger_append) simp_all

subsection \<open>The chain is kept\<close>

lemma last_evidence_chained:
  assumes "chained 1 GENESIS_HASH (filter (of_run t r) (evidences d))"
  shows "last_evidence t r d =
     (let rows = filter (of_run t r) (evidences d) in if rows = [] then None else Some (last rows))"
proof -
  have "select_evidence t r d = filter (of_run t r) (evidences d)"
    unfolding select_evidence_def
    by (rule sort_key_id_if_sorted) (use assms chained_sorted in blast)
  then show ?thesis by (simp add: last_evidence_def)
qed

lemma appendable_next:
  assumes "ledger_inv d" and "appendable rec run d"
  shows "chained 1 GENESIS_HASH (filter (of_run (ev_tenant_id rec) (ev_run_id rec)) (evidences d) @ [stored rec])"
proof -
  let ?rows = "filter (of_run (ev_tenant_id rec) (ev_run_id rec)) (evidences d)"
  have ch: "chained 1 GENESIS_HASH ?rows" using assms(1) by (simp add: ledger_inv_iff)
  define p where "p = last_evidence (ev_tenant_id rec) (ev_run_id rec) d"
  have p: "p = (if ?rows = [] then None else Some (last ?rows))"
    using last_evidence_chained [OF ch] by (simp add: p_def Let_def)
  obtain i tm t r ty pl ac pv co where rec: "rec = new_record p i tm t r ty pl ac pv co"
    using assms(2) unfolding appendable_def p_def by metis
  have f: "ev_sequence_no rec = (case p of None \<Rightarrow> 1 | Some q \<Rightarrow> ev_sequence_no q + 1)"
    "ev_previous_hash rec = (case p of None \<Rightarrow> GENESIS_HASH | Some q \<Rightarrow> ev_payload_hash q)"
    "ev_payload_hash rec = payload_digest (ev_payload rec)"
    by (subst rec, simp add: new_record_def)+
  have "ev_sequence_no rec = 1 + int (length ?rows)"
    using p chained_last [OF ch] unfolding f(1) by (cases "?rows = []") simp_all
  moreover have "ev_previous_hash rec = head_hash GENESIS_HASH ?rows"
    using p unfolding f(2) by (cases "?rows = []") (simp_all add: head_hash_def)
  moreover note f(3)
  ultimately show ?thesis
    using ch by (simp add: chained_snoc payload_digest_def)
qed

lemma ledger_inv_append:
  assumes "ledger_inv d" and "appendable rec run d"
  shows "ledger_inv (append_rows rec run d)"
proof -
  have "chained 1 GENESIS_HASH (filter (of_run t r) (evidences d @ [stored rec]))" for t r
  proof (cases "of_run t r rec")
    case True
    then have "t = ev_tenant_id rec" "r = ev_run_id rec" by (simp_all add: of_run_def)
    with True appendable_next [OF assms] show ?thesis by simp
  next
    case False
    with assms(1) show ?thesis by (simp add: ledger_inv_iff)
  qed
  then show ?thesis by (simp add: ledger_inv_iff append_rows_def)
qed

lemma ledger_inv_cong: "evidences d' = evidences d \<Longrightarrow> ledger_inv d' = ledger_inv d"
  by (simp add: ledger_inv_def)

section \<open>Reading a chained ledger\<close>

lemma collect_chained:
  "chained n prev rows \<Longrightarrow>
     \<exists>recs. collect load_evidence rows = Inr recs \<and> verify_from n prev recs = Inr (True, None) \<and>
       map ev_evidence_id recs = map ev_evidence_id rows"
proof (induction rows arbitrary: n prev)
  case Nil
  then show ?case by simp
next
  case (Cons r rows)
  then obtain recs where recs: "collect load_evidence rows = Inr recs"
      "verify_from (n + 1) (ev_payload_hash r) recs = Inr (True, None)"
      "map ev_evidence_id recs = map ev_evidence_id rows"
    by fastforce
  from Cons.prems obtain v where v: "loads (ev_payload r) = Some v" "canonical_json v = ev_payload r"
    by (auto simp: is_canonical_def split: option.splits)
  have "ev_payload_hash r = payload_digest v" using Cons.prems v by (simp add: payload_digest_def)
  then have "verify_from n prev (with_payload r v # recs) = Inr (True, None)"
    using Cons.prems recs unfolding verify_from_ok_Cons by simp
  moreover have "collect load_evidence (r # rows) = Inr (with_payload r v # recs)"
    using recs v by (simp add: load_evidence_def py_loads_def)
  moreover have "map ev_evidence_id (with_payload r v # recs) = map ev_evidence_id (r # rows)"
    using recs(3) by simp
  ultimately show ?case by blast
qed

lemma ledger_records_ok:
  assumes "ledger_inv (w_db w)"
  obtains recs where "ledger_records t r w = (Inr recs, w)" and "verify_chain recs = Inr (True, None)"
    and "map ev_evidence_id recs = map ev_evidence_id (filter (of_run t r) (evidences (w_db w)))"
proof -
  have "chained 1 GENESIS_HASH (filter (of_run t r) (evidences (w_db w)))"
    using assms by (simp add: ledger_inv_iff)
  from collect_chained [OF this] that show ?thesis
    by (auto simp: ledger_records_def m_exec select_evidence_chained [OF assms] verify_chain_def lift_def)
qed

lemma is_ascii_sign_text [simp]: "is_ascii (sign_text key body)"
  by (simp add: sign_text_def)

lemma verify_own_manifest:
  assumes "distinct (map fst body)" and "''signature'' \<notin> fst ` set body"
  shows "verify_manifest key (body @ [(''signature'', JStr (sign_text key body))]) = Inr True"
proof -
  have d: "distinct (map fst (body @ [(''signature'', JStr (sign_text key body))]))"
    using assms by simp
  have "filter (\<lambda>(k, v). k \<noteq> ''signature'') body = body"
    using assms(2) by (force intro!: filter_True)
  moreover have "map_of body ''signature'' = None"
    using assms(2) by (simp add: map_of_eq_None_iff)
  ultimately show ?thesis
    using d by (simp add: verify_manifest_def dict_get_distinct [OF d] map_add_def)
qed

section \<open>Properties\<close>

text \<open>
  C8. \<open>verify_chain\<close> accepts exactly the lists whose records are numbered from 1 without a
  gap, whose first record names the genesis hash and every later one the payload hash of the
  record before it, and whose payload hashes are the digests of their payloads.
\<close>

theorem verify_chain_iff: "verify_chain rs = Inr (True, None) \<longleftrightarrow> well_chained rs"
  by (simp add: verify_chain_def verify_from_ok_iff well_chained_def add.commute)

text \<open>Two records of one run, as \<open>append\<close> builds them one after the other.\<close>

definition sample_first :: "json evidence_row" where
  "sample_first = new_record None ''e1'' 0 ''t'' ''r'' ''agent.run.started'' [(''state'', JStr ''RUNNING'')]
     ''agent-adapter'' 1 ''c''"

definition sample_second :: "json evidence_row" where
  "sample_second = new_record (Some (stored sample_first)) ''e2'' 1000000 ''t'' ''r'' ''shutdown.requested'' []
     ''responder'' 1 ''c''"

lemma sample_chain: "verify_chain [sample_first, sample_second] = Inr (True, None)"
  unfolding verify_chain_def verify_from_ok_Cons
  by (simp add: sample_first_def sample_second_def new_record_def stored_def)

text \<open>
  C9. Replacing the payload of one record of a verified chain, and nothing else, is reported
  at that record, with its number, unless the new payload has the digest of the old one; every
  record may be tampered with, and the position is arbitrary.
\<close>

theorem tampered_payload_reported:
  assumes "verify_chain (xs @ r # ys) = Inr (True, None)"
  shows "verify_chain (xs @ r\<lparr>ev_payload := p\<rparr> # ys) =
     (if payload_digest p = payload_digest (ev_payload r) then Inr (True, None)
      else Inr (False, Some (''payload hash mismatch at sequence '' @ int_dec (int (length xs) + 1))))"
proof -
  let ?prev = "if xs = [] then GENESIS_HASH else ev_payload_hash (last xs)"
  let ?n = "1 + int (length xs)"
  have xs: "verify_from 1 GENESIS_HASH xs = Inr (True, None)"
    and rest: "verify_from ?n ?prev (r # ys) = Inr (True, None)"
    using assms unfolding verify_chain_def verify_from_append_ok by blast+
  have r: "ev_sequence_no r = ?n" "ev_previous_hash r = ?prev"
      "ev_payload_hash r = payload_digest (ev_payload r)"
      "verify_from (?n + 1) (ev_payload_hash r) ys = Inr (True, None)"
    using rest unfolding verify_from_ok_Cons by blast+
  have "verify_chain (xs @ r\<lparr>ev_payload := p\<rparr> # ys) = verify_from ?n ?prev (r\<lparr>ev_payload := p\<rparr> # ys)"
    unfolding verify_chain_def by (rule verify_from_append [OF xs])
  also have "\<dots> = (if payload_digest p = payload_digest (ev_payload r) then Inr (True, None)
      else Inr (False, Some (''payload hash mismatch at sequence '' @ int_dec ?n)))"
    using r by (simp add: compare_digest_def)
  finally show ?thesis by (simp add: add.commute)
qed

theorem tampered_payload_reported_witness:
  "verify_chain [sample_first, sample_second\<lparr>ev_payload := JNull\<rparr>] =
     (if payload_digest JNull = payload_digest (ev_payload sample_second) then Inr (True, None)
      else Inr (False, Some ''payload hash mismatch at sequence 2''))"
  using tampered_payload_reported [of "[sample_first]" sample_second "[]" JNull] sample_chain
  by (simp add: int_dec_def nat_dec.simps digit_chars)

text \<open>
  C10. The hashes do not bind the history to its head. In a verified chain any record but the
  last can be given another payload, another event type, actor and time: with its own hash
  recomputed and the link of the next record alone adjusted, the chain verifies, no later hash
  changes, and the manifest body, and with it the signature, is the one of the true history.
\<close>

theorem head_hash_does_not_bind_history:
  assumes "verify_chain (xs @ r # s # ys) = Inr (True, None)"
  shows "let forged = xs @ r\<lparr>ev_payload := p, ev_payload_hash := payload_digest p, ev_event_type := ty,
                            ev_actor := ac, ev_observed_at := tm\<rparr>
                      # s\<lparr>ev_previous_hash := payload_digest p\<rparr> # ys
         in verify_chain forged = Inr (True, None) \<and>
            manifest_body ten run forged True None = manifest_body ten run (xs @ r # s # ys) True None"
proof -
  have "verify_from 1 GENESIS_HASH xs = Inr (True, None)"
    and "verify_from (1 + int (length xs)) (if xs = [] then GENESIS_HASH else ev_payload_hash (last xs))
           (r # s # ys) = Inr (True, None)"
    using assms unfolding verify_chain_def verify_from_append_ok by blast+
  then have "verify_chain (xs @ r\<lparr>ev_payload := p, ev_payload_hash := payload_digest p, ev_event_type := ty,
                            ev_actor := ac, ev_observed_at := tm\<rparr>
                      # s\<lparr>ev_previous_hash := payload_digest p\<rparr> # ys) = Inr (True, None)"
    unfolding verify_chain_def verify_from_append_ok verify_from_ok_Cons by auto
  then show ?thesis by (simp add: manifest_body_def Let_def)
qed

theorem head_hash_does_not_bind_history_witness:
  "let forged = [sample_first\<lparr>ev_payload := JNull, ev_payload_hash := payload_digest JNull,
                   ev_event_type := ''forged'', ev_actor := ''nobody'', ev_observed_at := 5\<rparr>,
                 sample_second\<lparr>ev_previous_hash := payload_digest JNull\<rparr>]
   in verify_chain forged = Inr (True, None) \<and>
      manifest_body ''t'' ''r'' forged True None
        = manifest_body ''t'' ''r'' [sample_first, sample_second] True None"
  using head_hash_does_not_bind_history [of "[]" sample_first sample_second "[]" 5 "''nobody''" "''forged''" JNull
      "''t''" "''r''"] sample_chain
  by simp

text \<open>
  C11. Cutting a verified chain short leaves a verified chain: the check alone does not notice
  that the latest records are gone. Removing a record before the end is noticed, at its number.
\<close>

theorem truncation_and_removal:
  assumes "verify_chain (xs @ r # s # ys) = Inr (True, None)"
  shows "verify_chain (xs @ [r]) = Inr (True, None) \<and> verify_chain xs = Inr (True, None) \<and>
     verify_chain (xs @ s # ys) = Inr (False, Some (''expected sequence '' @ int_dec (int (length xs) + 1)))"
proof -
  have xs: "verify_from 1 GENESIS_HASH xs = Inr (True, None)"
    and rest: "verify_from (1 + int (length xs)) (if xs = [] then GENESIS_HASH else ev_payload_hash (last xs))
           (r # s # ys) = Inr (True, None)"
    using assms unfolding verify_chain_def verify_from_append_ok by blast+
  from rest have s: "ev_sequence_no s = 2 + int (length xs)"
    unfolding verify_from_ok_Cons by simp
  have "verify_chain (xs @ [r]) = Inr (True, None)"
    using xs rest unfolding verify_chain_def verify_from_append_ok verify_from_ok_Cons by simp
  moreover have "verify_chain (xs @ s # ys) = Inr (False, Some (''expected sequence '' @ int_dec (int (length xs) + 1)))"
    using s unfolding verify_chain_def verify_from_append [OF xs] by (simp add: add.commute)
  ultimately show ?thesis using xs unfolding verify_chain_def by simp
qed

theorem truncation_and_removal_witness:
  "verify_chain [sample_first] = Inr (True, None) \<and>
   verify_chain [sample_second] = Inr (False, Some ''expected sequence 1'')"
  using truncation_and_removal [of "[]" sample_first sample_second "[]"] sample_chain
  by (simp add: int_dec_def nat_dec.simps digit_chars)

text \<open>A world whose database holds these two records.\<close>

definition sample_world :: world where
  "sample_world =
     \<lparr>w_db = (new_store '':memory:'')\<lparr>evidences := [stored sample_first, stored sample_second]\<rparr>,
      w_clock = (\<lambda>n. int n), w_ticks = 0, w_uuid_src = (\<lambda>n. nat_dec n), w_uuids = 0,
      w_ext = \<lparr>ex_log = [], ex_reply = (\<lambda>log rq. Inr \<lparr>hr_status = 204, hr_body = JNull\<rparr>)\<rparr>,
      w_threads = []\<rparr>"

lemma sample_ledger_inv: "ledger_inv (w_db sample_world)"
  by (simp add: ledger_inv_def sample_world_def of_run_def sample_first_def sample_second_def
      new_record_def stored_def payload_digest_def)

text \<open>
  C12. The manifest \<open>manifest()\<close> returns for a run of a chained ledger exists, reports the
  chain as valid, and is accepted by \<open>verify_manifest\<close> under the signing key.
\<close>

theorem manifest_verifies:
  assumes "ledger_inv (w_db w)"
  shows "\<exists>man. ledger_manifest key ten run w = (Inr man, w) \<and> verify_manifest key man = Inr True \<and>
     dict_get man ''chain_valid'' = Some (JBool True) \<and>
     dict_get man ''record_count''
       = Some (JInt (int (length (filter (of_run ten run) (evidences (w_db w))))))"
proof -
  obtain recs where recs: "ledger_records ten run w = (Inr recs, w)" "verify_chain recs = Inr (True, None)"
      "map ev_evidence_id recs = map ev_evidence_id (filter (of_run ten run) (evidences (w_db w)))"
    using ledger_records_ok [OF assms] .
  from recs(3) have len: "length recs = length (filter (of_run ten run) (evidences (w_db w)))"
    by (metis length_map)
  let ?body = "manifest_body ten run recs True None"
  let ?man = "?body @ [(''signature'', JStr (sign_text key ?body))]"
  have "ledger_manifest key ten run w = (Inr ?man, w)"
    using recs(1,2) by (simp add: ledger_manifest_def bnd_def lift_def ret_def Let_def)
  moreover have "verify_manifest key ?man = Inr True"
    by (rule verify_own_manifest) (simp_all add: manifest_body_def)
  moreover have "dict_get ?man ''chain_valid'' = Some (JBool True)"
    by (subst dict_get_distinct) (simp_all add: manifest_body_def)
  moreover have "dict_get ?man ''record_count'' = Some (JInt (int (length recs)))"
    by (subst dict_get_distinct) (simp_all add: manifest_body_def)
  ultimately show ?thesis unfolding len by blast
qed

theorem manifest_verifies_witness:
  "\<exists>man. ledger_manifest ''key'' ''t'' ''r'' sample_world = (Inr man, sample_world) \<and>
     verify_manifest ''key'' man = Inr True \<and> dict_get man ''record_count'' = Some (JInt 2)"
  using manifest_verifies [of sample_world "''key''" "''t''" "''r''"] sample_ledger_inv
  by (auto simp: sample_world_def of_run_def sample_first_def sample_second_def)

text \<open>
  C13. \<open>append\<close> is atomic over evidence and outbox. When it raises, the database is as before.
  When it returns a record, exactly two rows are new: the record, with a fresh id and the
  number and link that follow the run's last record, and a pending outbox event with the same
  id, with no attempts.
\<close>

theorem append_is_atomic:
  "case ledger_append ten run ty pl ac pv co w of
     (Inl e, w') \<Rightarrow> w_db w' = w_db w
   | (Inr rec, w') \<Rightarrow>
       \<exists>row. find_run ten run (w_db w) = Some row \<and>
         w_db w' = (w_db w)\<lparr>evidences := evidences (w_db w) @ [stored rec],
                            event_outbox := event_outbox (w_db w) @ [outbox_event rec row]\<rparr> \<and>
         ev_sequence_no rec = (case last_evidence ten run (w_db w) of None \<Rightarrow> 1 | Some p \<Rightarrow> ev_sequence_no p + 1) \<and>
         ev_previous_hash rec = (case last_evidence ten run (w_db w) of None \<Rightarrow> GENESIS_HASH | Some p \<Rightarrow> ev_payload_hash p) \<and>
         ob_event_id (outbox_event rec row) = ev_evidence_id rec \<and>
         ob_status (outbox_event rec row) = O_PENDING \<and> ob_attempts (outbox_event rec row) = 0 \<and>
         (\<forall>x \<in> set (event_outbox (w_db w)). ob_event_id x \<noteq> ev_evidence_id rec)"
proof (cases "ledger_append ten run ty pl ac pv co w")
  case (Pair res w')
  show ?thesis
  proof (cases res)
    case (Inl e)
    with Pair ledger_append_Inl [of ten run ty pl ac pv co w e w'] show ?thesis by simp
  next
    case (Inr rec)
    with Pair have "ledger_append ten run ty pl ac pv co w = (Inr rec, w')" by simp
    then show ?thesis
      using Pair Inr
      by (elim ledger_append_Inr) (auto simp: new_record_def outbox_event_def has_event_def)
  qed
qed

definition sample_run :: run_row where
  "sample_run = \<lparr>rn_run_id = ''r'', rn_tenant_id = ''t'', rn_agent_id = ''a'', rn_parent_run_id = None,
     rn_identity_ref = ''i'', rn_started_at = 0, rn_stopped_at = None, rn_state = RUNNING, rn_correlation_id = ''c'',
     rn_policy_version = 1, rn_shutdown_requested_at = None, rn_deadline_at = None,
     rn_shutdown_idempotency_key = None\<rparr>"

definition sample_run_world :: world where
  "sample_run_world = sample_world\<lparr>w_db := (w_db sample_world)\<lparr>runs := [sample_run]\<rparr>\<rparr>"

lemma sample_last: "last_evidence ''t'' ''r'' (w_db sample_run_world) = Some (stored sample_second)"
  by (simp add: last_evidence_def select_evidence_def sample_run_world_def sample_world_def of_run_def
      sample_first_def sample_second_def new_record_def stored_def)

lemma sample_append:
  "\<exists>rec w'. ledger_append ''t'' ''r'' ''shutdown.requested'' [] ''responder'' 1 ''c'' sample_run_world = (Inr rec, w')"
proof -
  let ?w = sample_run_world
  have ids: "ev_evidence_id x \<noteq> ''0'' \<and> ev_sequence_no x \<noteq> 3" if "x \<in> set (evidences (w_db ?w))" for x
    using that by (auto simp: sample_run_world_def sample_world_def sample_first_def sample_second_def new_record_def)
  have uuid: "w_uuid_src ?w (w_uuids ?w) = ''0''"
    by (simp add: sample_run_world_def sample_world_def nat_dec.simps digit_chars)
  have seq: "ev_sequence_no sample_second = 2" by (simp add: sample_first_def sample_second_def new_record_def)
  have run: "find_run ''t'' ''r'' (w_db ?w) = Some sample_run" and new: "\<not> has_event ''0'' (w_db ?w)"
    by (simp_all add: sample_run_world_def sample_world_def new_store_def find_run_def sample_run_def has_event_def)
  show ?thesis
    by (rule exI, rule exI, rule ledger_append_runs [OF run refl])
      (use ids new in \<open>simp_all add: sample_last uuid seq new_record_def\<close>)
qed

theorem append_is_atomic_witness:
  "\<exists>rec w'. ledger_append ''t'' ''r'' ''shutdown.requested'' [] ''responder'' 1 ''c'' sample_run_world = (Inr rec, w') \<and>
     ev_sequence_no rec = 3 \<and> length (evidences (w_db w')) = 3 \<and> length (event_outbox (w_db w')) = 1"
proof -
  obtain rec w' where run: "ledger_append ''t'' ''r'' ''shutdown.requested'' [] ''responder'' 1 ''c'' sample_run_world = (Inr rec, w')"
    using sample_append by blast
  have n: "ev_sequence_no (stored sample_second) = 2" "length (evidences (w_db sample_run_world)) = 2"
      "length (event_outbox (w_db sample_run_world)) = 0"
    by (simp_all add: sample_first_def sample_second_def new_record_def sample_run_world_def sample_world_def new_store_def)
  show ?thesis
    using append_is_atomic [where w = sample_run_world and ten = "''t''" and run = "''r''" and ty = "''shutdown.requested''" and pl = "[]"
        and ac = "''responder''" and pv = 1 and co = "''c''"] run n
    by (auto simp: sample_last)
qed

end
