(* ===== verification/Adapters.thy ===== *)
theory Adapters
  imports Evidence
begin

text \<open>
  \<open>asv/adapters.py\<close>: the protocol of a shutdown adapter, the default adapter that observes
  nothing, and the synthetic adapter of drills and tests. An adapter acts on the outside only
  (\<^typ>\<open>ext\<close>): it is handed a run and never sees the database. The locale states what the
  orchestrator relies on.
\<close>

section \<open>The run handed to an adapter\<close>

record run_view = run_row +
  rv_probes :: "json probe_row list"
  rv_delegated_jobs :: "job_row list"

record adapter_run = run_view +
  ar_agent :: "json agent_row"

lemma run_extend_sel [simp]:
  "rn_run_id (run_row.extend r m) = rn_run_id r" "rn_tenant_id (run_row.extend r m) = rn_tenant_id r"
  "rn_agent_id (run_row.extend r m) = rn_agent_id r" "rn_parent_run_id (run_row.extend r m) = rn_parent_run_id r"
  "rn_identity_ref (run_row.extend r m) = rn_identity_ref r" "rn_started_at (run_row.extend r m) = rn_started_at r"
  "rn_stopped_at (run_row.extend r m) = rn_stopped_at r" "rn_state (run_row.extend r m) = rn_state r"
  "rn_correlation_id (run_row.extend r m) = rn_correlation_id r"
  "rn_policy_version (run_row.extend r m) = rn_policy_version r"
  "rn_shutdown_requested_at (run_row.extend r m) = rn_shutdown_requested_at r"
  "rn_deadline_at (run_row.extend r m) = rn_deadline_at r"
  "rn_shutdown_idempotency_key (run_row.extend r m) = rn_shutdown_idempotency_key r"
  "rv_probes (run_row.extend r (run_view.fields ps js)) = ps"
  "rv_delegated_jobs (run_row.extend r (run_view.fields ps js)) = js"
  by (simp_all add: run_row.defs run_view.defs)

lemma view_extend_sel [simp]:
  "rn_run_id (run_view.extend v m) = rn_run_id v" "rn_tenant_id (run_view.extend v m) = rn_tenant_id v"
  "rn_agent_id (run_view.extend v m) = rn_agent_id v" "rn_state (run_view.extend v m) = rn_state v"
  "rn_identity_ref (run_view.extend v m) = rn_identity_ref v"
  "rn_correlation_id (run_view.extend v m) = rn_correlation_id v"
  "rn_policy_version (run_view.extend v m) = rn_policy_version v"
  "rn_stopped_at (run_view.extend v m) = rn_stopped_at v"
  "rn_deadline_at (run_view.extend v m) = rn_deadline_at v"
  "rn_shutdown_requested_at (run_view.extend v m) = rn_shutdown_requested_at v"
  "rv_probes (run_view.extend v m) = rv_probes v"
  "rv_delegated_jobs (run_view.extend v m) = rv_delegated_jobs v"
  "ar_agent (run_view.extend v (adapter_run.fields a)) = a"
  by (simp_all add: run_view.defs adapter_run.defs)

section \<open>The protocol\<close>

record adapter =
  ad_fence :: "adapter_run \<Rightarrow> json dict ext_m"
  ad_stop_process :: "adapter_run \<Rightarrow> json dict ext_m"
  ad_discover_children :: "adapter_run \<Rightarrow> json dict ext_m"
  ad_probe :: "string \<Rightarrow> adapter_run \<Rightarrow> observation ext_m"
  ad_restart :: "adapter_run \<Rightarrow> observation ext_m"

text \<open>
  The contract: a probe of one of the five kinds answers for this kind, and a restart answers
  for the kind \<open>restart\<close>. Adapters may fail, and may answer anything else as they like.
\<close>

locale shutdown_adapter =
  fixes A :: adapter
  assumes probe_kind:
      "k \<in> set PROBE_KINDS \<Longrightarrow> ad_probe A k run x = (Inr ob, x') \<Longrightarrow> obs_kind ob = k"
    and restart_kind: "ad_restart A run x = (Inr ob, x') \<Longrightarrow> obs_kind ob = ''restart''"

section \<open>\<open>SafeUnknownAdapter\<close>\<close>

definition unknown_fence :: "adapter_run \<Rightarrow> json dict ext_m" where
  "unknown_fence run = ext_ret
     [(''accepted'', JBool False), (''reason'', JStr ''no external fencing adapter configured'')]"

definition unknown_stop_process :: "adapter_run \<Rightarrow> json dict ext_m" where
  "unknown_stop_process run = ext_ret
     [(''accepted'', JBool False), (''reason'', JStr ''no Kubernetes adapter configured'')]"

definition unknown_discover_children :: "adapter_run \<Rightarrow> json dict ext_m" where
  "unknown_discover_children run = ext_ret [(''observable'', JBool False), (''children'', JArr [])]"

definition unknown_probe :: "string \<Rightarrow> adapter_run \<Rightarrow> observation ext_m" where
  "unknown_probe kind run =
     (if kind \<notin> set PROBE_KINDS then
        ext_throw (Exn ValueError (''unsupported probe kind: '' @ kind))
      else ext_ret
        \<lparr>obs_kind = kind, obs_result = P_UNKNOWN,
         obs_observed = [(''reason'', JStr (kind @ '' adapter is not configured''))],
         obs_authority = ''control-plane'', obs_confidence = ''none''\<rparr>)"

definition unknown_restart :: "adapter_run \<Rightarrow> observation ext_m" where
  "unknown_restart run = ext_ret
     \<lparr>obs_kind = ''restart'', obs_result = P_UNKNOWN,
      obs_observed = [(''reason'', JStr ''no authorized restart adapter configured'')],
      obs_authority = ''control-plane'', obs_confidence = ''none''\<rparr>"

definition SafeUnknownAdapter :: adapter where
  "SafeUnknownAdapter =
     \<lparr>ad_fence = unknown_fence, ad_stop_process = unknown_stop_process,
      ad_discover_children = unknown_discover_children, ad_probe = unknown_probe,
      ad_restart = unknown_restart\<rparr>"

section \<open>\<open>SyntheticAdapter\<close>\<close>

definition synthetic_accept :: "adapter_run \<Rightarrow> json dict ext_m" where
  "synthetic_accept run = ext_ret [(''accepted'', JBool True), (''synthetic'', JBool True)]"

definition synthetic_discover_children :: "adapter_run \<Rightarrow> json dict ext_m" where
  "synthetic_discover_children run = ext_ret [(''observable'', JBool True), (''children'', JArr [])]"

definition synthetic_probe :: "probe_result dict \<Rightarrow> string \<Rightarrow> adapter_run \<Rightarrow> observation ext_m" where
  "synthetic_probe outcomes kind run =
     (let result = (case dict_get outcomes kind of None \<Rightarrow> P_UNKNOWN | Some r \<Rightarrow> r)
      in ext_ret
        \<lparr>obs_kind = kind, obs_result = result,
         obs_observed = [(''synthetic'', JBool True), (''outcome'', JStr (result_value result))],
         obs_authority = ''synthetic-test-adapter'', obs_confidence = ''deterministic''\<rparr>)"

definition synthetic_restart :: "probe_result dict \<Rightarrow> adapter_run \<Rightarrow> observation ext_m" where
  "synthetic_restart outcomes run = ext_ret
     \<lparr>obs_kind = ''restart'',
      obs_result = (case dict_get outcomes ''restart'' of None \<Rightarrow> PASS | Some r \<Rightarrow> r),
      obs_observed = [(''synthetic'', JBool True), (''restarted'', JBool True),
                      (''policy_version'', JInt (rn_policy_version run)),
                      (''old_identity_active'', JBool False)],
      obs_authority = ''synthetic-test-adapter'', obs_confidence = ''deterministic''\<rparr>"

definition SyntheticAdapter :: "probe_result dict \<Rightarrow> adapter" where
  "SyntheticAdapter outcomes =
     \<lparr>ad_fence = synthetic_accept, ad_stop_process = synthetic_accept,
      ad_discover_children = synthetic_discover_children, ad_probe = synthetic_probe outcomes,
      ad_restart = synthetic_restart outcomes\<rparr>"

section \<open>Both satisfy the protocol\<close>

lemmas adapter_defs = ext_ret_def ext_throw_def SafeUnknownAdapter_def unknown_fence_def
  unknown_stop_process_def unknown_discover_children_def unknown_probe_def unknown_restart_def
  SyntheticAdapter_def synthetic_accept_def synthetic_discover_children_def synthetic_probe_def
  synthetic_restart_def

interpretation safe_unknown: shutdown_adapter SafeUnknownAdapter
  by unfold_locales (auto simp: adapter_defs)

interpretation synthetic: shutdown_adapter "SyntheticAdapter outcomes" for outcomes
  by unfold_locales (auto simp: adapter_defs Let_def)

end
