(* ===== verification/Registry.thy ===== *)
theory Registry
  imports Adapters
begin

text \<open>
  The run registry of \<open>asv/service.py\<close>: \<open>register_agent\<close>, \<open>create_run\<close>, the two lookups
  \<open>get_agent\<close> and \<open>get_run\<close>, and the helpers \<open>_adapter_run\<close> and \<open>_append_event\<close>.
  A request is the decoded JSON object of the call.
\<close>

section \<open>\<open>ControlPlane.__init__\<close>\<close>

record control_plane =
  cp_signing_key :: string
  cp_adapter :: adapter
  cp_deadline_seconds :: int
  cp_recovery_lease_seconds :: int
  cp_worker_id :: string

text \<open>
  \<open>EvidenceLedger.__init__\<close> refuses an empty key; without an adapter the control plane takes
  the one that observes nothing.
\<close>

definition new_control_plane :: "string \<Rightarrow> adapter option \<Rightarrow> int \<Rightarrow> int \<Rightarrow> control_plane m" where
  "new_control_plane signing_key adapter deadline_seconds recovery_lease_seconds =
     (if signing_key = [] then throw (Exn ValueError ''signing key must not be empty'')
      else bnd uuid4 (\<lambda>worker_id. ret
        \<lparr>cp_signing_key = signing_key,
         cp_adapter = (case adapter of None \<Rightarrow> SafeUnknownAdapter | Some a \<Rightarrow> a),
         cp_deadline_seconds = deadline_seconds,
         cp_recovery_lease_seconds = recovery_lease_seconds,
         cp_worker_id = worker_id\<rparr>))"

section \<open>Conversions of request values\<close>

text \<open>The class names \<open>type(x).__name__\<close> that occur in messages.\<close>

fun type_name :: "json \<Rightarrow> string" where
  "type_name JNull = ''NoneType''"
| "type_name (JBool b) = ''bool''"
| "type_name (JInt i) = ''int''"
| "type_name (JStr s) = ''str''"
| "type_name (JArr xs) = ''list''"
| "type_name (JObj kvs) = ''dict''"

definition apostrophe :: string where
  "apostrophe = [CHR 0x27]"

text \<open>\<open>x[key]\<close>: the error where \<open>x\<close> is not a dictionary or does not have the key.\<close>

fun subscript_error :: "json \<Rightarrow> exn" where
  "subscript_error (JArr xs) = Exn TypeError ''list indices must be integers or slices, not str''"
| "subscript_error (JStr s) =
     Exn TypeError (''string indices must be integers, not '' @ apostrophe @ ''str'' @ apostrophe)"
| "subscript_error v =
     Exn TypeError (apostrophe @ type_name v @ apostrophe @ '' object is not subscriptable'')"

definition key_error :: "string \<Rightarrow> exn" where
  "key_error key = Exn KeyError (py_repr_str key)"

definition subscript :: "json \<Rightarrow> string \<Rightarrow> exn + json" where
  "subscript v key =
     (case v of
        JObj kvs \<Rightarrow> (case dict_get kvs key of None \<Rightarrow> Inl (key_error key) | Some x \<Rightarrow> Inr x)
      | _ \<Rightarrow> Inl (subscript_error v))"

text \<open>\<open>int(x)\<close>.\<close>

fun py_int :: "json \<Rightarrow> exn + int" where
  "py_int (JInt i) = Inr i"
| "py_int (JBool b) = Inr (if b then 1 else 0)"
| "py_int (JStr s) =
     (case parse_int s of
        Some i \<Rightarrow> Inr i
      | None \<Rightarrow> Inl (Exn ValueError (''invalid literal for int() with base 10: '' @ py_repr_str s)))"
| "py_int v = Inl (Exn TypeError
     (''int() argument must be a string, a bytes-like object or a real number, not ''
        @ apostrophe @ type_name v @ apostrophe))"

definition int64 :: "int \<Rightarrow> bool" where
  "int64 i \<longleftrightarrow> - (2 ^ 63) \<le> i \<and> i < 2 ^ 63"

definition sqlite_overflow :: exn where
  "sqlite_overflow = Exn OverflowError ''Python int too large to convert to SQLite INTEGER''"

text \<open>
  A value bound to the \<open>n\<close>-th parameter, a text column: SQLite turns numbers into text, \<open>None\<close> into NULL, and the
  driver refuses lists and dictionaries.
\<close>

fun bind_text :: "nat \<Rightarrow> json \<Rightarrow> exn + string option" where
  "bind_text n (JStr s) = Inr (Some s)"
| "bind_text n (JInt i) = (if int64 i then Inr (Some (int_dec i)) else Inl sqlite_overflow)"
| "bind_text n (JBool b) = Inr (Some (if b then ''1'' else ''0''))"
| "bind_text n JNull = Inr None"
| "bind_text n v = Inl (Exn (OtherError ''ProgrammingError'')
     (''Error binding parameter '' @ nat_dec n @ '': type '' @ apostrophe @ type_name v @ apostrophe
        @ '' is not supported''))"

definition missing_fields :: "string list \<Rightarrow> json dict \<Rightarrow> string list" where
  "missing_fields required request =
     filter (\<lambda>field. \<not> py_truthy (get_or_null request field)) required"

definition missing_error :: "string list \<Rightarrow> exn" where
  "missing_error missing = Exn ValidationError (''missing required fields: '' @ join '', '' missing)"

text \<open>\<open>str(request[field])\<close> of a field that is there.\<close>

definition str_field :: "json dict \<Rightarrow> string \<Rightarrow> string" where
  "str_field request field = py_str (get_or_null request field)"

section \<open>\<open>register_agent\<close>\<close>

definition lower_hex :: "char \<Rightarrow> bool" where
  "lower_hex c \<longleftrightarrow> is_digit c \<or> (97 \<le> (of_char c :: nat) \<and> (of_char c :: nat) \<le> 102)"

text \<open>\<open>DIGEST_PATTERN.fullmatch\<close>.\<close>

definition digest_matches :: "string \<Rightarrow> bool" where
  "digest_matches s \<longleftrightarrow>
     starts_with s ''sha256:'' \<and> length (drop 7 s) = 64 \<and> list_all lower_hex (drop 7 s)"

definition agent_required :: "string list" where
  "agent_required = [''tenant_id'', ''name'', ''image_digest'', ''namespace'', ''scope_owner'']"

definition encode_agent :: "json agent_row \<Rightarrow> string agent_row" where
  "encode_agent a =
     \<lparr>ag_agent_id = ag_agent_id a, ag_tenant_id = ag_tenant_id a, ag_name = ag_name a,
      ag_image_digest = ag_image_digest a, ag_namespace = ag_namespace a,
      ag_scope_owner = ag_scope_owner a,
      ag_declared_scope = dumps True '' '' (ag_declared_scope a),
      ag_status = ag_status a, ag_created_at = ag_created_at a\<rparr>"

definition register_agent :: "json dict \<Rightarrow> json agent_row m" where
  "register_agent request =
     (let missing = missing_fields agent_required request in
      if missing \<noteq> [] then throw (missing_error missing)
      else if \<not> digest_matches (str_field request ''image_digest'') then
        throw (Exn ValidationError ''image_digest must be an immutable sha256 digest'')
      else (case get_or_null request ''declared_scope'' of
        JObj declared_scope \<Rightarrow>
          bnd uuid4 (\<lambda>agent_id.
          bnd utc_now (\<lambda>created_at.
          let agent =
            \<lparr>ag_agent_id = agent_id, ag_tenant_id = str_field request ''tenant_id'',
             ag_name = str_field request ''name'', ag_image_digest = str_field request ''image_digest'',
             ag_namespace = str_field request ''namespace'',
             ag_scope_owner = str_field request ''scope_owner'',
             ag_declared_scope = JObj declared_scope, ag_status = ''REGISTERED'',
             ag_created_at = created_at\<rparr>
          in seq (transaction (exec_checked (insert_agent (encode_agent agent)))) (ret agent)))
      | _ \<Rightarrow> throw (Exn ValidationError ''declared_scope must be a JSON object'')))"

section \<open>\<open>_append_event\<close>, \<open>create_run\<close>\<close>

definition append_event :: "'a run_row_scheme \<Rightarrow> string \<Rightarrow> json dict \<Rightarrow> string \<Rightarrow> unit m" where
  "append_event run event_type payload actor =
     bnd (ledger_append (rn_tenant_id run) (rn_run_id run) event_type payload actor
            (rn_policy_version run) (rn_correlation_id run)) (\<lambda>_. ret ())"

definition find_agent :: "string \<Rightarrow> string \<Rightarrow> db \<Rightarrow> string agent_row option" where
  "find_agent tenant_id agent_id d =
     find (\<lambda>a. ag_tenant_id a = tenant_id \<and> ag_agent_id a = agent_id) (agents d)"

definition run_required :: "string list" where
  "run_required = [''tenant_id'', ''agent_id'', ''identity_ref'']"

text \<open>The lookup of the parent, where the request names one.\<close>

definition check_parent :: "string \<Rightarrow> string \<Rightarrow> json \<Rightarrow> unit m" where
  "check_parent tenant_id agent_id parent_run_id =
     (if \<not> py_truthy parent_run_id then ret ()
      else bnd (lift (bind_text 2 parent_run_id)) (\<lambda>key.
           bnd (query (\<lambda>d. case key of None \<Rightarrow> None | Some k \<Rightarrow> find_run tenant_id k d)) (\<lambda>parent.
           case parent of
             None \<Rightarrow> throw (Exn NotFoundError ''parent run not found for tenant'')
           | Some p \<Rightarrow>
               if rn_agent_id p \<noteq> agent_id then
                 throw (Exn ValidationError ''parent run belongs to a different agent'')
               else ret ())))"

text \<open>\<open>str(request.get(field) or uuid.uuid4())\<close>.\<close>

definition given_or_uuid :: "json \<Rightarrow> string m" where
  "given_or_uuid v = (if py_truthy v then ret (py_str v) else uuid4)"

text \<open>\<open>int(request.get("policy_version", 1))\<close>.\<close>

definition policy_of :: "json dict \<Rightarrow> exn + int" where
  "policy_of request = py_int (case dict_get request ''policy_version'' of None \<Rightarrow> JInt 1 | Some v \<Rightarrow> v)"

text \<open>
  The insert: the driver refuses a number beyond 64 bits; a violated constraint, whichever it
  is, is reported as a taken correlation id.
\<close>

definition insert_new_run :: "run_row \<Rightarrow> unit m" where
  "insert_new_run run =
     (if \<not> int64 (rn_policy_version run) then throw sqlite_overflow
      else catch (exec_checked (insert_run run))
        (\<lambda>e. if exn_class e = IntegrityError
             then throw (Exn ConflictError ''correlation_id already exists'') else throw e))"

definition create_run :: "json dict \<Rightarrow> run_row m" where
  "create_run request =
     (let missing = missing_fields run_required request in
      if missing \<noteq> [] then throw (missing_error missing)
      else
        (let tenant_id = str_field request ''tenant_id'';
             agent_id = str_field request ''agent_id'';
             parent_run_id = get_or_null request ''parent_run_id''
         in bnd (transaction (
              bnd (query (find_agent tenant_id agent_id)) (\<lambda>agent.
              case agent of
                None \<Rightarrow> throw (Exn NotFoundError ''agent not found for tenant'')
              | Some _ \<Rightarrow>
                  seq (check_parent tenant_id agent_id parent_run_id)
                 (bnd (given_or_uuid (get_or_null request ''_run_id'')) (\<lambda>run_id.
                  bnd utc_now (\<lambda>started_at.
                  bnd (given_or_uuid (get_or_null request ''correlation_id'')) (\<lambda>correlation_id.
                  bnd (lift (policy_of request)) (\<lambda>policy_version.
                  bnd (lift (bind_text 4 parent_run_id)) (\<lambda>parent.
                  let run =
                    \<lparr>rn_run_id = run_id, rn_tenant_id = tenant_id, rn_agent_id = agent_id,
                     rn_parent_run_id = parent, rn_identity_ref = str_field request ''identity_ref'',
                     rn_started_at = started_at, rn_stopped_at = None, rn_state = RUNNING,
                     rn_correlation_id = correlation_id, rn_policy_version = policy_version,
                     rn_shutdown_requested_at = None, rn_deadline_at = None,
                     rn_shutdown_idempotency_key = None\<rparr>
                  in seq (insert_new_run run) (ret run)))))))))) (\<lambda>run.
            seq (append_event run ''agent.run.started'' [(''state'', JStr (state_value (rn_state run)))]
                   ''agent-adapter'')
                (ret run))))"

section \<open>\<open>get_agent\<close>, \<open>get_run\<close>, \<open>_adapter_run\<close>\<close>

text \<open>\<open>Store.row\<close> of an agent and of a probe.\<close>

definition load_agent :: "string agent_row \<Rightarrow> exn + json agent_row" where
  "load_agent a =
     (case py_loads (ag_declared_scope a) of
        Inl e \<Rightarrow> Inl e
      | Inr scope \<Rightarrow> Inr
          \<lparr>ag_agent_id = ag_agent_id a, ag_tenant_id = ag_tenant_id a, ag_name = ag_name a,
           ag_image_digest = ag_image_digest a, ag_namespace = ag_namespace a,
           ag_scope_owner = ag_scope_owner a, ag_declared_scope = scope,
           ag_status = ag_status a, ag_created_at = ag_created_at a\<rparr>)"

definition load_probe :: "string probe_row \<Rightarrow> exn + json probe_row" where
  "load_probe p =
     (case py_loads (pb_observed p) of
        Inl e \<Rightarrow> Inl e
      | Inr observed \<Rightarrow> Inr
          \<lparr>pb_probe_id = pb_probe_id p, pb_tenant_id = pb_tenant_id p, pb_run_id = pb_run_id p,
           pb_kind = pb_kind p, pb_target = pb_target p, pb_requested_at = pb_requested_at p,
           pb_completed_at = pb_completed_at p, pb_result = pb_result p, pb_observed = observed,
           pb_authority = pb_authority p, pb_confidence = pb_confidence p\<rparr>)"

definition get_agent :: "string \<Rightarrow> string \<Rightarrow> json agent_row m" where
  "get_agent tenant_id agent_id =
     bnd (query (find_agent tenant_id agent_id)) (\<lambda>row.
     case row of
       None \<Rightarrow> throw (Exn NotFoundError ''agent not found for tenant'')
     | Some a \<Rightarrow> lift (load_agent a))"

text \<open>The probes in the order of \<open>requested_at, kind\<close>, the jobs in that of \<open>discovered_at, external_id\<close>.\<close>

definition select_probes :: "string \<Rightarrow> string \<Rightarrow> db \<Rightarrow> string probe_row list" where
  "select_probes tenant_id run_id d =
     sort_key (\<lambda>p. (pb_requested_at p, pb_kind p))
       (filter (\<lambda>p. pb_tenant_id p = tenant_id \<and> pb_run_id p = run_id) (probes d))"

definition select_jobs :: "string \<Rightarrow> string \<Rightarrow> db \<Rightarrow> job_row list" where
  "select_jobs tenant_id run_id d =
     sort_key (\<lambda>j. (jb_discovered_at j, jb_external_id j))
       (filter (\<lambda>j. jb_tenant_id j = tenant_id \<and> jb_run_id j = run_id) (delegated_jobs d))"

definition get_run :: "string \<Rightarrow> string \<Rightarrow> run_view m" where
  "get_run tenant_id run_id =
     bnd (query (find_run tenant_id run_id)) (\<lambda>row.
     case row of
       None \<Rightarrow> throw (Exn NotFoundError ''run not found for tenant'')
     | Some run \<Rightarrow>
         bnd (query (select_probes tenant_id run_id)) (\<lambda>ps.
         bnd (query (select_jobs tenant_id run_id)) (\<lambda>jobs.
         bnd (lift (collect load_probe ps)) (\<lambda>loaded.
         ret (run_row.extend run (run_view.fields loaded jobs))))))"

definition adapter_run_of :: "string \<Rightarrow> string \<Rightarrow> adapter_run m" where
  "adapter_run_of tenant_id run_id =
     bnd (get_run tenant_id run_id) (\<lambda>run.
     bnd (get_agent tenant_id (rn_agent_id run)) (\<lambda>agent.
     ret (run_view.extend run (adapter_run.fields agent))))"

end
