(* ===== verification/Orchestrator.thy ===== *)
theory Orchestrator
  imports Registry
begin

text \<open>
  The shutdown orchestrator of \<open>asv/service.py\<close>: the work leases, the state transitions, the
  persisted probes and delegated jobs, \<open>_orchestrate\<close>, \<open>request_shutdown\<close> and
  \<open>recover_incomplete_shutdowns\<close>. A call to the adapter runs on the outside; a thread that is
  started is queued in the world and runs later (theory System).
\<close>

section \<open>Work leases\<close>

definition insert_or_ignore_work :: "work_row \<Rightarrow> db \<Rightarrow> exn + db" where
  "insert_or_ignore_work r d =
     (if \<exists>x \<in> set (shutdown_works d). wk_run_id x = wk_run_id r then Inr d
      else guarded [(foreign_keys d \<and> \<not> has_run (wk_run_id r) d, fk_message)]
        (d\<lparr>shutdown_works := shutdown_works d @ [r]\<rparr>))"

definition new_work :: "string \<Rightarrow> string \<Rightarrow> instant \<Rightarrow> work_row" where
  "new_work run_id tenant_id now =
     \<lparr>wk_run_id = run_id, wk_tenant_id = tenant_id, wk_status = W_PENDING, wk_attempts = 0,
      wk_lease_owner = None, wk_lease_expires_at = None, wk_last_error = None, wk_updated_at = now\<rparr>"

text \<open>The condition of the claiming update: not complete, and no lease or an expired one.\<close>

definition claimable :: "string \<Rightarrow> instant \<Rightarrow> work_row \<Rightarrow> bool" where
  "claimable run_id now x \<longleftrightarrow>
     wk_run_id x = run_id \<and> wk_status x \<noteq> W_COMPLETE \<and>
     (wk_lease_owner x = None \<or> (case wk_lease_expires_at x of None \<Rightarrow> False | Some e \<Rightarrow> e \<le> now))"

definition take_lease :: "string \<Rightarrow> instant \<Rightarrow> instant \<Rightarrow> work_row \<Rightarrow> work_row" where
  "take_lease lease_owner lease_until now x =
     x\<lparr>wk_status := W_RUNNING, wk_attempts := wk_attempts x + 1, wk_lease_owner := Some lease_owner,
       wk_lease_expires_at := Some lease_until, wk_last_error := None, wk_updated_at := now\<rparr>"

definition claim_shutdown_work :: "control_plane \<Rightarrow> string \<Rightarrow> string \<Rightarrow> string option m" where
  "claim_shutdown_work cp tenant_id run_id =
     bnd utc_now (\<lambda>now.
     bnd utc_now (\<lambda>now2.
     bnd (lift (plus_seconds now2 (cp_recovery_lease_seconds cp))) (\<lambda>lease_until.
     bnd uuid4 (\<lambda>u.
     let lease_owner = cp_worker_id cp @ '':'' @ u in
     transaction (
       seq (exec_checked (insert_or_ignore_work (new_work run_id tenant_id now)))
      (bnd (query (\<lambda>d. length (filter (claimable run_id now) (shutdown_works d)))) (\<lambda>rowcount.
       seq (exec (\<lambda>d. d\<lparr>shutdown_works :=
              sql_update (claimable run_id now) (take_lease lease_owner lease_until now) (shutdown_works d)\<rparr>))
           (ret (if rowcount = 1 then Some lease_owner else None)))))))))"

definition leased_by :: "string \<Rightarrow> string \<Rightarrow> work_row \<Rightarrow> bool" where
  "leased_by run_id lease_owner x \<longleftrightarrow> wk_run_id x = run_id \<and> wk_lease_owner x = Some lease_owner"

definition renew_shutdown_lease :: "control_plane \<Rightarrow> string \<Rightarrow> string \<Rightarrow> unit m" where
  "renew_shutdown_lease cp run_id lease_owner =
     bnd utc_now (\<lambda>now.
     bnd (lift (plus_seconds now (cp_recovery_lease_seconds cp))) (\<lambda>lease_until.
     transaction (bnd utc_now (\<lambda>updated_at.
       exec (\<lambda>d. d\<lparr>shutdown_works :=
         sql_update (leased_by run_id lease_owner)
           (\<lambda>x. x\<lparr>wk_lease_expires_at := Some lease_until, wk_updated_at := updated_at\<rparr>)
           (shutdown_works d)\<rparr>)))))"

definition complete_work :: "string option \<Rightarrow> instant \<Rightarrow> work_row \<Rightarrow> work_row" where
  "complete_work last_error now x =
     x\<lparr>wk_status := W_COMPLETE, wk_lease_owner := None, wk_lease_expires_at := None,
       wk_last_error := last_error, wk_updated_at := now\<rparr>"

definition finish_shutdown_work :: "string \<Rightarrow> string \<Rightarrow> unit m" where
  "finish_shutdown_work run_id lease_owner =
     transaction (bnd utc_now (\<lambda>now.
       exec (\<lambda>d. d\<lparr>shutdown_works :=
         sql_update (leased_by run_id lease_owner) (complete_work None now) (shutdown_works d)\<rparr>)))"

definition fail_shutdown_work :: "string \<Rightarrow> string \<Rightarrow> exn \<Rightarrow> unit m" where
  "fail_shutdown_work run_id lease_owner error =
     transaction (bnd utc_now (\<lambda>now.
       exec (\<lambda>d. d\<lparr>shutdown_works :=
         sql_update (leased_by run_id lease_owner)
           (complete_work (Some (class_name (exn_class error) @ '': '' @ exn_message error)) now)
           (shutdown_works d)\<rparr>)))"

section \<open>Transitions, probes, delegated jobs\<close>

definition deadline_expired :: "'a run_row_scheme \<Rightarrow> bool m" where
  "deadline_expired run =
     (case rn_deadline_at run of
        None \<Rightarrow> ret False
      | Some deadline \<Rightarrow> bnd utc_now (\<lambda>now. ret (deadline \<le> now)))"

definition set_state :: "string \<Rightarrow> string \<Rightarrow> shutdown_state \<Rightarrow> instant option \<Rightarrow> db \<Rightarrow> db" where
  "set_state tenant_id run_id state stopped_at d =
     d\<lparr>runs := sql_update (\<lambda>r. rn_tenant_id r = tenant_id \<and> rn_run_id r = run_id)
       (\<lambda>r. r\<lparr>rn_state := state,
              rn_stopped_at := (case stopped_at of None \<Rightarrow> rn_stopped_at r | Some t \<Rightarrow> Some t)\<rparr>)
       (runs d)\<rparr>"

definition transition ::
  "'a run_row_scheme \<Rightarrow> shutdown_state \<Rightarrow> string \<Rightarrow> json dict \<Rightarrow> string \<Rightarrow> bool \<Rightarrow> unit m" where
  "transition run state event_type payload actor stopped =
     bnd (if stopped then bnd utc_now (\<lambda>t. ret (Some t)) else ret None) (\<lambda>stopped_at.
     seq (transaction (exec (set_state (rn_tenant_id run) (rn_run_id run) state stopped_at)))
         (append_event run event_type (dict_merge [(''state'', JStr (state_value state))] payload) actor))"

definition opt_iso :: "instant option \<Rightarrow> json" where
  "opt_iso t = (case t of None \<Rightarrow> JNull | Some t \<Rightarrow> iso_json t)"

definition expire_shutdown :: "'a run_row_scheme \<Rightarrow> string \<Rightarrow> unit m" where
  "expire_shutdown run lease_owner =
     seq (transition run S_UNKNOWN ''shutdown.recovery.deadline.exceeded''
            [(''deadline_at'', opt_iso (rn_deadline_at run))] ''recovery-worker'' True)
         (finish_shutdown_work (rn_run_id run) lease_owner)"

definition save_probe :: "'a run_row_scheme \<Rightarrow> observation \<Rightarrow> string \<Rightarrow> string \<Rightarrow> unit m" where
  "save_probe run ob event_type actor =
     bnd utc_now (\<lambda>requested_at.
     seq (transaction (
            bnd uuid4 (\<lambda>probe_id.
            bnd utc_now (\<lambda>completed_at.
            exec_checked (insert_probe
              \<lparr>pb_probe_id = probe_id, pb_tenant_id = rn_tenant_id run, pb_run_id = rn_run_id run,
               pb_kind = obs_kind ob, pb_target = ''synthetic/'' @ obs_kind ob,
               pb_requested_at = requested_at, pb_completed_at = completed_at,
               pb_result = obs_result ob,
               pb_observed = dumps True '' '' (JObj (obs_observed ob)),
               pb_authority = obs_authority ob, pb_confidence = obs_confidence ob\<rparr>)))))
         (append_event run event_type (to_dict ob) actor))"

definition no_attribute :: "json \<Rightarrow> string \<Rightarrow> exn" where
  "no_attribute v attr = Exn AttributeError
     (apostrophe @ type_name v @ apostrophe @ '' object has no attribute '' @ apostrophe @ attr @ apostrophe)"

text \<open>\<open>x.get(key, default)\<close> where \<open>x\<close> need not be a dictionary.\<close>

definition attr_get :: "json \<Rightarrow> string \<Rightarrow> json \<Rightarrow> exn + json" where
  "attr_get v key dflt =
     (case v of
        JObj kvs \<Rightarrow> Inr (case dict_get kvs key of None \<Rightarrow> dflt | Some x \<Rightarrow> x)
      | _ \<Rightarrow> Inl (no_attribute v ''get''))"

text \<open>What a \<open>for\<close> loop over a value visits.\<close>

fun py_iter :: "json \<Rightarrow> exn + json list" where
  "py_iter (JArr xs) = Inr xs"
| "py_iter (JObj kvs) = Inr (map (\<lambda>(k, v). JStr k) (dict_of kvs))"
| "py_iter (JStr s) = Inr (map (\<lambda>c. JStr [c]) s)"
| "py_iter v = Inl (Exn TypeError (apostrophe @ type_name v @ apostrophe @ '' object is not iterable''))"

text \<open>\<open>v in (None, [], 0)\<close>: \<open>False\<close> equals 0.\<close>

definition no_active :: "json \<Rightarrow> bool" where
  "no_active v \<longleftrightarrow> v = JNull \<or> v = JArr [] \<or> v = JInt 0 \<or> v = JBool False"

definition child_state :: "json \<Rightarrow> json \<Rightarrow> job_state" where
  "child_state status active =
     (if \<not> no_active active then J_ACTIVE else if py_truthy status then J_INACTIVE else J_UNKNOWN)"

definition same_job :: "job_row \<Rightarrow> job_row \<Rightarrow> bool" where
  "same_job r x \<longleftrightarrow>
     jb_run_id x = jb_run_id r \<and> jb_system x = jb_system r \<and> jb_external_id x = jb_external_id r"

definition upsert_job :: "job_row \<Rightarrow> db \<Rightarrow> exn + db" where
  "upsert_job r d =
     (if list_ex (same_job r) (delegated_jobs d) then
        Inr (d\<lparr>delegated_jobs := sql_update (same_job r)
               (\<lambda>x. x\<lparr>jb_state := jb_state r, jb_discovered_at := jb_discovered_at r\<rparr>) (delegated_jobs d)\<rparr>)
      else guarded
        [(\<exists>x \<in> set (delegated_jobs d). jb_job_id x = jb_job_id r, ''UNIQUE constraint failed: delegated_job.job_id''),
         (foreign_keys d \<and> \<not> has_run (jb_run_id r) d, fk_message)]
        (d\<lparr>delegated_jobs := delegated_jobs d @ [r]\<rparr>))"

definition save_job :: "'a run_row_scheme \<Rightarrow> json \<Rightarrow> unit m" where
  "save_job run child =
     bnd (lift (attr_get child ''status'' (JObj []))) (\<lambda>status.
     bnd (lift (attr_get status ''active'' JNull)) (\<lambda>active.
     bnd uuid4 (\<lambda>job_id.
     bnd (lift (attr_get child ''kind'' (JStr ''unknown''))) (\<lambda>kind.
     bnd (lift (attr_get child ''name'' (JStr ''unknown''))) (\<lambda>name.
     bnd utc_now (\<lambda>discovered_at.
     exec_checked (upsert_job
       \<lparr>jb_job_id = job_id, jb_tenant_id = rn_tenant_id run, jb_run_id = rn_run_id run,
        jb_system = ''kubernetes:'' @ py_str kind, jb_external_id = py_str name,
        jb_state = child_state status active, jb_discovered_at = discovered_at\<rparr>)))))))"

definition save_delegated_jobs :: "'a run_row_scheme \<Rightarrow> json \<Rightarrow> unit m" where
  "save_delegated_jobs run children =
     transaction (bnd (lift (py_iter children)) (\<lambda>xs. for_each xs (save_job run)))"

section \<open>\<open>_orchestrate\<close>\<close>

text \<open>
  The four phases before probing. Each runs when the state is the one it starts from, and
  hands on the run as it is stored afterwards.
\<close>

definition phase_fence ::
  "control_plane \<Rightarrow> adapter \<Rightarrow> string \<Rightarrow> string \<Rightarrow> string \<Rightarrow> string \<Rightarrow>
     adapter_run \<times> shutdown_state \<Rightarrow> (adapter_run \<times> shutdown_state) m" where
  "phase_fence cp ad tenant_id run_id actor lease = (\<lambda>(run, state).
     if state = REQUESTED then
       seq (renew_shutdown_lease cp run_id lease)
      (bnd (lift_ext (ad_fence ad run)) (\<lambda>result.
       seq (transition run FENCING ''shutdown.fenced'' result actor False)
      (bnd (adapter_run_of tenant_id run_id) (\<lambda>run'. ret (run', FENCING)))))
     else ret (run, state))"

definition phase_stop ::
  "control_plane \<Rightarrow> adapter \<Rightarrow> string \<Rightarrow> string \<Rightarrow> string \<Rightarrow> string \<Rightarrow>
     adapter_run \<times> shutdown_state \<Rightarrow> (adapter_run \<times> shutdown_state) m" where
  "phase_stop cp ad tenant_id run_id actor lease = (\<lambda>(run, state).
     if state = FENCING then
       seq (renew_shutdown_lease cp run_id lease)
      (bnd (lift_ext (ad_stop_process ad run)) (\<lambda>result.
       seq (transition run PROCESS_STOP_SENT ''shutdown.process.stop.sent'' result actor False)
      (bnd (adapter_run_of tenant_id run_id) (\<lambda>run'. ret (run', PROCESS_STOP_SENT)))))
     else ret (run, state))"

definition phase_discover ::
  "control_plane \<Rightarrow> adapter \<Rightarrow> string \<Rightarrow> string \<Rightarrow> string \<Rightarrow> string \<Rightarrow>
     adapter_run \<times> shutdown_state \<Rightarrow> (adapter_run \<times> shutdown_state) m" where
  "phase_discover cp ad tenant_id run_id actor lease = (\<lambda>(run, state).
     if state = PROCESS_STOP_SENT then
       seq (renew_shutdown_lease cp run_id lease)
      (bnd (lift_ext (ad_discover_children ad run)) (\<lambda>discovery.
       seq (save_delegated_jobs run
              (case dict_get discovery ''children'' of None \<Rightarrow> JArr [] | Some c \<Rightarrow> c))
      (seq (transition run CHILD_DISCOVERY ''agent.child.discovered'' discovery actor False)
      (bnd (adapter_run_of tenant_id run_id) (\<lambda>run'. ret (run', CHILD_DISCOVERY))))))
     else ret (run, state))"

definition phase_probing ::
  "string \<Rightarrow> string \<Rightarrow> string \<Rightarrow> adapter_run \<times> shutdown_state \<Rightarrow> (adapter_run \<times> shutdown_state) m" where
  "phase_probing tenant_id run_id actor = (\<lambda>(run, state).
     if state = CHILD_DISCOVERY then
       seq (transition run PROBING ''shutdown.probe.requested''
              [(''kinds'', JArr (map JStr PROBE_KINDS))] actor False)
      (bnd (adapter_run_of tenant_id run_id) (\<lambda>run'. ret (run', PROBING)))
     else ret (run, state))"

text \<open>
  The loop over the probe kinds; \<^const>\<open>None\<close> is the early return after the deadline.
\<close>

fun probe_loop ::
  "control_plane \<Rightarrow> adapter \<Rightarrow> string \<Rightarrow> string \<Rightarrow> adapter_run \<Rightarrow> string list \<Rightarrow> probe_result dict \<Rightarrow>
     probe_result dict option m" where
  "probe_loop cp ad run_id lease run [] existing = ret (Some existing)"
| "probe_loop cp ad run_id lease run (kind # kinds) existing =
     (if dict_get existing kind \<noteq> None then probe_loop cp ad run_id lease run kinds existing
      else bnd (deadline_expired run) (\<lambda>expired.
        if expired then seq (expire_shutdown run lease) (ret None)
        else
          seq (renew_shutdown_lease cp run_id lease)
         (bnd (lift_ext (ad_probe ad kind run)) (\<lambda>ob.
          seq (save_probe run ob ''shutdown.probe.result'' ''probe-runner'')
              (probe_loop cp ad run_id lease run kinds (AList.update kind (obs_result ob) existing))))))"

text \<open>\<open>{probe["kind"]: ProbeResult(probe["result"]) for probe in run["probes"]}\<close>.\<close>

definition existing_results :: "adapter_run \<Rightarrow> probe_result dict" where
  "existing_results run = dict_of (map (\<lambda>p. (pb_kind p, pb_result p)) (rv_probes run))"

definition final_results :: "probe_result dict \<Rightarrow> probe_result list" where
  "final_results existing =
     map (\<lambda>kind. case dict_get existing kind of None \<Rightarrow> P_UNKNOWN | Some r \<Rightarrow> r) PROBE_KINDS"

definition complete_shutdown ::
  "string \<Rightarrow> string \<Rightarrow> string \<Rightarrow> string \<Rightarrow> probe_result dict \<Rightarrow> unit m" where
  "complete_shutdown tenant_id run_id actor lease existing =
     (let results = final_results existing; terminal_state = aggregate_probe_results results in
      bnd (get_run tenant_id run_id) (\<lambda>run.
      seq (transition run terminal_state ''shutdown.completed''
             [(''result'', JStr (state_value terminal_state)),
              (''probe_results'', JArr (map (\<lambda>r. JStr (result_value r)) results))] actor True)
          (finish_shutdown_work run_id lease)))"

definition run_probes ::
  "control_plane \<Rightarrow> adapter \<Rightarrow> string \<Rightarrow> string \<Rightarrow> string \<Rightarrow> string \<Rightarrow> adapter_run \<times> shutdown_state \<Rightarrow> unit m" where
  "run_probes cp ad tenant_id run_id actor lease = (\<lambda>(run, state).
     if state \<noteq> PROBING then
       if terminal state then finish_shutdown_work run_id lease
       else throw (Exn RuntimeError (''cannot orchestrate shutdown from state '' @ state_value state))
     else
       bnd (probe_loop cp ad run_id lease run PROBE_KINDS (existing_results run)) (\<lambda>existing.
       case existing of
         None \<Rightarrow> ret ()
       | Some ex \<Rightarrow> complete_shutdown tenant_id run_id actor lease ex))"

definition orchestrate_body ::
  "control_plane \<Rightarrow> string \<Rightarrow> string \<Rightarrow> string \<Rightarrow> adapter \<Rightarrow> bool \<Rightarrow> string \<Rightarrow> unit m" where
  "orchestrate_body cp tenant_id run_id actor ad recovering lease =
     bnd (adapter_run_of tenant_id run_id) (\<lambda>run.
     seq (if recovering then
            append_event run ''shutdown.recovery.resumed''
              [(''state'', JStr (state_value (rn_state run))), (''worker_id'', JStr (cp_worker_id cp))]
              ''recovery-worker''
          else ret ())
    (bnd (deadline_expired run) (\<lambda>expired.
     if expired then expire_shutdown run lease
     else
       bnd (phase_fence cp ad tenant_id run_id actor lease (run, rn_state run)) (\<lambda>s1.
       bnd (phase_stop cp ad tenant_id run_id actor lease s1) (\<lambda>s2.
       bnd (phase_discover cp ad tenant_id run_id actor lease s2) (\<lambda>s3.
       bnd (phase_probing tenant_id run_id actor s3) (\<lambda>s4.
       run_probes cp ad tenant_id run_id actor lease s4)))))))"

definition orchestrate_failed :: "string \<Rightarrow> string \<Rightarrow> string \<Rightarrow> exn \<Rightarrow> unit m" where
  "orchestrate_failed tenant_id run_id lease error =
     seq (fail_shutdown_work run_id lease error)
         (catch
           (bnd (get_run tenant_id run_id) (\<lambda>run.
              transition run FAILED ''shutdown.completed''
                [(''result'', JStr ''FAILED''), (''error'', JStr (class_name (exn_class error))),
                 (''message'', JStr (exn_message error))] ''orchestrator'' True))
           (\<lambda>_. ret ()))"

definition orchestrate ::
  "control_plane \<Rightarrow> string \<Rightarrow> string \<Rightarrow> string \<Rightarrow> adapter \<Rightarrow> bool \<Rightarrow> string option \<Rightarrow> unit m" where
  "orchestrate cp tenant_id run_id actor ad recovering lease_owner =
     bnd (case lease_owner of
            Some l \<Rightarrow> ret (Some l)
          | None \<Rightarrow> claim_shutdown_work cp tenant_id run_id) (\<lambda>lease.
     case lease of
       None \<Rightarrow> ret ()
     | Some l \<Rightarrow>
         catch (orchestrate_body cp tenant_id run_id actor ad recovering l)
               (orchestrate_failed tenant_id run_id l))"

section \<open>\<open>request_shutdown\<close>\<close>

text \<open>The adapter object a reference stands for.\<close>

definition resolve_adapter :: "control_plane \<Rightarrow> adapter_ref \<Rightarrow> adapter" where
  "resolve_adapter cp ref =
     (case ref of ConfiguredAdapter \<Rightarrow> cp_adapter cp | SyntheticOutcomes outcomes \<Rightarrow> SyntheticAdapter outcomes)"

record receipt =
  rcp_run_id :: string
  rcp_correlation_id :: string
  rcp_requested_at :: "instant option"
  rcp_deadline_at :: "instant option"
  rcp_state :: shutdown_state

definition shutdown_receipt :: "'a run_row_scheme \<Rightarrow> receipt" where
  "shutdown_receipt run =
     \<lparr>rcp_run_id = rn_run_id run, rcp_correlation_id = rn_correlation_id run,
      rcp_requested_at = rn_shutdown_requested_at run, rcp_deadline_at = rn_deadline_at run,
      rcp_state = rn_state run\<rparr>"

definition mark_requested :: "instant \<Rightarrow> instant \<Rightarrow> string \<Rightarrow> run_row \<Rightarrow> run_row" where
  "mark_requested requested_at deadline_at idempotency_key r =
     r\<lparr>rn_state := REQUESTED, rn_shutdown_requested_at := Some requested_at,
       rn_deadline_at := Some deadline_at, rn_shutdown_idempotency_key := Some idempotency_key\<rparr>"

definition request_run :: "string \<Rightarrow> string \<Rightarrow> instant \<Rightarrow> instant \<Rightarrow> string \<Rightarrow> db \<Rightarrow> db" where
  "request_run tenant_id run_id requested_at deadline_at idempotency_key d =
     d\<lparr>runs := sql_update (\<lambda>r. rn_tenant_id r = tenant_id \<and> rn_run_id r = run_id)
       (mark_requested requested_at deadline_at idempotency_key) (runs d)\<rparr>"

definition request_work :: "string \<Rightarrow> string \<Rightarrow> instant \<Rightarrow> db \<Rightarrow> exn + db" where
  "request_work tenant_id run_id requested_at d = guarded
     [(\<not> (\<exists>x \<in> set (shutdown_works d). wk_run_id x = run_id) \<and> foreign_keys d \<and> \<not> has_run run_id d, fk_message)]
     (d\<lparr>shutdown_works := sql_upsert (\<lambda>x. wk_run_id x = run_id)
          (\<lambda>x. x\<lparr>wk_status := W_PENDING, wk_updated_at := requested_at\<rparr>)
          (new_work run_id tenant_id requested_at) (shutdown_works d)\<rparr>)"

text \<open>
  The transaction: the receipt of an earlier request with the same key, or the run as it is
  now requested.
\<close>

definition record_request ::
  "control_plane \<Rightarrow> string \<Rightarrow> string \<Rightarrow> string \<Rightarrow> (receipt + run_row) m" where
  "record_request cp tenant_id run_id idempotency_key =
     transaction (
       bnd (query (find_run tenant_id run_id)) (\<lambda>row.
       case row of
         None \<Rightarrow> throw (Exn NotFoundError ''run not found for tenant'')
       | Some run \<Rightarrow>
           if rn_shutdown_requested_at run \<noteq> None then
             if rn_shutdown_idempotency_key run \<noteq> Some idempotency_key then
               throw (Exn ConflictError ''shutdown already requested with a different idempotency key'')
             else ret (Inl (shutdown_receipt run))
           else
             bnd utc_now (\<lambda>requested_at.
             bnd utc_now (\<lambda>now.
             bnd (lift (plus_seconds now (cp_deadline_seconds cp))) (\<lambda>deadline_at.
             seq (exec (request_run tenant_id run_id requested_at deadline_at idempotency_key))
            (seq (exec_checked (request_work tenant_id run_id requested_at))
            (ret (Inr (mark_requested requested_at deadline_at idempotency_key run)))))))))"

definition request_shutdown ::
  "control_plane \<Rightarrow> string \<Rightarrow> string \<Rightarrow> string \<Rightarrow> string \<Rightarrow> bool \<Rightarrow> adapter_ref \<Rightarrow> receipt m" where
  "request_shutdown cp tenant_id run_id actor idempotency_key asynchronous adapter =
     (if actor = [] then throw (Exn ValidationError ''actor is required'')
      else if idempotency_key = [] then throw (Exn ValidationError ''Idempotency-Key header is required'')
      else bnd (record_request cp tenant_id run_id idempotency_key) (\<lambda>outcome.
        case outcome of
          Inl receipt \<Rightarrow> ret receipt
        | Inr run \<Rightarrow>
            seq (append_event run ''shutdown.requested''
                   [(''deadline_at'', opt_iso (rn_deadline_at run))] actor)
           (seq (if asynchronous then
                   start_thread \<lparr>th_tenant_id = tenant_id, th_run_id = run_id, th_actor = actor,
                     th_adapter = adapter, th_recovering = False, th_lease_owner = None\<rparr>
                 else orchestrate cp tenant_id run_id actor (resolve_adapter cp adapter) False None)
           (ret (shutdown_receipt run)))))"

section \<open>\<open>recover_incomplete_shutdowns\<close>\<close>

text \<open>\<open>{kind: ProbeResult(str(outcomes[kind])) for kind in PROBE_KINDS}\<close>.\<close>

definition invalid_result :: "string \<Rightarrow> exn" where
  "invalid_result s = Exn ValueError (py_repr_str s @ '' is not a valid ProbeResult'')"

definition parse_outcomes :: "json dict \<Rightarrow> exn + probe_result dict" where
  "parse_outcomes outcomes =
     collect (\<lambda>kind. let s = py_str (get_or_null outcomes kind) in
        case result_of s of None \<Rightarrow> Inl (invalid_result s) | Some r \<Rightarrow> Inr (kind, r)) PROBE_KINDS"

definition exact_kinds :: "json dict \<Rightarrow> bool" where
  "exact_kinds outcomes \<longleftrightarrow> set (map fst outcomes) = set PROBE_KINDS"

definition recovery_adapter :: "string \<Rightarrow> string \<Rightarrow> adapter_ref m" where
  "recovery_adapter tenant_id run_id =
     bnd (query (\<lambda>d. find (\<lambda>r. dr_tenant_id r = tenant_id \<and> dr_run_id r = Some run_id) (drills d))) (\<lambda>row.
     case row of
       None \<Rightarrow> ret ConfiguredAdapter
     | Some r \<Rightarrow>
         bnd (lift (py_loads (dr_request_payload r))) (\<lambda>request.
         bnd (lift (attr_get request ''outcomes'' JNull)) (\<lambda>outcomes.
         case outcomes of
           JObj kvs \<Rightarrow>
             if exact_kinds kvs then
               bnd (lift (parse_outcomes kvs)) (\<lambda>rs. ret (SyntheticOutcomes rs))
             else ret ConfiguredAdapter
         | _ \<Rightarrow> ret ConfiguredAdapter)))"

definition incomplete_runs :: "db \<Rightarrow> run_row list" where
  "incomplete_runs d =
     sort_key (\<lambda>r. case rn_shutdown_requested_at r of None \<Rightarrow> 0 | Some t \<Rightarrow> t)
       (filter (\<lambda>r. rn_shutdown_requested_at r \<noteq> None \<and> \<not> terminal (rn_state r)) (runs d))"

record recovery_counts =
  rec_resumed :: nat
  rec_expired :: nat
  rec_busy :: nat

definition recover_run :: "control_plane \<Rightarrow> bool \<Rightarrow> run_row \<Rightarrow> recovery_counts \<Rightarrow> recovery_counts m" where
  "recover_run cp asynchronous run c =
     bnd (deadline_expired run) (\<lambda>expired.
     bnd (claim_shutdown_work cp (rn_tenant_id run) (rn_run_id run)) (\<lambda>lease.
     case lease of
       None \<Rightarrow> ret (c\<lparr>rec_busy := rec_busy c + 1\<rparr>)
     | Some l \<Rightarrow>
         if expired then seq (expire_shutdown run l) (ret (c\<lparr>rec_expired := rec_expired c + 1\<rparr>))
         else
           bnd (recovery_adapter (rn_tenant_id run) (rn_run_id run)) (\<lambda>adapter.
           seq (if asynchronous then
                  start_thread \<lparr>th_tenant_id = rn_tenant_id run, th_run_id = rn_run_id run,
                    th_actor = ''recovery-worker'', th_adapter = adapter, th_recovering = True,
                    th_lease_owner = Some l\<rparr>
                else orchestrate cp (rn_tenant_id run) (rn_run_id run) ''recovery-worker''
                       (resolve_adapter cp adapter) True (Some l))
               (ret (c\<lparr>rec_resumed := rec_resumed c + 1\<rparr>)))))"

fun recover_runs :: "control_plane \<Rightarrow> bool \<Rightarrow> run_row list \<Rightarrow> recovery_counts \<Rightarrow> recovery_counts m" where
  "recover_runs cp asynchronous [] c = ret c"
| "recover_runs cp asynchronous (run # rows) c =
     bnd (recover_run cp asynchronous run c) (\<lambda>c'. recover_runs cp asynchronous rows c')"

definition recover_incomplete_shutdowns :: "control_plane \<Rightarrow> bool \<Rightarrow> recovery_counts m" where
  "recover_incomplete_shutdowns cp asynchronous =
     bnd (query incomplete_runs) (\<lambda>rows.
       recover_runs cp asynchronous rows \<lparr>rec_resumed = 0, rec_expired = 0, rec_busy = 0\<rparr>)"

end
