(* ===== verification/Reports.thy ===== *)
theory Reports
  imports Orchestrator
begin

text \<open>
  What \<open>asv/service.py\<close> does with a run after its shutdown: \<open>evidence\<close>, \<open>export_events\<close>,
  the signed report, the restart probe, and the dead letters of the outbox.
\<close>

section \<open>\<open>evidence\<close>, \<open>export_events\<close>\<close>

definition evidence :: "control_plane \<Rightarrow> string \<Rightarrow> string \<Rightarrow> (json evidence_row list \<times> json dict) m" where
  "evidence cp tenant_id run_id =
     bnd (get_run tenant_id run_id) (\<lambda>_.
     bnd (ledger_records tenant_id run_id) (\<lambda>records.
     bnd (ledger_manifest (cp_signing_key cp) tenant_id run_id) (\<lambda>manifest.
     ret (records, manifest))))"

definition export_event :: "run_view \<Rightarrow> string \<Rightarrow> json evidence_row \<Rightarrow> json dict" where
  "export_event run run_id rec =
     [(''event_id'', JStr (ev_evidence_id rec)),
      (''run_id'', JStr run_id),
      (''parent_run_id'', opt_json (rn_parent_run_id run)),
      (''agent_id'', JStr (rn_agent_id run)),
      (''correlation_id'', JStr (ev_correlation_id rec)),
      (''policy_version'', JInt (ev_policy_version rec)),
      (''occurred_at'', iso_json (ev_observed_at rec)),
      (''producer'', JStr (ev_actor rec)),
      (''schema_version'', JStr ''1.0''),
      (''idempotency_key'', JStr (run_id @ '':'' @ int_dec (ev_sequence_no rec))),
      (''event_type'', JStr (ev_event_type rec)),
      (''payload'', ev_payload rec)]"

definition export_events :: "string \<Rightarrow> string \<Rightarrow> (json dict list \<times> nat) m" where
  "export_events tenant_id run_id =
     bnd (get_run tenant_id run_id) (\<lambda>run.
     bnd (ledger_records tenant_id run_id) (\<lambda>records.
     let events = map (export_event run run_id) records in ret (events, length events)))"

section \<open>\<open>request_restart\<close>\<close>

datatype restart_result = RestartStored "json probe_row" | RestartObserved "json dict"

definition request_restart :: "control_plane \<Rightarrow> string \<Rightarrow> string \<Rightarrow> string \<Rightarrow> restart_result m" where
  "request_restart cp tenant_id run_id actor =
     bnd (adapter_run_of tenant_id run_id) (\<lambda>run.
     if \<not> terminal (rn_state run) then
       throw (Exn ConflictError ''restart probe requires a terminal shutdown state'')
     else
       (let existing = filter (\<lambda>p. pb_kind p = ''restart'') (rv_probes run) in
        if existing \<noteq> [] then ret (RestartStored (last existing))
        else
          bnd (lift_ext (ad_restart (cp_adapter cp) run)) (\<lambda>ob.
          seq (save_probe run ob ''shutdown.restart.probe.result'' actor)
              (ret (RestartObserved (to_dict ob))))))"

section \<open>\<open>report\<close>\<close>

fun job_state_value :: "job_state \<Rightarrow> string" where
  "job_state_value J_ACTIVE = ''ACTIVE''"
| "job_state_value J_INACTIVE = ''INACTIVE''"
| "job_state_value J_UNKNOWN = ''UNKNOWN''"

definition job_dict :: "job_row \<Rightarrow> json dict" where
  "job_dict j =
     [(''job_id'', JStr (jb_job_id j)), (''tenant_id'', JStr (jb_tenant_id j)),
      (''run_id'', JStr (jb_run_id j)), (''system'', JStr (jb_system j)),
      (''external_id'', JStr (jb_external_id j)), (''state'', JStr (job_state_value (jb_state j))),
      (''discovered_at'', iso_json (jb_discovered_at j))]"

definition report_body :: "string \<Rightarrow> string \<Rightarrow> instant \<Rightarrow> run_view \<Rightarrow> json dict \<Rightarrow> json dict" where
  "report_body tenant_id run_id generated_at run manifest =
     [(''report_version'', JStr ''1.0''),
      (''generated_at'', iso_json generated_at),
      (''tenant_id'', JStr tenant_id),
      (''run_id'', JStr run_id),
      (''agent_id'', JStr (rn_agent_id run)),
      (''correlation_id'', JStr (rn_correlation_id run)),
      (''policy_version'', JInt (rn_policy_version run)),
      (''shutdown_state'', JStr (state_value (rn_state run))),
      (''started_at'', iso_json (rn_started_at run)),
      (''stopped_at'', opt_iso (rn_stopped_at run)),
      (''probe_results'', JObj (dict_of (map (\<lambda>p. (pb_kind p, JStr (result_value (pb_result p)))) (rv_probes run)))),
      (''delegated_jobs'', JArr (map (\<lambda>j. JObj (job_dict j)) (rv_delegated_jobs run))),
      (''evidence_manifest'', JObj manifest)]"

definition report :: "control_plane \<Rightarrow> string \<Rightarrow> string \<Rightarrow> (json \<times> json) m" where
  "report cp tenant_id run_id =
     bnd (query (\<lambda>d. find (\<lambda>r. rp_tenant_id r = tenant_id \<and> rp_run_id r = run_id) (reports d))) (\<lambda>existing.
     case existing of
       Some r \<Rightarrow>
         bnd (lift (py_loads (rp_payload r))) (\<lambda>payload.
         bnd (lift (py_loads (rp_signature r))) (\<lambda>signature.
         ret (payload, signature)))
     | None \<Rightarrow>
         bnd (get_run tenant_id run_id) (\<lambda>run.
         if \<not> terminal (rn_state run) then
           throw (Exn ConflictError ''report is available only after shutdown reaches a terminal state'')
         else
           bnd (evidence cp tenant_id run_id) (\<lambda>(records, manifest).
           bnd utc_now (\<lambda>generated_at.
           let body = report_body tenant_id run_id generated_at run manifest;
               signature = sign_payload (cp_signing_key cp) body
           in seq (transaction (exec_checked (insert_report
                     \<lparr>rp_run_id = run_id, rp_tenant_id = tenant_id, rp_generated_at = generated_at,
                      rp_payload = canonical_json (JObj body),
                      rp_signature = canonical_json (JObj signature)\<rparr>)))
             (seq (append_event run ''shutdown.report.signed''
                     [(''report_hash'', JStr (payload_digest (JObj body))),
                      (''key_id'', JStr ''local-dev-hmac-v1'')] ''evidence-writer'')
                  (ret (JObj body, JObj signature)))))))"

section \<open>Dead letters\<close>

record dead_letter =
  dlt_event_id :: string
  dlt_run_id :: string
  dlt_attempts :: int
  dlt_last_error :: "string option"
  dlt_created_at :: instant
  dlt_dead_lettered_at :: "instant option"

definition find_delivery :: "string \<Rightarrow> db \<Rightarrow> delivery_row option" where
  "find_delivery event_id d = find (\<lambda>x. dl_event_id x = event_id) (event_delivery_state d)"

definition dead_letter_of :: "db \<Rightarrow> outbox_row \<Rightarrow> dead_letter" where
  "dead_letter_of d o' =
     \<lparr>dlt_event_id = ob_event_id o', dlt_run_id = ob_run_id o', dlt_attempts = ob_attempts o',
      dlt_last_error = ob_last_error o', dlt_created_at = ob_created_at o',
      dlt_dead_lettered_at =
        (case find_delivery (ob_event_id o') d of None \<Rightarrow> None | Some x \<Rightarrow> dl_dead_lettered_at x)\<rparr>"

text \<open>NULL sorts first.\<close>

definition null_first :: "instant option \<Rightarrow> nat \<times> instant" where
  "null_first t = (case t of None \<Rightarrow> (0, 0) | Some t \<Rightarrow> (1, t))"

definition select_dead_letters :: "string \<Rightarrow> nat \<Rightarrow> db \<Rightarrow> dead_letter list" where
  "select_dead_letters tenant_id limit d =
     take limit (sort_key (\<lambda>x. (null_first (dlt_dead_lettered_at x), dlt_created_at x))
       (map (dead_letter_of d)
         (filter (\<lambda>x. ob_tenant_id x = tenant_id \<and> ob_status x = O_DEAD_LETTER) (event_outbox d))))"

definition dead_letters :: "string \<Rightarrow> int \<Rightarrow> (dead_letter list \<times> nat) m" where
  "dead_letters tenant_id limit =
     (if limit < 1 \<or> limit > 1000 then
        throw (Exn ValidationError ''dead-letter limit must be between 1 and 1000'')
      else bnd (query (select_dead_letters tenant_id (nat limit))) (\<lambda>rows. ret (rows, length rows)))"

record requeue_receipt =
  rq_event_id :: string
  rq_run_id :: string
  rq_status :: outbox_status

definition find_event :: "string \<Rightarrow> string \<Rightarrow> db \<Rightarrow> outbox_row option" where
  "find_event tenant_id event_id d =
     find (\<lambda>x. ob_tenant_id x = tenant_id \<and> ob_event_id x = event_id) (event_outbox d)"

definition requeue_rows :: "string \<Rightarrow> string \<Rightarrow> int \<Rightarrow> db \<Rightarrow> db" where
  "requeue_rows tenant_id event_id attempts d =
     d\<lparr>event_outbox := sql_update (\<lambda>x. ob_tenant_id x = tenant_id \<and> ob_event_id x = event_id)
         (\<lambda>x. x\<lparr>ob_status := O_PENDING, ob_last_error := None, ob_delivered_at := None\<rparr>) (event_outbox d),
       event_delivery_state := filter (\<lambda>x. dl_event_id x \<noteq> event_id) (event_delivery_state d),
       event_retry_cycle := sql_upsert (\<lambda>x. rc_event_id x = event_id)
         (\<lambda>x. x\<lparr>rc_attempts_baseline := attempts\<rparr>)
         \<lparr>rc_event_id = event_id, rc_attempts_baseline = attempts\<rparr> (event_retry_cycle d)\<rparr>"

definition requeue_dead_letter :: "string \<Rightarrow> string \<Rightarrow> string \<Rightarrow> requeue_receipt m" where
  "requeue_dead_letter tenant_id event_id actor =
     bnd (transaction (
       bnd (query (find_event tenant_id event_id)) (\<lambda>row.
       case row of
         None \<Rightarrow> throw (Exn NotFoundError ''dead-letter event not found for tenant'')
       | Some x \<Rightarrow>
           if ob_status x \<noteq> O_DEAD_LETTER then
             throw (Exn ConflictError ''only dead-letter events can be requeued'')
           else seq (exec (requeue_rows tenant_id event_id (ob_attempts x))) (ret x)))) (\<lambda>x.
     bnd (get_run tenant_id (ob_run_id x)) (\<lambda>run.
     seq (append_event run ''siem.dead_letter.requeued'' [(''event_id'', JStr event_id)] actor)
         (ret \<lparr>rq_event_id = event_id, rq_run_id = ob_run_id x, rq_status = O_PENDING\<rparr>)))"

end
