(* ===== verification/Drills.thy ===== *)
theory Drills
  imports Reports
begin

text \<open>
  Drills of \<open>asv/service.py\<close>: the request of an author, the approval or rejection by someone
  else, the start of the drill, and \<open>recover_approved_drills\<close>.
\<close>

section \<open>\<open>_validate_drill_request\<close>\<close>

definition kinds_error :: exn where
  "kinds_error = Exn ValidationError (''simulated outcomes must contain exactly: '' @ join '', '' PROBE_KINDS)"

definition outcomes_error :: exn where
  "outcomes_error = Exn ValidationError ''probe outcomes must be PASS, FAIL, PARTIAL, or UNKNOWN''"

definition valid_result :: "json \<Rightarrow> bool" where
  "valid_result v \<longleftrightarrow> result_of (py_str v) \<noteq> None"

text \<open>The checks on the outcomes: absent, or an object with exactly the five kinds and valid results.\<close>

definition check_outcomes :: "json \<Rightarrow> exn + unit" where
  "check_outcomes raw =
     (case raw of
        JNull \<Rightarrow> Inr ()
      | JObj kvs \<Rightarrow>
          if \<not> exact_kinds kvs then Inl kinds_error
          else if \<not> list_all (\<lambda>(k, v). valid_result v) (dict_of kvs) then Inl outcomes_error
          else Inr ()
      | _ \<Rightarrow> Inl kinds_error)"

definition validate_drill_request :: "json dict \<Rightarrow> (string \<times> string) m" where
  "validate_drill_request request =
     (let tenant_id = py_str (case dict_get request ''tenant_id'' of None \<Rightarrow> JStr [] | Some v \<Rightarrow> v);
          agent_id = py_str (case dict_get request ''agent_id'' of None \<Rightarrow> JStr [] | Some v \<Rightarrow> v)
      in if tenant_id = [] \<or> agent_id = [] then
           throw (Exn ValidationError ''tenant_id and agent_id are required'')
         else bnd (get_agent tenant_id agent_id) (\<lambda>agent.
           if \<not> starts_with (ag_namespace agent) ''asv-'' then
             throw (Exn ValidationError ''synthetic drills require an asv-* namespace'')
           else bnd (lift (attr_get (ag_declared_scope agent) ''synthetic_only'' JNull)) (\<lambda>flag.
             if flag \<noteq> JBool True then
               throw (Exn ValidationError ''agent scope must explicitly set synthetic_only=true'')
             else bnd (lift (check_outcomes (get_or_null request ''outcomes''))) (\<lambda>_.
               ret (tenant_id, agent_id)))))"

section \<open>\<open>start_synthetic_drill\<close>\<close>

record drill_execution =
  dx_drill_id :: string
  dx_simulated :: bool
  dx_receipt :: receipt

text \<open>The adapter of the drill: synthetic where the request simulates the outcomes.\<close>

definition drill_adapter :: "json \<Rightarrow> exn + adapter_ref" where
  "drill_adapter raw =
     (case raw of
        JNull \<Rightarrow> Inr ConfiguredAdapter
      | JObj kvs \<Rightarrow>
          if \<not> exact_kinds kvs then Inl kinds_error
          else (case parse_outcomes kvs of
                  Inl _ \<Rightarrow> Inl outcomes_error
                | Inr outcomes \<Rightarrow> Inr (SyntheticOutcomes outcomes))
      | _ \<Rightarrow> Inl (Exn ValidationError ''outcomes must be a JSON object''))"

definition start_synthetic_drill ::
  "control_plane \<Rightarrow> json dict \<Rightarrow> string \<Rightarrow> bool \<Rightarrow> drill_execution m" where
  "start_synthetic_drill cp request actor asynchronous =
     bnd (validate_drill_request request) (\<lambda>(tenant_id, agent_id).
     let raw = get_or_null request ''outcomes'' in
     bnd (lift (drill_adapter raw)) (\<lambda>adapter.
     bnd (given_or_uuid (get_or_null request ''_drill_id'')) (\<lambda>drill_id.
     bnd (lift (policy_of request)) (\<lambda>policy_version.
     bnd (create_run
            [(''tenant_id'', JStr tenant_id), (''agent_id'', JStr agent_id),
             (''identity_ref'', JStr (''synthetic/drill/'' @ drill_id)),
             (''policy_version'', JInt policy_version),
             (''_run_id'', get_or_null request ''_run_id'')]) (\<lambda>run.
     bnd (request_shutdown cp tenant_id (rn_run_id run) actor (''drill:'' @ drill_id) asynchronous adapter)
       (\<lambda>receipt.
     ret \<lparr>dx_drill_id = drill_id, dx_simulated = (raw \<noteq> JNull), dx_receipt = receipt\<rparr>))))))"

section \<open>\<open>request_drill\<close>, \<open>get_drill\<close>\<close>

record drill_receipt =
  drc_drill_id :: string
  drc_status :: drill_status
  drc_requested_by :: string
  drc_requested_at :: instant
  drc_run_id :: string

definition request_drill :: "json dict \<Rightarrow> string \<Rightarrow> drill_receipt m" where
  "request_drill request actor =
     bnd (validate_drill_request request) (\<lambda>(tenant_id, agent_id).
     bnd uuid4 (\<lambda>drill_id.
     bnd uuid4 (\<lambda>planned_run_id.
     bnd utc_now (\<lambda>requested_at.
     bnd (lift (policy_of request)) (\<lambda>policy_version.
     let payload =
           [(''tenant_id'', JStr tenant_id), (''agent_id'', JStr agent_id),
            (''policy_version'', JInt policy_version)] @
           (case dict_get request ''outcomes'' of None \<Rightarrow> [] | Some v \<Rightarrow> [(''outcomes'', v)])
     in seq (transaction (exec_checked (insert_drill
               \<lparr>dr_drill_id = drill_id, dr_tenant_id = tenant_id, dr_agent_id = agent_id,
                dr_requested_by = actor, dr_requested_at = requested_at, dr_approved_by = None,
                dr_approved_at = None, dr_rejected_by = None, dr_rejected_at = None,
                dr_rejection_reason = None, dr_status = D_PENDING_APPROVAL,
                dr_request_payload = canonical_json (JObj payload),
                dr_run_id = Some planned_run_id\<rparr>)))
        (ret \<lparr>drc_drill_id = drill_id, drc_status = D_PENDING_APPROVAL, drc_requested_by = actor,
              drc_requested_at = requested_at, drc_run_id = planned_run_id\<rparr>))))))"

definition load_drill :: "string drill_row \<Rightarrow> exn + json drill_row" where
  "load_drill r =
     (case py_loads (dr_request_payload r) of
        Inl e \<Rightarrow> Inl e
      | Inr payload \<Rightarrow> Inr
          \<lparr>dr_drill_id = dr_drill_id r, dr_tenant_id = dr_tenant_id r, dr_agent_id = dr_agent_id r,
           dr_requested_by = dr_requested_by r, dr_requested_at = dr_requested_at r,
           dr_approved_by = dr_approved_by r, dr_approved_at = dr_approved_at r,
           dr_rejected_by = dr_rejected_by r, dr_rejected_at = dr_rejected_at r,
           dr_rejection_reason = dr_rejection_reason r, dr_status = dr_status r,
           dr_request_payload = payload, dr_run_id = dr_run_id r\<rparr>)"

text \<open>The drill, and the state of its run once it is started.\<close>

definition drill_key :: "string \<Rightarrow> string \<Rightarrow> 'j drill_row \<Rightarrow> bool" where
  "drill_key tenant_id drill_id r \<longleftrightarrow> dr_tenant_id r = tenant_id \<and> dr_drill_id r = drill_id"

definition get_drill :: "string \<Rightarrow> string \<Rightarrow> (json drill_row \<times> shutdown_state option) m" where
  "get_drill tenant_id drill_id =
     bnd (query (\<lambda>d. find (drill_key tenant_id drill_id) (drills d))) (\<lambda>row.
     case row of
       None \<Rightarrow> throw (Exn NotFoundError ''drill not found for tenant'')
     | Some r \<Rightarrow>
         bnd (lift (load_drill r)) (\<lambda>drill.
         case dr_run_id drill of
           None \<Rightarrow> ret (drill, None)
         | Some run_id \<Rightarrow>
             if run_id \<noteq> [] \<and> dr_status drill = D_STARTED then
               bnd (get_run tenant_id run_id) (\<lambda>run. ret (drill, Some (rn_state run)))
             else ret (drill, None)))"

section \<open>\<open>approve_drill\<close>, \<open>reject_drill\<close>\<close>

fun drill_status_value :: "drill_status \<Rightarrow> string" where
  "drill_status_value D_PENDING_APPROVAL = ''PENDING_APPROVAL''"
| "drill_status_value D_APPROVED = ''APPROVED''"
| "drill_status_value D_STARTED = ''STARTED''"
| "drill_status_value D_FAILED = ''FAILED''"
| "drill_status_value D_REJECTED = ''REJECTED''"

datatype approval =
    AlreadyStarted "json drill_row \<times> shutdown_state option"
  | Started drill_execution string instant

definition mark_approved :: "string \<Rightarrow> instant \<Rightarrow> string drill_row \<Rightarrow> string drill_row" where
  "mark_approved actor now r = r\<lparr>dr_status := D_APPROVED, dr_approved_by := Some actor, dr_approved_at := Some now\<rparr>"

definition mark_started :: "string \<Rightarrow> string drill_row \<Rightarrow> string drill_row" where
  "mark_started run_id r = r\<lparr>dr_status := D_STARTED, dr_run_id := Some run_id\<rparr>"

definition mark_failed :: "string drill_row \<Rightarrow> string drill_row" where
  "mark_failed r = r\<lparr>dr_status := D_FAILED\<rparr>"

definition mark_rejected :: "string \<Rightarrow> instant \<Rightarrow> string \<Rightarrow> string drill_row \<Rightarrow> string drill_row" where
  "mark_rejected actor now reason r =
     r\<lparr>dr_status := D_REJECTED, dr_rejected_by := Some actor, dr_rejected_at := Some now,
       dr_rejection_reason := Some reason\<rparr>"

definition update_drills :: "(string drill_row \<Rightarrow> bool) \<Rightarrow> (string drill_row \<Rightarrow> string drill_row) \<Rightarrow> db \<Rightarrow> db" where
  "update_drills P f d = d\<lparr>drills := sql_update P f (drills d)\<rparr>"

text \<open>\<open>{**drill["request_payload"], "_drill_id": ..., "_run_id": ...}\<close>.\<close>

definition start_request :: "json \<Rightarrow> string \<Rightarrow> string option \<Rightarrow> exn + json dict" where
  "start_request payload drill_id run_id =
     (case payload of
        JObj kvs \<Rightarrow> Inr (dict_merge kvs [(''_drill_id'', JStr drill_id), (''_run_id'', opt_json run_id)])
      | v \<Rightarrow> Inl (Exn TypeError (apostrophe @ type_name v @ apostrophe @ '' object is not a mapping'')))"

definition approve_drill ::
  "control_plane \<Rightarrow> string \<Rightarrow> string \<Rightarrow> string \<Rightarrow> bool \<Rightarrow> approval m" where
  "approve_drill cp tenant_id drill_id actor asynchronous =
     bnd (get_drill tenant_id drill_id) (\<lambda>(drill, run_state).
     if dr_status drill \<noteq> D_PENDING_APPROVAL then
       if dr_status drill = D_STARTED \<and> dr_approved_by drill = Some actor then
         ret (AlreadyStarted (drill, run_state))
       else throw (Exn ConflictError
              (''drill cannot be approved from status '' @ drill_status_value (dr_status drill)))
     else if dr_requested_by drill = actor then
       throw (Exn ConflictError ''drill approver must differ from drill author'')
     else
       bnd utc_now (\<lambda>approved_at.
       seq (transaction (exec (update_drills (drill_key tenant_id drill_id) (mark_approved actor approved_at))))
      (bnd (lift (start_request (dr_request_payload drill) drill_id (dr_run_id drill))) (\<lambda>request.
       bnd (catch (start_synthetic_drill cp request actor asynchronous)
              (\<lambda>e. seq (transaction (exec (update_drills (drill_key tenant_id drill_id) mark_failed)))
                       (throw e))) (\<lambda>execution.
       seq (transaction (exec (update_drills (drill_key tenant_id drill_id)
              (mark_started (rcp_run_id (dx_receipt execution))))))
           (ret (Started execution actor approved_at)))))))"

definition reject_drill ::
  "string \<Rightarrow> string \<Rightarrow> string \<Rightarrow> string \<Rightarrow> (json drill_row \<times> shutdown_state option) m" where
  "reject_drill tenant_id drill_id actor reason =
     (if py_strip reason = [] then throw (Exn ValidationError ''rejection reason is required'')
      else
        bnd (get_drill tenant_id drill_id) (\<lambda>(drill, _).
        if dr_status drill \<noteq> D_PENDING_APPROVAL then
          throw (Exn ConflictError
              (''drill cannot be rejected from status '' @ drill_status_value (dr_status drill)))
        else if dr_requested_by drill = actor then
          throw (Exn ConflictError ''drill reviewer must differ from drill author'')
        else
          bnd utc_now (\<lambda>rejected_at.
          seq (transaction (exec (update_drills (drill_key tenant_id drill_id)
                 (mark_rejected actor rejected_at (py_strip reason)))))
              (get_drill tenant_id drill_id))))"

section \<open>\<open>recover_approved_drills\<close>\<close>

definition approved_drills :: "db \<Rightarrow> string drill_row list" where
  "approved_drills d =
     sort_key (\<lambda>r. null_first (dr_approved_at r)) (filter (\<lambda>r. dr_status r = D_APPROVED) (drills d))"

definition recovery_actor :: "'j drill_row \<Rightarrow> string" where
  "recovery_actor r =
     (case dr_approved_by r of None \<Rightarrow> ''recovery-worker'' | Some a \<Rightarrow> if a = [] then ''recovery-worker'' else a)"

text \<open>\<open>get_run\<close> under \<open>except NotFoundError\<close>.\<close>

definition get_run_or_none :: "string \<Rightarrow> string option \<Rightarrow> run_view option m" where
  "get_run_or_none tenant_id run_id =
     (case run_id of
        None \<Rightarrow> ret None
      | Some r \<Rightarrow>
          catch (bnd (get_run tenant_id r) (\<lambda>run. ret (Some run)))
            (\<lambda>e. if exn_class e = NotFoundError then ret None else throw e))"

definition recover_drill :: "control_plane \<Rightarrow> bool \<Rightarrow> string drill_row \<Rightarrow> unit m" where
  "recover_drill cp asynchronous drill =
     bnd (lift (py_loads (dr_request_payload drill))) (\<lambda>payload.
     bnd (get_run_or_none (dr_tenant_id drill) (dr_run_id drill)) (\<lambda>found.
     bnd (case found of
            None \<Rightarrow>
              bnd (lift (start_request payload (dr_drill_id drill) (dr_run_id drill))) (\<lambda>request.
              bnd (start_synthetic_drill cp request (recovery_actor drill) asynchronous) (\<lambda>execution.
              ret (rcp_run_id (dx_receipt execution))))
          | Some run \<Rightarrow>
              if rn_shutdown_requested_at run = None then
                bnd (recovery_adapter (dr_tenant_id drill) (rn_run_id run)) (\<lambda>adapter.
                bnd (request_shutdown cp (dr_tenant_id drill) (rn_run_id run) (recovery_actor drill)
                       (''drill:'' @ dr_drill_id drill) asynchronous adapter) (\<lambda>_.
                ret (rn_run_id run)))
              else ret (rn_run_id run)) (\<lambda>run_id.
     transaction (exec (update_drills
       (\<lambda>r. drill_key (dr_tenant_id drill) (dr_drill_id drill) r \<and> dr_status r = D_APPROVED)
       (mark_started run_id))))))"

definition recover_approved_drills :: "control_plane \<Rightarrow> bool \<Rightarrow> nat m" where
  "recover_approved_drills cp asynchronous =
     bnd (query approved_drills) (\<lambda>rows.
     seq (for_each rows (recover_drill cp asynchronous)) (ret (length rows)))"

end
