(* ===== verification/Floats.thy ===== *)
theory Floats
  imports Complex_Main Timestamps
begin

text \<open>
  Python's \<open>float\<close> where the program uses it, for seconds: a number, an infinity or NaN. A number
  is rational and computed exactly; the rounding of a double is not modelled. Every comparison
  with NaN is false, which the checks of the program let through.
\<close>

datatype py_float = Finite rat | PosInf | NegInf | NaN

text \<open>\<open>a < b\<close> and \<open>a <= b\<close>.\<close>

fun float_less :: "py_float \<Rightarrow> py_float \<Rightarrow> bool" where
  "float_less NaN y = False"
| "float_less x NaN = False"
| "float_less (Finite a) (Finite b) = (a < b)"
| "float_less NegInf y = (y \<noteq> NegInf)"
| "float_less x PosInf = (x \<noteq> PosInf)"
| "float_less x y = False"

definition float_le :: "py_float \<Rightarrow> py_float \<Rightarrow> bool" where
  "float_le x y \<longleftrightarrow> float_less x y \<or> x = y \<and> x \<noteq> NaN"

text \<open>\<open>min(a, b)\<close>: the first one, unless the second is less.\<close>

definition float_min :: "py_float \<Rightarrow> py_float \<Rightarrow> py_float" where
  "float_min x y = (if float_less y x then y else x)"

text \<open>Multiplication by a positive number.\<close>

fun float_scale :: "rat \<Rightarrow> py_float \<Rightarrow> py_float" where
  "float_scale c (Finite a) = Finite (c * a)"
| "float_scale c x = x"

text \<open>\<open>timedelta(seconds=x)\<close> in microseconds, rounded to the nearest, halves to the even one.\<close>

definition round_half_even :: "rat \<Rightarrow> int" where
  "round_half_even q =
     (let n = \<lfloor>q\<rfloor>; rest = q - of_int n
      in if rest < 1 / 2 \<or> rest = 1 / 2 \<and> even n then n else n + 1)"

fun timedelta_seconds :: "py_float \<Rightarrow> exn + int" where
  "timedelta_seconds (Finite a) = Inr (round_half_even (1000000 * a))"
| "timedelta_seconds NaN = Inl (Exn ValueError ''cannot convert float NaN to integer'')"
| "timedelta_seconds x = Inl (Exn OverflowError ''cannot convert float infinity to integer'')"

lemma float_le_finite [simp]: "float_le (Finite a) (Finite b) \<longleftrightarrow> a \<le> b"
  by (auto simp: float_le_def)

lemma not_float_less: "\<not> float_less x y \<Longrightarrow> x \<noteq> NaN \<Longrightarrow> y \<noteq> NaN \<Longrightarrow> float_le y x"
  by (cases x; cases y) (auto simp: float_le_def)

lemma round_half_even_int [simp]: "round_half_even (of_int n) = n"
  by (simp add: round_half_even_def Let_def)

lemma round_half_even_bounds: "\<lfloor>q\<rfloor> \<le> round_half_even q" "round_half_even q \<le> \<lfloor>q\<rfloor> + 1"
  by (simp_all add: round_half_even_def Let_def)

lemma round_half_even_mono: "p \<le> q \<Longrightarrow> round_half_even p \<le> round_half_even q"
proof -
  assume pq: "p \<le> q"
  then have fl: "\<lfloor>p\<rfloor> \<le> \<lfloor>q\<rfloor>" by (rule floor_mono)
  show ?thesis
  proof (cases "\<lfloor>p\<rfloor> = \<lfloor>q\<rfloor>")
    case True
    then show ?thesis using pq by (auto simp: round_half_even_def Let_def)
  next
    case False
    then show ?thesis using fl round_half_even_bounds(1) [of q] round_half_even_bounds(2) [of p] by linarith
  qed
qed

end
