(* ===== verification/Outbox.thy ===== *)
theory Outbox
  imports Reports Floats
begin

text \<open>
  \<open>asv/siem.py\<close>: delivery of the outbox to a SIEM. \<open>publish_batch\<close> selects the pending
  events that are due, sends each, and records success, a retry with exponential backoff, or a
  dead letter after the last attempt of the retry cycle. The two backoff settings are Python
  floats, seconds; the clock is the default one.
\<close>

section \<open>\<open>HttpSiemSink\<close>\<close>

text \<open>A header value: \<open>http.client\<close> takes text and integers.\<close>

fun header_value :: "json \<Rightarrow> exn + string" where
  "header_value (JStr s) = Inr s"
| "header_value (JInt i) = Inr (int_dec i)"
| "header_value (JBool b) = Inr (if b then ''True'' else ''False'')"
| "header_value v = Inl (Exn TypeError
     (''expected string or bytes-like object, got '' @ apostrophe @ type_name v @ apostrophe))"

definition siem_send :: "string \<Rightarrow> string \<Rightarrow> json \<Rightarrow> unit ext_m" where
  "siem_send url bearer_token event =
     (case event of
        JObj kvs \<Rightarrow>
          (case dict_get kvs ''idempotency_key'' of
             None \<Rightarrow> ext_throw (key_error ''idempotency_key'')
           | Some key \<Rightarrow>
               (case header_value key of
                  Inl e \<Rightarrow> ext_throw e
                | Inr value \<Rightarrow>
                    ext_bnd (urlopen
                      \<lparr>rq_method = ''POST'', rq_url = url,
                       rq_headers = [(''Authorization'', ''Bearer '' @ bearer_token),
                                     (''Content-Type'', ''application/json''),
                                     (''Idempotency-Key'', value)],
                       rq_body = Some event\<rparr>) (\<lambda>response.
                    if hr_status response < 200 \<or> hr_status response \<ge> 300 then
                      ext_throw (Exn RuntimeError (''SIEM returned HTTP '' @ int_dec (hr_status response)))
                    else ext_ret ())))
      | _ \<Rightarrow> ext_throw (subscript_error event))"

section \<open>\<open>OutboxPublisher\<close>\<close>

record publisher =
  pu_sender :: "json \<Rightarrow> unit ext_m"
  pu_max_attempts :: int
  pu_base_backoff :: py_float
  pu_max_backoff :: py_float

definition new_publisher :: "(json \<Rightarrow> unit ext_m) \<Rightarrow> int \<Rightarrow> py_float \<Rightarrow> py_float \<Rightarrow> exn + publisher" where
  "new_publisher sender max_attempts base_backoff max_backoff =
     (if max_attempts < 1 then Inl (Exn ValueError ''max_attempts must be at least 1'')
      else if float_less base_backoff (Finite 0) \<or> float_less max_backoff base_backoff then
        Inl (Exn ValueError ''invalid SIEM backoff configuration'')
      else Inr \<lparr>pu_sender = sender, pu_max_attempts = max_attempts, pu_base_backoff = base_backoff,
                pu_max_backoff = max_backoff\<rparr>)"

text \<open>
  \<open>timedelta(seconds=min(max, base * 2 ** (n - 1)))\<close>, in microseconds, for the \<open>n\<close>-th
  attempt of the cycle. The power is an integer for \<open>n \<ge> 1\<close>, and multiplying a float by one
  of more than 1024 bits overflows.
\<close>

definition backoff :: "publisher \<Rightarrow> int \<Rightarrow> exn + int" where
  "backoff pu n =
     (if n > 1024 then Inl (Exn OverflowError ''int too large to convert to float'')
      else timedelta_seconds (float_min (pu_max_backoff pu)
        (float_scale (if 1 \<le> n then 2 ^ nat (n - 1) else 1 / 2 ^ nat (1 - n)) (pu_base_backoff pu))))"

definition baseline_of :: "string \<Rightarrow> db \<Rightarrow> int" where
  "baseline_of event_id d =
     (case find (\<lambda>x. rc_event_id x = event_id) (event_retry_cycle d) of
        None \<Rightarrow> 0 | Some x \<Rightarrow> rc_attempts_baseline x)"

text \<open>The \<open>WHERE\<close> condition: pending, and without a next attempt or with one not in the future.\<close>

definition due :: "instant \<Rightarrow> db \<Rightarrow> outbox_row \<Rightarrow> bool" where
  "due now d x \<longleftrightarrow>
     ob_status x = O_PENDING \<and>
     (case find_delivery (ob_event_id x) d of
        None \<Rightarrow> True
      | Some y \<Rightarrow> (case dl_next_attempt_at y of None \<Rightarrow> True | Some t \<Rightarrow> t \<le> now))"

text \<open>A negative limit is no limit.\<close>

definition sql_limit :: "int \<Rightarrow> 'a list \<Rightarrow> 'a list" where
  "sql_limit limit xs = (if limit < 0 then xs else take (nat limit) xs)"

definition select_due :: "instant \<Rightarrow> int \<Rightarrow> db \<Rightarrow> (outbox_row \<times> int) list" where
  "select_due now limit d =
     map (\<lambda>x. (x, baseline_of (ob_event_id x) d))
       (sql_limit limit (sort_key (\<lambda>x. (ob_created_at x, ob_event_id x)) (filter (due now d) (event_outbox d))))"

definition update_outbox :: "string \<Rightarrow> (outbox_row \<Rightarrow> outbox_row) \<Rightarrow> db \<Rightarrow> db" where
  "update_outbox event_id f d =
     d\<lparr>event_outbox := sql_update (\<lambda>x. ob_event_id x = event_id) f (event_outbox d)\<rparr>"

definition upsert_delivery :: "delivery_row \<Rightarrow> db \<Rightarrow> exn + db" where
  "upsert_delivery r d = guarded
     [(\<not> list_ex (\<lambda>x. dl_event_id x = dl_event_id r) (event_delivery_state d) \<and> foreign_keys d \<and>
         \<not> has_event (dl_event_id r) d, fk_message)]
     (d\<lparr>event_delivery_state := sql_upsert (\<lambda>x. dl_event_id x = dl_event_id r)
          (\<lambda>x. x\<lparr>dl_next_attempt_at := dl_next_attempt_at r, dl_dead_lettered_at := dl_dead_lettered_at r\<rparr>)
          r (event_delivery_state d)\<rparr>)"

definition record_dead_letter :: "string \<Rightarrow> int \<Rightarrow> string \<Rightarrow> instant \<Rightarrow> unit m" where
  "record_dead_letter event_id attempts message now =
     transaction (
       seq (exec (update_outbox event_id
              (\<lambda>x. x\<lparr>ob_status := O_DEAD_LETTER, ob_attempts := attempts, ob_last_error := Some message\<rparr>)))
           (exec_checked (upsert_delivery
              \<lparr>dl_event_id = event_id, dl_next_attempt_at = None, dl_dead_lettered_at = Some now\<rparr>)))"

definition record_retry :: "string \<Rightarrow> int \<Rightarrow> string \<Rightarrow> exn + int \<Rightarrow> instant \<Rightarrow> unit m" where
  "record_retry event_id attempts message delay now =
     transaction (
       bnd (lift delay) (\<lambda>us.
       bnd (lift (plus_us now us)) (\<lambda>next_attempt_at.
       seq (exec (update_outbox event_id (\<lambda>x. x\<lparr>ob_attempts := attempts, ob_last_error := Some message\<rparr>)))
           (exec_checked (upsert_delivery
              \<lparr>dl_event_id = event_id, dl_next_attempt_at = Some next_attempt_at, dl_dead_lettered_at = None\<rparr>)))))"

definition delivered_rows :: "string \<Rightarrow> instant \<Rightarrow> db \<Rightarrow> db" where
  "delivered_rows event_id now d =
     (update_outbox event_id
        (\<lambda>x. x\<lparr>ob_status := O_DELIVERED, ob_attempts := ob_attempts x + 1, ob_last_error := None,
               ob_delivered_at := Some now\<rparr>) d)
     \<lparr>event_delivery_state := filter (\<lambda>x. dl_event_id x \<noteq> event_id) (event_delivery_state d),
      event_retry_cycle := filter (\<lambda>x. rc_event_id x \<noteq> event_id) (event_retry_cycle d)\<rparr>"

definition record_delivered :: "string \<Rightarrow> unit m" where
  "record_delivered event_id = transaction (bnd utc_now (\<lambda>now. exec (delivered_rows event_id now)))"

record publish_counts =
  pc_selected :: nat
  pc_delivered :: nat
  pc_failed :: nat
  pc_dead_lettered :: nat

text \<open>\<open>self.sender(json.loads(row["payload"]))\<close> under \<open>try ... except ... else\<close>: the error, if any.\<close>

definition try_send :: "publisher \<Rightarrow> outbox_row \<Rightarrow> exn option m" where
  "try_send pu row =
     catch (bnd (lift (py_loads (ob_payload row))) (\<lambda>event.
            bnd (lift_ext (pu_sender pu event)) (\<lambda>_. ret None)))
       (\<lambda>e. ret (Some e))"

text \<open>One turn of the loop.\<close>

definition publish_row :: "publisher \<Rightarrow> instant \<Rightarrow> outbox_row \<times> int \<Rightarrow> publish_counts \<Rightarrow> publish_counts m" where
  "publish_row pu now = (\<lambda>(row, attempts_baseline) c.
     bnd (try_send pu row) (\<lambda>failure.
     case failure of
       None \<Rightarrow>
         seq (record_delivered (ob_event_id row)) (ret (c\<lparr>pc_delivered := pc_delivered c + 1\<rparr>))
     | Some error \<Rightarrow>
         (let attempts = ob_attempts row + 1;
              cycle_attempts = attempts - attempts_baseline;
              message = take 1000 (exn_message error);
              c' = c\<lparr>pc_failed := pc_failed c + 1\<rparr>
          in if cycle_attempts \<ge> pu_max_attempts pu then
               seq (record_dead_letter (ob_event_id row) attempts message now)
                   (ret (c'\<lparr>pc_dead_lettered := pc_dead_lettered c' + 1\<rparr>))
             else
               seq (record_retry (ob_event_id row) attempts message (backoff pu cycle_attempts) now)
                   (ret c'))))"

fun publish_rows :: "publisher \<Rightarrow> instant \<Rightarrow> (outbox_row \<times> int) list \<Rightarrow> publish_counts \<Rightarrow> publish_counts m" where
  "publish_rows pu now [] c = ret c"
| "publish_rows pu now (r # rs) c = bnd (publish_row pu now r c) (\<lambda>c'. publish_rows pu now rs c')"

definition publish_batch :: "publisher \<Rightarrow> int \<Rightarrow> publish_counts m" where
  "publish_batch pu limit =
     bnd utc_now (\<lambda>now.
     bnd (query (select_due now limit)) (\<lambda>rows.
     publish_rows pu now rows
       \<lparr>pc_selected = length rows, pc_delivered = 0, pc_failed = 0, pc_dead_lettered = 0\<rparr>))"

end
