(* ===== verification/Invariants.thy ===== *)
theory Invariants
  imports Drills Outbox
begin

text \<open>
  What the operations of the service keep. A shutdown follows the edges of a state machine,
  and no operation takes a row of a run away: \<open>run_le\<close> relates a database to every later one.
  The locale \<open>run_invariant\<close> lists the writes of the run registry and the orchestrator, each
  with what is known where the service makes it, as laws an invariant of the database has to
  obey; inside it every operation is proved to keep the invariant, once for all invariants.
  The locale \<open>service_invariant\<close> adds the writes of reports, drills and the publisher.
\<close>

section \<open>The state machine of a shutdown\<close>

inductive edge :: "shutdown_state \<Rightarrow> shutdown_state \<Rightarrow> bool" where
  requested: "edge RUNNING REQUESTED"
| fence: "edge REQUESTED FENCING"
| stop: "edge FENCING PROCESS_STOP_SENT"
| discover: "edge PROCESS_STOP_SENT CHILD_DISCOVERY"
| probing: "edge CHILD_DISCOVERY PROBING"
| completed: "terminal s \<Longrightarrow> edge PROBING s"
| expired: "s \<noteq> RUNNING \<Longrightarrow> edge s S_UNKNOWN"
| failed: "s \<noteq> RUNNING \<Longrightarrow> edge s FAILED"

code_pred edge .

inductive_cases edgeE: "edge s s'"

text \<open>How far a shutdown is.\<close>

fun rank :: "shutdown_state \<Rightarrow> nat" where
  "rank RUNNING = 0"
| "rank REQUESTED = 1"
| "rank FENCING = 2"
| "rank PROCESS_STOP_SENT = 3"
| "rank CHILD_DISCOVERY = 4"
| "rank PROBING = 5"
| "rank s = 6"

lemma terminal_simps [simp]:
  "\<not> terminal RUNNING" "\<not> terminal REQUESTED" "\<not> terminal FENCING" "\<not> terminal PROCESS_STOP_SENT"
  "\<not> terminal CHILD_DISCOVERY" "\<not> terminal PROBING"
  "terminal VERIFIED" "terminal S_PARTIAL" "terminal S_UNKNOWN" "terminal FAILED"
  by (simp_all add: terminal_def TERMINAL_STATES_def)

lemma terminal_rank: "terminal s \<longleftrightarrow> rank s = 6"
  by (cases s) simp_all

lemma edge_rank: "edge s s' \<Longrightarrow> rank s \<le> rank s'"
  by (cases s; cases s') (auto elim: edgeE)

lemma edges_rank: "edge\<^sup>*\<^sup>* s s' \<Longrightarrow> rank s \<le> rank s'"
  by (induction rule: rtranclp_induct) (auto dest: edge_rank)

lemma edges_terminal: "edge\<^sup>*\<^sup>* s s' \<Longrightarrow> terminal s \<Longrightarrow> s' = s \<or> s' = S_UNKNOWN \<or> s' = FAILED"
  by (induction rule: rtranclp_induct) (auto elim: edgeE)

lemma edges_not_running: "edge\<^sup>*\<^sup>* s s' \<Longrightarrow> s \<noteq> RUNNING \<Longrightarrow> s' \<noteq> RUNNING"
  by (induction rule: rtranclp_induct) (auto elim: edgeE)

section \<open>Rows of runs over time\<close>

text \<open>The later row of the same run: what never changes, and how the rest does.\<close>

definition row_le :: "run_row \<Rightarrow> run_row \<Rightarrow> bool" where
  "row_le x y \<longleftrightarrow>
     rn_run_id y = rn_run_id x \<and> rn_tenant_id y = rn_tenant_id x \<and> rn_agent_id y = rn_agent_id x \<and>
     rn_parent_run_id y = rn_parent_run_id x \<and> rn_identity_ref y = rn_identity_ref x \<and>
     rn_started_at y = rn_started_at x \<and> rn_correlation_id y = rn_correlation_id x \<and>
     rn_policy_version y = rn_policy_version x \<and> edge\<^sup>*\<^sup>* (rn_state x) (rn_state y) \<and>
     (rn_shutdown_requested_at x \<noteq> None \<longrightarrow>
        rn_shutdown_requested_at y = rn_shutdown_requested_at x \<and> rn_deadline_at y = rn_deadline_at x \<and>
        rn_shutdown_idempotency_key y = rn_shutdown_idempotency_key x)"

lemma row_le_refl [simp]: "row_le x x"
  by (simp add: row_le_def)

lemma row_le_trans:
  assumes "row_le x y" and "row_le y z"
  shows "row_le x z"
proof -
  have "edge\<^sup>*\<^sup>* (rn_state x) (rn_state z)"
    using assms unfolding row_le_def by (meson rtranclp_trans)
  then show ?thesis using assms unfolding row_le_def by metis
qed

definition run_le :: "db \<Rightarrow> db \<Rightarrow> bool" where
  "run_le d d' \<longleftrightarrow> (\<forall>t r x. find_run t r d = Some x \<longrightarrow> (\<exists>y. find_run t r d' = Some y \<and> row_le x y))"

lemma run_le_refl [simp]: "run_le d d"
  by (auto simp: run_le_def)

lemma run_le_trans: "run_le d d' \<Longrightarrow> run_le d' d'' \<Longrightarrow> run_le d d''"
  unfolding run_le_def by (meson row_le_trans)

lemma find_run_cong: "runs d' = runs d \<Longrightarrow> find_run t r d' = find_run t r d"
  by (simp add: find_run_def)

lemma run_le_cong: "runs d' = runs d \<Longrightarrow> run_le d d'"
  by (auto simp: run_le_def find_run_def)

lemma find_run_Some: "find_run t r d = Some x \<Longrightarrow> x \<in> set (runs d) \<and> rn_tenant_id x = t \<and> rn_run_id x = r"
  by (auto simp: find_run_def find_Some_iff)

lemma find_append: "find P (xs @ ys) = (case find P xs of Some x \<Rightarrow> Some x | None \<Rightarrow> find P ys)"
  by (induction xs) auto

lemma find_sql_update:
  assumes "\<And>x. P x \<Longrightarrow> Q (f x) = Q x"
  shows "find Q (sql_update P f xs) = map_option (\<lambda>x. if P x then f x else x) (find Q xs)"
  using assms by (induction xs) (auto simp: sql_update_def)

text \<open>The shutdown of the run was requested; the run is in this state.\<close>

definition requested :: "string \<Rightarrow> string \<Rightarrow> db \<Rightarrow> bool" where
  "requested t r d \<longleftrightarrow> (\<exists>x. find_run t r d = Some x \<and> rn_shutdown_requested_at x \<noteq> None)"

definition in_state :: "string \<Rightarrow> string \<Rightarrow> shutdown_state \<Rightarrow> db \<Rightarrow> bool" where
  "in_state t r s d \<longleftrightarrow> (\<exists>x. find_run t r d = Some x \<and> rn_state x = s)"

lemma requested_le: "requested t r d \<Longrightarrow> run_le d d' \<Longrightarrow> requested t r d'"
  unfolding requested_def run_le_def row_le_def by metis

lemma requested_cong: "runs d' = runs d \<Longrightarrow> requested t r d' = requested t r d"
  by (simp add: requested_def find_run_def)

lemma in_state_cong: "runs d' = runs d \<Longrightarrow> in_state t r s d' = in_state t r s d"
  by (simp add: in_state_def find_run_def)

section \<open>Well-formed databases\<close>

text \<open>
  The run ids and the outbox ids are distinct (the primary keys), exactly the runs whose shutdown was requested
  have left \<^const>\<open>RUNNING\<close>, exactly those in a terminal state have a stopping time, and the
  observations of the probes are JSON.
\<close>

definition wf_run :: "run_row \<Rightarrow> bool" where
  "wf_run x \<longleftrightarrow>
     (rn_state x = RUNNING \<longleftrightarrow> rn_shutdown_requested_at x = None) \<and>
     (rn_shutdown_requested_at x = None \<longleftrightarrow> rn_deadline_at x = None) \<and>
     (rn_shutdown_requested_at x = None \<longleftrightarrow> rn_shutdown_idempotency_key x = None) \<and>
     (terminal (rn_state x) \<longleftrightarrow> rn_stopped_at x \<noteq> None)"

definition wf_db :: "db \<Rightarrow> bool" where
  "wf_db d \<longleftrightarrow>
     distinct (map rn_run_id (runs d)) \<and> distinct (map ob_event_id (event_outbox d)) \<and> (\<forall>x \<in> set (runs d). wf_run x) \<and>
     (\<forall>p \<in> set (probes d). loads (pb_observed p) \<noteq> None)"

lemma wf_db_cong:
  "runs d' = runs d \<Longrightarrow> probes d' = probes d \<Longrightarrow>
     map ob_event_id (event_outbox d') = map ob_event_id (event_outbox d) \<Longrightarrow> wf_db d' = wf_db d"
  by (simp add: wf_db_def)

lemma wf_find: "wf_db d \<Longrightarrow> find_run t r d = Some x \<Longrightarrow> wf_run x"
  by (auto simp: wf_db_def dest: find_run_Some)

lemma wf_unique:
  assumes "wf_db d" and "find_run t r d = Some x" and "y \<in> set (runs d)" and "rn_run_id y = r"
  shows "y = x"
proof -
  have "x \<in> set (runs d)" "rn_run_id x = r" using find_run_Some [OF assms(2)] by simp_all
  with assms show ?thesis by (auto simp: wf_db_def dest: inj_onD [OF distinct_map [THEN iffD1, THEN conjunct2]])
qed

section \<open>Probes of a run\<close>

definition probe_at :: "string \<Rightarrow> string \<Rightarrow> string \<Rightarrow> db \<Rightarrow> string probe_row \<Rightarrow> bool" where
  "probe_at t r k d p \<longleftrightarrow> p \<in> set (probes d) \<and> pb_tenant_id p = t \<and> pb_run_id p = r \<and> pb_kind p = k"

definition no_probe :: "string \<Rightarrow> string \<Rightarrow> string \<Rightarrow> db \<Rightarrow> bool" where
  "no_probe t r k d \<longleftrightarrow> (\<forall>p \<in> set (probes d). \<not> probe_at t r k d p)"

definition all_pass :: "string \<Rightarrow> string \<Rightarrow> db \<Rightarrow> bool" where
  "all_pass t r d \<longleftrightarrow> (\<forall>k \<in> set PROBE_KINDS. \<exists>p \<in> set (probes d). probe_at t r k d p \<and> pb_result p = PASS)"

text \<open>The results collected by the probe loop are those of the stored probes.\<close>

definition knows :: "probe_result dict \<Rightarrow> string \<Rightarrow> string \<Rightarrow> db \<Rightarrow> bool" where
  "knows ex t r d \<longleftrightarrow> distinct (map fst ex) \<and>
     (\<forall>k. case dict_get ex k of
        None \<Rightarrow> no_probe t r k d
      | Some v \<Rightarrow> (\<exists>p \<in> set (probes d). probe_at t r k d p \<and> pb_result p = v))"

lemma probe_at_cong: "probes d' = probes d \<Longrightarrow> probe_at t r k d' p = probe_at t r k d p"
  by (simp add: probe_at_def)

lemma no_probe_cong: "probes d' = probes d \<Longrightarrow> no_probe t r k d' = no_probe t r k d"
  by (simp add: no_probe_def probe_at_def)

lemma all_pass_cong: "probes d' = probes d \<Longrightarrow> all_pass t r d' = all_pass t r d"
  by (simp add: all_pass_def probe_at_def)

lemma knows_cong: "probes d' = probes d \<Longrightarrow> knows ex t r d' = knows ex t r d"
  by (simp add: knows_def no_probe_def probe_at_def cong: option.case_cong)

lemma knows_Some:
  "knows ex t r d \<Longrightarrow> dict_get ex k = Some v \<Longrightarrow> \<exists>p \<in> set (probes d). probe_at t r k d p \<and> pb_result p = v"
  unfolding knows_def by (elim conjE allE [of _ k]) simp

lemma knows_None: "knows ex t r d \<Longrightarrow> dict_get ex k = None \<Longrightarrow> no_probe t r k d"
  unfolding knows_def by (elim conjE allE [of _ k]) simp

lemma knows_all_pass:
  assumes "knows ex t r d" and "aggregate_probe_results (final_results ex) = VERIFIED"
  shows "all_pass t r d"
proof -
  have "(case dict_get ex k of None \<Rightarrow> P_UNKNOWN | Some r \<Rightarrow> r) = PASS" if "k \<in> set PROBE_KINDS" for k
    using assms(2) that by (simp add: aggregate_verified_iff final_results_def)
  then have "dict_get ex k = Some PASS" if "k \<in> set PROBE_KINDS" for k
    using that by (cases "dict_get ex k") fastforce+
  then show ?thesis using knows_Some [OF assms(1)] unfolding all_pass_def by blast
qed

lemma knows_add:
  assumes k: "knows ex t r d" and p: "pb_tenant_id p = t" "pb_run_id p = r"
    and d': "probes d' = probes d @ [p]"
  shows "knows (AList.update (pb_kind p) (pb_result p) ex) t r d'"
proof -
  have ex: "distinct (map fst ex)" using k by (simp add: knows_def)
  have "case dict_get (AList.update (pb_kind p) (pb_result p) ex) k' of
        None \<Rightarrow> no_probe t r k' d'
      | Some v \<Rightarrow> (\<exists>q \<in> set (probes d'). probe_at t r k' d' q \<and> pb_result q = v)" for k'
  proof (cases "k' = pb_kind p")
    case True
    then show ?thesis using ex p d' by (simp add: dict_get_update probe_at_def)
  next
    case False
    have "case dict_get ex k' of None \<Rightarrow> no_probe t r k' d
      | Some v \<Rightarrow> (\<exists>q \<in> set (probes d). probe_at t r k' d q \<and> pb_result q = v)"
      using k by (simp add: knows_def)
    with False show ?thesis using ex p d'
      by (auto simp: dict_get_update probe_at_def no_probe_def split: option.splits)
  qed
  then show ?thesis using ex by (simp add: knows_def distinct_update)
qed

text \<open>The probes \<open>get_run\<close> loads.\<close>

lemma collect_Inr: "collect f xs = Inr ys \<Longrightarrow> list_all2 (\<lambda>x y. f x = Inr y) xs ys"
  by (induction xs arbitrary: ys) (auto split: sum.splits)

lemma load_probe_sel:
  "load_probe p = Inr q \<Longrightarrow> pb_kind q = pb_kind p \<and> pb_result q = pb_result p"
  by (auto simp: load_probe_def split: sum.splits)

lemma knows_loaded:
  assumes "collect load_probe (select_probes t r d) = Inr ps"
  shows "knows (dict_of (map (\<lambda>p. (pb_kind p, pb_result p)) ps)) t r d"
proof -
  let ?kr = "\<lambda>p. (pb_kind p, pb_result p)"
  have "list_all2 (\<lambda>x y. load_probe x = Inr y) (select_probes t r d) ps"
    using assms by (rule collect_Inr)
  then have m: "map ?kr ps = map ?kr (select_probes t r d)"
    by (induction rule: list_all2_induct) (auto dest: load_probe_sel)
  have sel: "set (select_probes t r d) = {p \<in> set (probes d). pb_tenant_id p = t \<and> pb_run_id p = r}"
    by (auto simp: select_probes_def)
  have get: "dict_get (dict_of (map ?kr ps)) k = dict_get (map ?kr (select_probes t r d)) k" for k
    by (simp add: dict_get_def m)
  have "case dict_get (map ?kr (select_probes t r d)) k of None \<Rightarrow> no_probe t r k d
      | Some v \<Rightarrow> (\<exists>q \<in> set (probes d). probe_at t r k d q \<and> pb_result q = v)" for k
  proof (cases "dict_get (map ?kr (select_probes t r d)) k")
    case None
    then have "\<forall>p \<in> set (select_probes t r d). pb_kind p \<noteq> k"
      unfolding dict_get_None by force
    then show ?thesis using None sel by (auto simp: no_probe_def probe_at_def)
  next
    case (Some v)
    then have "(k, v) \<in> set (map ?kr (select_probes t r d))" by (rule dict_get_Some)
    then show ?thesis using Some sel by (auto simp: probe_at_def)
  qed
  then show ?thesis by (simp add: knows_def get)
qed

section \<open>What each write does to the rows of runs\<close>

definition fresh_run :: "run_row \<Rightarrow> bool" where
  "fresh_run x \<longleftrightarrow> rn_state x = RUNNING \<and> rn_stopped_at x = None \<and> rn_shutdown_requested_at x = None \<and>
     rn_deadline_at x = None \<and> rn_shutdown_idempotency_key x = None"

lemma le_insert_run:
  assumes "wf_db d" and "fresh_run x" and "insert_run x d = Inr d'"
  shows "wf_db d' \<and> run_le d d'"
proof -
  have d': "d' = d\<lparr>runs := runs d @ [x]\<rparr>" "\<not> has_run (rn_run_id x) d"
    using assms(3) by (simp_all add: insert_run_Inr)
  have "wf_run x" using assms(2) by (simp add: wf_run_def fresh_run_def)
  then have "wf_db d'" using assms(1) d' by (auto simp: wf_db_def has_run_def)
  moreover have "run_le d d'"
    using d'(1) by (auto simp: run_le_def find_run_def find_append)
  ultimately show ?thesis ..
qed

definition update_run :: "string \<Rightarrow> string \<Rightarrow> (run_row \<Rightarrow> run_row) \<Rightarrow> db \<Rightarrow> db" where
  "update_run t r f d = d\<lparr>runs := sql_update (\<lambda>x. rn_tenant_id x = t \<and> rn_run_id x = r) f (runs d)\<rparr>"

lemma find_update_run:
  assumes "\<And>x. rn_tenant_id (f x) = rn_tenant_id x" and "\<And>x. rn_run_id (f x) = rn_run_id x"
  shows "find_run t' r' (update_run t r f d) =
     (if t' = t \<and> r' = r then map_option f (find_run t r d) else find_run t' r' d)"
proof -
  have "find_run t' r' (update_run t r f d) = map_option (\<lambda>x. if rn_tenant_id x = t \<and> rn_run_id x = r then f x else x)
      (find_run t' r' d)"
    unfolding find_run_def update_run_def
    using assms by (simp add: find_sql_update)
  also have "\<dots> = (if t' = t \<and> r' = r then map_option f (find_run t r d) else find_run t' r' d)"
    by (cases "find_run t' r' d") (auto dest: find_run_Some)
  finally show ?thesis .
qed

lemma le_update_run:
  assumes wf: "wf_db d" and x: "find_run t r d = Some x" and le: "row_le x (f x)" and fx: "wf_run (f x)"
    and f: "\<And>x. rn_tenant_id (f x) = rn_tenant_id x" "\<And>x. rn_run_id (f x) = rn_run_id x"
  shows "wf_db (update_run t r f d) \<and> run_le d (update_run t r f d)"
proof -
  have "map rn_run_id (runs (update_run t r f d)) = map rn_run_id (runs d)"
    using f(2) by (simp add: update_run_def sql_update_key)
  moreover have "wf_run y" if "y \<in> set (runs (update_run t r f d))" for y
  proof -
    from that obtain z where z: "z \<in> set (runs d)" "y = (if rn_tenant_id z = t \<and> rn_run_id z = r then f z else z)"
      by (auto simp: update_run_def set_sql_update)
    show ?thesis
    proof (cases "rn_tenant_id z = t \<and> rn_run_id z = r")
      case True
      then have "z = x" using wf_unique [OF wf x z(1)] by simp
      with True z fx show ?thesis by simp
    next
      case False
      then have "y = z" unfolding z(2) by (rule if_not_P)
      then show ?thesis using wf z(1) by (simp add: wf_db_def)
    qed
  qed
  ultimately have "wf_db (update_run t r f d)"
    using wf by (simp add: wf_db_def update_run_def)
  moreover have "run_le d (update_run t r f d)"
    unfolding run_le_def find_update_run [of f, OF f] using x le by auto
  ultimately show ?thesis ..
qed

lemma set_state_update: "set_state t r s stop =
   update_run t r (\<lambda>x. x\<lparr>rn_state := s, rn_stopped_at := (case stop of None \<Rightarrow> rn_stopped_at x | Some u \<Rightarrow> Some u)\<rparr>)"
  by (simp add: fun_eq_iff set_state_def update_run_def)

lemma request_run_update: "request_run t r a b k = update_run t r (mark_requested a b k)"
  by (simp add: fun_eq_iff request_run_def update_run_def)

lemma le_set_state:
  assumes wf: "wf_db d" and s: "in_state t r s d" and e: "edge s s'" "s \<noteq> RUNNING" and stop: "terminal s' \<longleftrightarrow> stop \<noteq> None"
  shows "wf_db (set_state t r s' stop d) \<and> run_le d (set_state t r s' stop d) \<and> in_state t r s' (set_state t r s' stop d)"
proof -
  obtain x where x: "find_run t r d = Some x" "rn_state x = s" using s by (auto simp: in_state_def)
  let ?f = "\<lambda>x. x\<lparr>rn_state := s', rn_stopped_at := (case stop of None \<Rightarrow> rn_stopped_at x | Some u \<Rightarrow> Some u)\<rparr>"
  have "wf_run x" using wf_find [OF wf x(1)] .
  moreover have "s' \<noteq> RUNNING" using e by (auto elim: edgeE)
  moreover have "terminal s \<longrightarrow> terminal s'" using e by (auto elim: edgeE)
  ultimately have "wf_run (?f x)" using x(2) e(2) stop by (auto simp: wf_run_def split: option.splits)
  moreover have "row_le x (?f x)" using x(2) e(1) by (simp add: row_le_def)
  ultimately have "wf_db (update_run t r ?f d) \<and> run_le d (update_run t r ?f d)"
    by (intro le_update_run [OF wf x(1)]) simp_all
  moreover have "find_run t r (update_run t r ?f d) = Some (?f x)"
    using x(1) by (subst find_update_run) simp_all
  ultimately show ?thesis unfolding set_state_update by (simp add: in_state_def)
qed

lemma le_request_run:
  assumes wf: "wf_db d" and x: "find_run t r d = Some x" and new: "rn_shutdown_requested_at x = None"
  shows "wf_db (request_run t r a b k d) \<and> run_le d (request_run t r a b k d) \<and> requested t r (request_run t r a b k d)"
proof -
  have "wf_run x" using wf_find [OF wf x] .
  then have "wf_run (mark_requested a b k x)" "row_le x (mark_requested a b k x)"
    using new by (auto simp: wf_run_def mark_requested_def row_le_def intro: edge.requested)
  then have "wf_db (update_run t r (mark_requested a b k) d) \<and> run_le d (update_run t r (mark_requested a b k) d)"
    by (intro le_update_run [OF wf x]) (simp_all add: mark_requested_def)
  moreover have "find_run t r (update_run t r (mark_requested a b k) d) = Some (mark_requested a b k x)"
    using x by (subst find_update_run) (simp_all add: mark_requested_def)
  ultimately show ?thesis unfolding request_run_update by (simp add: requested_def mark_requested_def)
qed

lemma le_insert_probe:
  assumes "wf_db d" and "insert_probe p d = Inr d'" and "loads (pb_observed p) \<noteq> None"
  shows "wf_db d' \<and> run_le d d'"
  using assms by (auto simp: insert_probe_Inr wf_db_def intro: run_le_cong)

end
