(* ===== verification/Run_Invariants.thy ===== *)
theory Run_Invariants
  imports Invariants
begin

text \<open>
  The locale \<open>run_invariant\<close>: the laws an invariant of the database has to obey for the run
  registry and the orchestrator to keep it, and the proof that they do.
\<close>

section \<open>The assertion that is kept\<close>

text \<open>
  From a database \<open>d0\<close> on: the database is well formed and satisfies \<open>J\<close>, its runs have
  come from those of \<open>d0\<close> along the state machine, and every queued thread works on a run
  whose shutdown was requested.
\<close>

definition ok :: "(db \<Rightarrow> bool) \<Rightarrow> db \<Rightarrow> assertion" where
  "ok J d0 d ts \<longleftrightarrow> wf_db d \<and> J d \<and> run_le d0 d \<and> (\<forall>th \<in> set ts. requested (th_tenant_id th) (th_run_id th) d)"

lemma okI:
  assumes "ok J d0 d ts" and "wf_db d'" and "J d'" and "run_le d d'"
  shows "ok J d0 d' ts"
  using assms unfolding ok_def by (meson requested_le run_le_trans)

lemma okD: "ok J d0 d ts \<Longrightarrow> wf_db d \<and> J d \<and> run_le d0 d"
  by (simp add: ok_def)

lemma ok_requested: "ok J d0 d ts \<Longrightarrow> requested t r d0 \<Longrightarrow> requested t r d"
  unfolding ok_def by (meson requested_le)

lemma ok_self: "ok J d0 d ts \<Longrightarrow> ok J d d ts"
  by (simp add: ok_def)

lemma ok_trans: "ok J d0 d ts \<Longrightarrow> ok J d d' ts' \<Longrightarrow> ok J d0 d' ts'"
  unfolding ok_def by (meson run_le_trans)

lemma requested_in_state:
  assumes "wf_db d" and "requested t r d"
  obtains s where "in_state t r s d" and "s \<noteq> RUNNING"
proof -
  obtain x where x: "find_run t r d = Some x" "rn_shutdown_requested_at x \<noteq> None"
    using assms(2) by (auto simp: requested_def)
  have "wf_run x" using wf_find [OF assms(1) x(1)] .
  with x that show ?thesis by (auto simp: wf_run_def in_state_def)
qed

text \<open>
  What is kept from every database is kept together with anything that later databases
  inherit, and the operation may rely on it.
\<close>

lemma keeps_with:
  assumes m: "\<And>d1. P d1 \<Longrightarrow> keeps (ok J d1) m" and P: "\<And>d d'. P d \<Longrightarrow> run_le d d' \<Longrightarrow> P d'"
  shows "keeps (\<lambda>d ts. ok J d0 d ts \<and> P d) m"
  unfolding keeps_iff
proof (intro allI impI)
  fix w :: world
  assume w: "ok J d0 (w_db w) (w_threads w) \<and> P (w_db w)"
  let ?w' = "snd (m w)"
  have "ok J (w_db w) (w_db ?w') (w_threads ?w')"
    using keepsD [OF m, of "w_db w" w] w ok_self by blast
  moreover from this have "run_le (w_db w) (w_db ?w')" by (simp add: ok_def)
  ultimately show "ok J d0 (w_db ?w') (w_threads ?w') \<and> P (w_db ?w')"
    using w P ok_trans by blast
qed

lemma keeps_weak: "keeps (\<lambda>d ts. V d ts \<and> P d) m \<Longrightarrow> hoare (\<lambda>w. on V w \<and> P (w_db w)) m (\<lambda>_. on V) (\<lambda>_. on V)"
  unfolding keeps_def by (erule hoare_weaken) auto

text \<open>Reading.\<close>

lemma hoare_pure:
  assumes "\<And>w. snd (m w) = w" and "\<And>w x. P w \<Longrightarrow> m w = (Inr x, w) \<Longrightarrow> Q x w" and "\<And>w. P w \<Longrightarrow> E w"
  shows "hoare P m Q (\<lambda>_. E)"
  using assms by (metis (no_types, lifting) hoareI snd_conv)

lemma get_run_pure: "snd (get_run t r w) = w"
  by (simp add: get_run_def m_exec lift_def throw_def ret_def bnd_def split: option.splits sum.splits)

lemma get_agent_pure: "snd (get_agent t a w) = w"
  by (simp add: get_agent_def m_exec lift_def throw_def split: option.splits)

lemma get_run_Inr:
  assumes "get_run t r w = (Inr run, w')"
  shows "w' = w" and "find_run t r (w_db w) = Some (run_row.truncate run)"
    and "collect load_probe (select_probes t r (w_db w)) = Inr (rv_probes run)"
    and "rv_delegated_jobs run = select_jobs t r (w_db w)"
  using assms
  by (auto simp: get_run_def m_exec throw_def run_row.defs run_view.defs split: option.splits sum.splits)

lemma truncate_sel [simp]:
  "rn_run_id (run_row.truncate x) = rn_run_id x" "rn_tenant_id (run_row.truncate x) = rn_tenant_id x"
  "rn_state (run_row.truncate x) = rn_state x" "rn_agent_id (run_row.truncate x) = rn_agent_id x"
  "rn_shutdown_requested_at (run_row.truncate x) = rn_shutdown_requested_at x"
  "rn_policy_version (run_row.truncate x) = rn_policy_version x"
  "rn_correlation_id (run_row.truncate x) = rn_correlation_id x"
  "rn_parent_run_id (run_row.truncate x) = rn_parent_run_id x"
  by (simp_all add: run_row.defs)

definition names :: "string \<Rightarrow> string \<Rightarrow> 'a run_row_scheme \<Rightarrow> bool" where
  "names t r x \<longleftrightarrow> rn_tenant_id x = t \<and> rn_run_id x = r"

text \<open>A run read now: its names, its state and its probe results are those of the database.\<close>

definition current :: "string \<Rightarrow> string \<Rightarrow> 'a run_view_scheme \<Rightarrow> shutdown_state \<Rightarrow> db \<Rightarrow> bool" where
  "current t r run s d \<longleftrightarrow> names t r run \<and> in_state t r s d \<and>
     knows (dict_of (map (\<lambda>p. (pb_kind p, pb_result p)) (rv_probes run))) t r d"

lemma hoare_get_run:
  "hoare (on V) (get_run t r)
     (\<lambda>run w. on V w \<and> current t r run (rn_state run) (w_db w)) (\<lambda>_. on V)"
proof (rule hoare_pure [OF get_run_pure])
  fix w run
  assume V: "on V w" and run: "get_run t r w = (Inr run, w)"
  note g = get_run_Inr [OF run]
  have "names t r run" using find_run_Some [OF g(2)] by (simp add: names_def)
  then show "on V w \<and> current t r run (rn_state run) (w_db w)"
    using V g(2) knows_loaded [OF g(3)] by (auto simp: current_def in_state_def)
qed

lemma hoare_adapter_run_of:
  "hoare (on V) (adapter_run_of t r)
     (\<lambda>run w. on V w \<and> current t r run (rn_state run) (w_db w)) (\<lambda>_. on V)"
  unfolding adapter_run_of_def
proof (rule hoare_bnd [OF _ hoare_get_run])
  fix run :: run_view
  let ?P = "\<lambda>w. on V w \<and> current t r run (rn_state run) (w_db w)"
  show "hoare ?P (bnd (get_agent t (rn_agent_id run))
           (\<lambda>agent. ret (run_view.extend run (adapter_run.fields agent))))
     (\<lambda>run w. on V w \<and> current t r run (rn_state run) (w_db w)) (\<lambda>_. on V)"
  proof (rule hoare_bnd)
    show "hoare ?P (get_agent t (rn_agent_id run)) (\<lambda>_. ?P) (\<lambda>_. on V)"
      by (rule hoare_pure [OF get_agent_pure]) auto
    show "hoare ?P (ret (run_view.extend run (adapter_run.fields agent)))
       (\<lambda>run w. on V w \<and> current t r run (rn_state run) (w_db w)) (\<lambda>_. on V)" for agent
      by (rule hoare_pre [OF hoare_ret]) (simp add: current_def names_def)
  qed
qed

lemma in_state_fun: "in_state t r s d \<Longrightarrow> in_state t r s' d \<Longrightarrow> s = s'"
  by (auto simp: in_state_def)

lemma current_state: "current t r run s d \<Longrightarrow> in_state t r s' d \<Longrightarrow> s' = s"
  by (auto simp: current_def in_state_def)

text \<open>Facts that only look at the runs and the probes, and facts that only look at the probes.\<close>

definition framed :: "(db \<Rightarrow> bool) \<Rightarrow> bool" where
  "framed F \<longleftrightarrow> (\<forall>d d'. runs d' = runs d \<longrightarrow> probes d' = probes d \<longrightarrow> F d' = F d)"

definition on_probes :: "(db \<Rightarrow> bool) \<Rightarrow> bool" where
  "on_probes G \<longleftrightarrow> (\<forall>d d'. probes d' = probes d \<longrightarrow> G d' = G d)"

lemma framedD: "framed F \<Longrightarrow> runs d' = runs d \<Longrightarrow> probes d' = probes d \<Longrightarrow> F d' = F d"
  unfolding framed_def by blast

lemma on_probesD: "on_probes G \<Longrightarrow> probes d' = probes d \<Longrightarrow> G d' = G d"
  unfolding on_probes_def by blast

lemma framedI [intro]: "(\<And>d d'. runs d' = runs d \<Longrightarrow> probes d' = probes d \<Longrightarrow> F d' = F d) \<Longrightarrow> framed F"
  unfolding framed_def by blast

lemma on_probes_framed: "on_probes G \<Longrightarrow> framed G"
  unfolding on_probes_def by auto

lemma framed_conj: "framed F \<Longrightarrow> framed G \<Longrightarrow> framed (\<lambda>d. F d \<and> G d)"
  unfolding framed_def by metis

lemma on_probes_basic [simp, intro]:
  "on_probes (\<lambda>d. True)" "on_probes (knows ex t r)" "on_probes (no_probe t r k)" "on_probes (all_pass t r)"
  unfolding on_probes_def
  by (simp, metis knows_cong, metis no_probe_cong, metis all_pass_cong)

lemma on_probes_conj: "on_probes F \<Longrightarrow> on_probes G \<Longrightarrow> on_probes (\<lambda>d. F d \<and> G d)"
  unfolding on_probes_def by metis

lemma framed_in_state [simp, intro]: "framed (in_state t r s)" "framed (requested t r)"
  unfolding framed_def by (metis in_state_cong, metis requested_cong)

lemma framed_current [simp, intro]: "framed (current t r run s)"
proof (rule framedI)
  fix d d' :: db
  assume *: "runs d' = runs d" "probes d' = probes d"
  show "current t r run s d' = current t r run s d"
    unfolding current_def in_state_cong [OF *(1)] knows_cong [OF *(2)] by (rule refl)
qed

lemma framed_find_run [simp, intro]: "framed (\<lambda>d. find_run t r d = x)"
  by (rule framedI) (simp add: find_run_def)

text \<open>The shutdown of a run is over: the run is in a terminal state.\<close>

definition over :: "string \<Rightarrow> string \<Rightarrow> db \<Rightarrow> bool" where
  "over t r d \<longleftrightarrow> (\<exists>s. terminal s \<and> in_state t r s d)"

lemma overI: "in_state t r s d \<Longrightarrow> terminal s \<Longrightarrow> over t r d"
  by (auto simp: over_def)

lemma over_le: "over t r d \<Longrightarrow> run_le d d' \<Longrightarrow> over t r d'"
  unfolding over_def in_state_def run_le_def row_le_def by (metis edges_terminal terminal_simps(9,10))

lemma hoare_after_seq:
  "keeps V m \<Longrightarrow> hoare (on V) k Q (\<lambda>_. E) \<Longrightarrow> (\<And>w. on V w \<Longrightarrow> E w) \<Longrightarrow> hoare (on V) (seq m k) Q (\<lambda>_. E)"
  by (rule hoare_seq, assumption, unfold keeps_def) (erule hoare_weaken, auto)

lemma hoare_after_bnd:
  "keeps V m \<Longrightarrow> (\<And>x. hoare (on V) (k x) Q (\<lambda>_. E)) \<Longrightarrow> (\<And>w. on V w \<Longrightarrow> E w) \<Longrightarrow> hoare (on V) (bnd m k) Q (\<lambda>_. E)"
  by (rule hoare_bnd, assumption, unfold keeps_def) (erule hoare_weaken, auto)

text \<open>The rows \<open>append\<close> writes touch neither runs nor probes.\<close>

lemma append_rows_sel [simp]:
  "runs (append_rows rec run d) = runs d" "probes (append_rows rec run d) = probes d"
  "agents (append_rows rec run d) = agents d" "drills (append_rows rec run d) = drills d"
  "reports (append_rows rec run d) = reports d" "delegated_jobs (append_rows rec run d) = delegated_jobs d"
  "evidences (append_rows rec run d) = evidences d @ [stored rec]"
  "event_outbox (append_rows rec run d) = event_outbox d @ [outbox_event rec run]"
  "event_delivery_state (append_rows rec run d) = event_delivery_state d"
  "event_retry_cycle (append_rows rec run d) = event_retry_cycle d"
  "shutdown_works (append_rows rec run d) = shutdown_works d"
  by (simp_all add: append_rows_def)

lemma insert_or_ignore_work_Inr:
  "insert_or_ignore_work x d = Inr d' \<Longrightarrow> \<exists>ws. d' = d\<lparr>shutdown_works := ws\<rparr>"
  by (cases "\<exists>y \<in> set (shutdown_works d). wk_run_id y = wk_run_id x")
    (auto simp: insert_or_ignore_work_def split: if_splits intro: exI [where x = "shutdown_works d"])

lemma find_run_member:
  assumes "wf_db d" and "x \<in> set (runs d)"
  shows "find_run (rn_tenant_id x) (rn_run_id x) d = Some x"
proof -
  have "find_run (rn_tenant_id x) (rn_run_id x) d \<noteq> None"
    using assms(2) by (auto simp: find_run_def find_None_iff)
  then obtain y where y: "find_run (rn_tenant_id x) (rn_run_id x) d = Some y" by blast
  then show ?thesis using wf_unique [OF assms(1) y assms(2)] by simp
qed

lemma resolve_adapter_ok:
  "shutdown_adapter (cp_adapter cp) \<Longrightarrow> shutdown_adapter (resolve_adapter cp x)"
  by (cases x) (simp_all add: resolve_adapter_def synthetic.shutdown_adapter_axioms)

lemma appendable_fresh: "appendable rec run d \<Longrightarrow> \<not> has_event (ev_evidence_id rec) d"
  unfolding appendable_def by (elim conjE)

section \<open>The laws\<close>

text \<open>What is known of a probe that is stored.\<close>

definition new_probe :: "string probe_row \<Rightarrow> db \<Rightarrow> bool" where
  "new_probe p d \<longleftrightarrow>
     no_probe (pb_tenant_id p) (pb_run_id p) (pb_kind p) d \<and> loads (pb_observed p) \<noteq> None \<and>
     (pb_kind p \<in> set PROBE_KINDS \<and> in_state (pb_tenant_id p) (pb_run_id p) PROBING d \<or>
      pb_kind p = ''restart'' \<and> (\<exists>s. terminal s \<and> in_state (pb_tenant_id p) (pb_run_id p) s d))"

locale run_invariant =
  fixes J :: "db \<Rightarrow> bool"
  assumes insert_run: "wf_db d \<Longrightarrow> J d \<Longrightarrow> fresh_run x \<Longrightarrow>
      find_agent (rn_tenant_id x) (rn_agent_id x) d \<noteq> None \<Longrightarrow> insert_run x d = Inr d' \<Longrightarrow> J d'"
    and request_run: "wf_db d \<Longrightarrow> J d \<Longrightarrow> find_run t r d = Some x \<Longrightarrow>
      rn_shutdown_requested_at x = None \<Longrightarrow> J (request_run t r a b k d)"
    and works: "J (d\<lparr>shutdown_works := ws\<rparr>) = J d"
    and set_state: "wf_db d \<Longrightarrow> J d \<Longrightarrow> in_state t r s d \<Longrightarrow> edge s s' \<Longrightarrow> s \<noteq> RUNNING \<Longrightarrow>
      (terminal s' \<longleftrightarrow> stop \<noteq> None) \<Longrightarrow> (s' = VERIFIED \<Longrightarrow> all_pass t r d) \<Longrightarrow> J (set_state t r s' stop d)"
    and insert_probe: "wf_db d \<Longrightarrow> J d \<Longrightarrow> new_probe p d \<Longrightarrow> insert_probe p d = Inr d' \<Longrightarrow> J d'"
    and upsert_job: "wf_db d \<Longrightarrow> J d \<Longrightarrow> in_state (jb_tenant_id j) (jb_run_id j) PROCESS_STOP_SENT d \<Longrightarrow>
      upsert_job j d = Inr d' \<Longrightarrow> J d'"
    and append_rows: "wf_db d \<Longrightarrow> J d \<Longrightarrow> appendable rec run d \<Longrightarrow> J (append_rows rec run d)"
begin

lemma ok_works: "ok J d0 (d\<lparr>shutdown_works := ws\<rparr>) ts = ok J d0 d ts"
  by (simp add: ok_def works wf_db_def run_le_def find_run_def requested_def)

lemma keeps_works [keeps_rules]:
  assumes "framed F"
  shows "keeps (\<lambda>d ts. ok J d0 d ts \<and> F d) (exec (\<lambda>d. d\<lparr>shutdown_works := g d\<rparr>))"
proof (rule keeps_exec)
  fix d ts assume "ok J d0 d ts \<and> F d"
  moreover have "F (d\<lparr>shutdown_works := g d\<rparr>) = F d" using assms by (rule framedD) simp_all
  ultimately show "ok J d0 (d\<lparr>shutdown_works := g d\<rparr>) ts \<and> F (d\<lparr>shutdown_works := g d\<rparr>)"
    by (simp add: ok_works)
qed

lemma keeps_works_checked [keeps_rules]:
  assumes "framed F" and "\<And>d d'. h d = Inr d' \<Longrightarrow> \<exists>ws. d' = d\<lparr>shutdown_works := ws\<rparr>"
  shows "keeps (\<lambda>d ts. ok J d0 d ts \<and> F d) (exec_checked h)"
proof (rule keeps_exec_checked)
  fix d d' ts assume *: "ok J d0 d ts \<and> F d" "h d = Inr d'"
  from assms(2) [OF *(2)] obtain ws where ws: "d' = d\<lparr>shutdown_works := ws\<rparr>" ..
  then have "F d' = F d" using assms(1) by (intro framedD) simp_all
  with * ws show "ok J d0 d' ts \<and> F d'" by (simp add: ok_works)
qed

lemma keeps_append_event:
  assumes "framed F"
  shows "keeps (\<lambda>d ts. ok J d0 d ts \<and> F d) (append_event x ev pl actor)"
  unfolding append_event_def
proof (intro keeps_rules keeps_ledger_append)
  fix d ts rec run
  assume *: "ok J d0 d ts \<and> F d" "appendable rec run d"
  have d: "wf_db d" "J d" using *(1) by (simp_all add: ok_def)
  have "ev_evidence_id rec \<notin> ob_event_id ` set (event_outbox d)"
    using appendable_fresh [OF *(2)] by (force simp: has_event_def)
  then have "wf_db (append_rows rec run d)" using d(1) by (simp add: wf_db_def)
  moreover have "J (append_rows rec run d)" using d *(2) by (rule append_rows)
  moreover have "run_le d (append_rows rec run d)" by (rule run_le_cong) simp
  ultimately have "ok J d0 (append_rows rec run d) ts"
    using *(1) okI by blast
  moreover have "F (append_rows rec run d) = F d" using assms by (rule framedD) simp_all
  ultimately show "ok J d0 (append_rows rec run d) ts \<and> F (append_rows rec run d)" using * by simp
qed

lemma keeps_renew: "framed F \<Longrightarrow> keeps (\<lambda>d ts. ok J d0 d ts \<and> F d) (renew_shutdown_lease cp r lease)"
  unfolding renew_shutdown_lease_def by (intro keeps_rules)

lemma keeps_finish: "framed F \<Longrightarrow> keeps (\<lambda>d ts. ok J d0 d ts \<and> F d) (finish_shutdown_work r lease)"
  unfolding finish_shutdown_work_def by (intro keeps_rules)

lemma keeps_fail: "framed F \<Longrightarrow> keeps (\<lambda>d ts. ok J d0 d ts \<and> F d) (fail_shutdown_work r lease e)"
  unfolding fail_shutdown_work_def by (intro keeps_rules)

lemma keeps_claim: "framed F \<Longrightarrow> keeps (\<lambda>d ts. ok J d0 d ts \<and> F d) (claim_shutdown_work cp t r)"
  unfolding claim_shutdown_work_def
  by (intro keeps_rules) (auto dest: insert_or_ignore_work_Inr)

section \<open>Transitions\<close>

lemma hoare_transition:
  assumes run: "names t r run" and e: "edge s s'" "s \<noteq> RUNNING" "stopped = terminal s'"
    and G: "on_probes G" and pass: "\<And>d. s' = VERIFIED \<Longrightarrow> G d \<Longrightarrow> all_pass t r d"
  shows "hoare (on (\<lambda>d ts. ok J d0 d ts \<and> in_state t r s d \<and> G d)) (transition run s' ev pl actor stopped)
     (\<lambda>_. on (\<lambda>d ts. ok J d0 d ts \<and> in_state t r s' d \<and> G d)) (\<lambda>_. on (\<lambda>d ts. ok J d0 d ts \<and> in_state t r s' d \<and> G d))"
proof -
  let ?V = "\<lambda>s d ts. ok J d0 d ts \<and> in_state t r s d \<and> G d"
  have kept: "ok J d0 (set_state t r s' stop d) ts \<and> in_state t r s' (set_state t r s' stop d) \<and> G (set_state t r s' stop d)"
    if V: "ok J d0 d ts \<and> in_state t r s d \<and> G d" and stop: "(stop \<noteq> None) = terminal s'" for d ts stop
  proof -
    have le: "wf_db (set_state t r s' stop d) \<and> run_le d (set_state t r s' stop d) \<and> in_state t r s' (set_state t r s' stop d)"
      using V e stop by (intro le_set_state) (auto simp: ok_def)
    moreover have "J (set_state t r s' stop d)"
      using V e stop pass by (intro set_state [of d t r s]) (auto simp: ok_def)
    moreover have "G (set_state t r s' stop d) = G d" using G by (rule on_probesD) (simp add: set_state_def)
    ultimately show ?thesis using V okI [of J d0 d ts] by blast
  qed
  have "hoare (on (?V s)) (transaction (exec (set_state t r s' stop))) (\<lambda>_. on (?V s')) (\<lambda>_. on (?V s'))"
    if "(stop \<noteq> None) = terminal s'" for stop
    unfolding hoare_def transaction_def exec_def using kept [OF _ that] by auto
  moreover have "keeps (?V s') (append_event run ev (dict_merge [(''state'', JStr (state_value s'))] pl) actor)"
    by (rule keeps_append_event) (intro framed_conj framed_in_state on_probes_framed [OF G])
  ultimately have rest: "hoare (on (?V s))
      (seq (transaction (exec (set_state (rn_tenant_id run) (rn_run_id run) s' stop)))
           (append_event run ev (dict_merge [(''state'', JStr (state_value s'))] pl) actor))
      (\<lambda>_. on (?V s')) (\<lambda>_. on (?V s'))"
    if "(stop \<noteq> None) = terminal s'" for stop
    using run that unfolding keeps_def names_def by (auto intro: hoare_seq)
  have "hoare (on (?V s)) (if stopped then bnd utc_now (\<lambda>t. ret (Some t)) else ret None)
      (\<lambda>stop w. on (?V s) w \<and> (stop \<noteq> None) = terminal s') (\<lambda>_. on (?V s'))"
    using e(3) by (auto simp: hoare_def m_exec ret_def)
  then show ?thesis unfolding transition_def
    by (rule hoare_bnd [rotated]) (rule hoare_fact, rule rest)
qed

section \<open>Probes and delegated jobs\<close>

lemma loads_observed [simp]: "loads (dumps True '' '' v) \<noteq> None"
  using loads_dumps [of "'' ''" True v] by (simp add: is_ws_def)

lemma hoare_save_probe:
  assumes run: "names t r run"
    and kind: "obs_kind ob \<in> set PROBE_KINDS \<and> s = PROBING \<or> obs_kind ob = ''restart'' \<and> terminal s"
    and ex: "dict_get ex (obs_kind ob) = None"
  shows "hoare (on (\<lambda>d ts. ok J d0 d ts \<and> in_state t r s d \<and> knows ex t r d)) (save_probe run ob ev actor)
     (\<lambda>_. on (\<lambda>d ts. ok J d0 d ts \<and> in_state t r s d \<and> knows (AList.update (obs_kind ob) (obs_result ob) ex) t r d))
     (\<lambda>_. on (ok J d0))"
proof -
  let ?V = "\<lambda>ex d ts. ok J d0 d ts \<and> in_state t r s d \<and> knows ex t r d"
  let ?ex = "AList.update (obs_kind ob) (obs_result ob) ex"
  let ?row = "\<lambda>req i fin. \<lparr>pb_probe_id = i, pb_tenant_id = rn_tenant_id run, pb_run_id = rn_run_id run,
               pb_kind = obs_kind ob, pb_target = ''synthetic/'' @ obs_kind ob,
               pb_requested_at = req, pb_completed_at = fin, pb_result = obs_result ob,
               pb_observed = dumps True '' '' (JObj (obs_observed ob)),
               pb_authority = obs_authority ob, pb_confidence = obs_confidence ob\<rparr>"
  have kept: "?V ?ex d' ts" if V: "?V ex d ts" and ins: "insert_probe (?row req i fin) d = Inr d'" for d d' ts req i fin
  proof -
    have new: "new_probe (?row req i fin) d"
      using V kind knows_None [of ex t r d, OF _ ex] run by (auto simp: new_probe_def names_def)
    have d': "d' = d\<lparr>probes := probes d @ [?row req i fin]\<rparr>" using ins by (simp add: insert_probe_Inr)
    have "wf_db d' \<and> run_le d d'" using V ins by (intro le_insert_probe) (auto simp: ok_def)
    moreover have "J d'" using V new ins insert_probe by (auto simp: ok_def)
    ultimately have "ok J d0 d' ts" using V okI by blast
    moreover have "runs d' = runs d" using d' by simp
    with V have "in_state t r s d'" using in_state_cong by blast
    moreover have "knows ?ex t r d'"
      using knows_add [of ex t r d "?row req i fin" d'] V run d' by (simp add: names_def)
    ultimately show ?thesis by blast
  qed
  have ins: "hoare (on (?V ex)) (transaction (bnd uuid4 (\<lambda>i. bnd utc_now (\<lambda>fin. exec_checked (insert_probe (?row req i fin))))))
      (\<lambda>_. on (?V ?ex)) (\<lambda>_. on (?V ex))" for req
  proof (rule hoare_transaction, intro keeps_rules)
    show "hoare (on (?V ex)) (bnd uuid4 (\<lambda>i. bnd utc_now (\<lambda>fin. exec_checked (insert_probe (?row req i fin)))))
      (\<lambda>_. on (?V ?ex)) (\<lambda>_ _. True)"
      by (intro hoare_after_bnd keeps_rules hoare_weaken [OF hoare_checked [where V = "?V ex" and U = "?V ?ex"]])
        (erule (1) kept, auto)
  qed
  have "keeps (?V ?ex) (append_event run ev (to_dict ob) actor)"
    by (intro keeps_append_event framed_conj framed_in_state on_probes_framed on_probes_basic)
  then have app: "hoare (on (?V ?ex)) (append_event run ev (to_dict ob) actor) (\<lambda>_. on (?V ?ex)) (\<lambda>_. on (ok J d0))"
    unfolding keeps_def by (rule hoare_weaken) auto
  show ?thesis unfolding save_probe_def
  proof (rule hoare_after_bnd)
    show "keeps (?V ex) utc_now" by (rule keeps_rules)
    show "hoare (on (?V ex)) (seq (transaction (bnd uuid4 (\<lambda>i. bnd utc_now (\<lambda>fin. exec_checked (insert_probe (?row req i fin))))))
        (append_event run ev (to_dict ob) actor)) (\<lambda>_. on (?V ?ex)) (\<lambda>_. on (ok J d0))" for req
      by (rule hoare_seq [OF app]) (rule hoare_weaken [OF ins], auto)
  qed auto
qed

lemma keeps_save_jobs:
  assumes run: "names t r run"
  shows "keeps (\<lambda>d ts. ok J d0 d ts \<and> in_state t r PROCESS_STOP_SENT d) (save_delegated_jobs run children)"
proof -
  have kept: "ok J d0 d' ts \<and> in_state t r PROCESS_STOP_SENT d'"
    if V: "ok J d0 d ts \<and> in_state t r PROCESS_STOP_SENT d" and ins: "upsert_job j d = Inr d'"
      and j: "jb_tenant_id j = t" "jb_run_id j = r" for d d' ts j
  proof -
    have d': "runs d' = runs d" "probes d' = probes d" "event_outbox d' = event_outbox d"
      using ins by (auto simp: upsert_job_def split: if_splits)
    have "J d'" using V ins j upsert_job [of d j d'] by (auto simp: ok_def)
    moreover have "wf_db d'" using V d' by (simp add: ok_def wf_db_def)
    moreover have "run_le d d'" using d'(1) by (rule run_le_cong)
    ultimately have "ok J d0 d' ts" using V okI by blast
    moreover have "in_state t r PROCESS_STOP_SENT d'" using V in_state_cong [OF d'(1)] by blast
    ultimately show ?thesis ..
  qed
  show ?thesis
    unfolding save_delegated_jobs_def save_job_def
    by (intro keeps_rules keeps_exec_checked, erule (1) kept) (use run in \<open>simp_all add: names_def\<close>)
qed

section \<open>The phases\<close>

lemma hoare_advance:
  assumes run: "names t r run" and e: "edge s s'" "s \<noteq> RUNNING" "\<not> terminal s'"
  shows "hoare (on (\<lambda>d ts. ok J d0 d ts \<and> in_state t r s d))
     (seq (transition run s' ev pl actor False) (bnd (adapter_run_of t r) (\<lambda>run'. ret (run', s'))))
     (\<lambda>(run', st) w. on (ok J d0) w \<and> current t r run' st (w_db w)) (\<lambda>_. on (ok J d0))"
proof (rule hoare_seq)
  let ?V = "\<lambda>d ts. ok J d0 d ts \<and> in_state t r s' d"
  show "hoare (on (\<lambda>d ts. ok J d0 d ts \<and> in_state t r s d)) (transition run s' ev pl actor False) (\<lambda>_. on ?V) (\<lambda>_. on (ok J d0))"
  proof (rule hoare_weaken)
    show "hoare (on (\<lambda>d ts. ok J d0 d ts \<and> in_state t r s d \<and> True)) (transition run s' ev pl actor False)
       (\<lambda>_. on (\<lambda>d ts. ok J d0 d ts \<and> in_state t r s' d \<and> True)) (\<lambda>_. on (\<lambda>d ts. ok J d0 d ts \<and> in_state t r s' d \<and> True))"
      using e(3) by (intro hoare_transition [OF run e(1,2)]) auto
  qed auto
  show "hoare (on ?V) (bnd (adapter_run_of t r) (\<lambda>run'. ret (run', s')))
     (\<lambda>(run', st) w. on (ok J d0) w \<and> current t r run' st (w_db w)) (\<lambda>_. on (ok J d0))"
  proof (rule hoare_bnd)
    show "hoare (on ?V) (adapter_run_of t r) (\<lambda>run w. on ?V w \<and> current t r run (rn_state run) (w_db w)) (\<lambda>_. on (ok J d0))"
      by (rule hoare_weaken [OF hoare_adapter_run_of [where V = ?V]]) auto
    show "hoare (\<lambda>w. on ?V w \<and> current t r run' (rn_state run') (w_db w)) (ret (run', s'))
       (\<lambda>(run', st) w. on (ok J d0) w \<and> current t r run' st (w_db w)) (\<lambda>_. on (ok J d0))" for run'
      by (rule hoare_pre [OF hoare_ret]) (auto dest: current_state)
  qed
qed

text \<open>The position of \<open>_orchestrate\<close> between two phases.\<close>

definition at_phase :: "string \<Rightarrow> string \<Rightarrow> db \<Rightarrow> adapter_run \<times> shutdown_state \<Rightarrow> world \<Rightarrow> bool" where
  "at_phase t r d0 x w \<longleftrightarrow> (case x of (run, s) \<Rightarrow> on (ok J d0) w \<and> current t r run s (w_db w))"

lemma hoare_skip_phase:
  "(s = s0 \<Longrightarrow> hoare (at_phase t r d0 (run, s)) m (at_phase t r d0) (\<lambda>_. on (ok J d0))) \<Longrightarrow>
     hoare (at_phase t r d0 (run, s)) (if s = s0 then m else ret (run, s)) (at_phase t r d0) (\<lambda>_. on (ok J d0))"
  by (auto simp: hoare_def ret_def)

lemma at_phase_pre:
  assumes "names t r run \<Longrightarrow> hoare (on (\<lambda>d ts. ok J d0 d ts \<and> in_state t r s d)) m
     (\<lambda>(run', st) w. on (ok J d0) w \<and> current t r run' st (w_db w)) (\<lambda>_. on (ok J d0))"
  shows "hoare (at_phase t r d0 (run, s)) m (at_phase t r d0) (\<lambda>_. on (ok J d0))"
proof (cases "names t r run")
  case True
  show ?thesis
    by (rule hoare_weaken [OF assms [OF True]]) (auto simp: at_phase_def current_def)
next
  case False
  then show ?thesis by (auto simp: hoare_def at_phase_def current_def)
qed

lemma hoare_phase_fence:
  "hoare (at_phase t r d0 x) (phase_fence cp ad t r actor lease x) (at_phase t r d0) (\<lambda>_. on (ok J d0))"
  unfolding phase_fence_def
  by (cases x, simp only: prod.case, intro hoare_skip_phase at_phase_pre hoare_after_seq hoare_after_bnd
      keeps_renew framed_in_state keeps_lift_ext hoare_advance)
    (auto intro: edge.intros)

lemma hoare_phase_stop:
  "hoare (at_phase t r d0 x) (phase_stop cp ad t r actor lease x) (at_phase t r d0) (\<lambda>_. on (ok J d0))"
  unfolding phase_stop_def
  by (cases x, simp only: prod.case, intro hoare_skip_phase at_phase_pre hoare_after_seq hoare_after_bnd
      keeps_renew framed_in_state keeps_lift_ext hoare_advance)
    (auto intro: edge.intros)

lemma hoare_phase_discover:
  "hoare (at_phase t r d0 x) (phase_discover cp ad t r actor lease x) (at_phase t r d0) (\<lambda>_. on (ok J d0))"
  unfolding phase_discover_def
  by (cases x, simp only: prod.case, rule hoare_skip_phase, rule at_phase_pre, rule hoare_after_seq,
      rule keeps_renew [OF framed_in_state(1)], rule hoare_after_bnd, rule keeps_lift_ext, rule hoare_after_seq,
      simp only:, erule keeps_save_jobs)
    (auto intro!: hoare_advance edge.intros)

lemma hoare_phase_probing:
  "hoare (at_phase t r d0 x) (phase_probing t r actor x) (at_phase t r d0) (\<lambda>_. on (ok J d0))"
  unfolding phase_probing_def
  by (cases x, simp only: prod.case, intro hoare_skip_phase at_phase_pre hoare_advance)
    (auto intro: edge.intros)

section \<open>Probing and completion\<close>

lemma keeps_deadline [keeps_rules]: "keeps V (deadline_expired x)"
  unfolding deadline_expired_def by (intro keeps_rules)

lemma hoare_expire:
  assumes run: "names t r run" and s: "s \<noteq> RUNNING"
  shows "hoare (on (\<lambda>d ts. ok J d0 d ts \<and> in_state t r s d)) (expire_shutdown run lease)
     (\<lambda>_. on (\<lambda>d ts. ok J d0 d ts \<and> in_state t r S_UNKNOWN d)) (\<lambda>_. on (ok J d0))"
  unfolding expire_shutdown_def
proof (rule hoare_seq)
  let ?V = "\<lambda>d ts. ok J d0 d ts \<and> in_state t r S_UNKNOWN d \<and> True"
  show "hoare (on (\<lambda>d ts. ok J d0 d ts \<and> in_state t r s d))
      (transition run S_UNKNOWN ''shutdown.recovery.deadline.exceeded'' [(''deadline_at'', opt_iso (rn_deadline_at run))]
        ''recovery-worker'' True) (\<lambda>_. on ?V) (\<lambda>_. on (ok J d0))"
  proof (rule hoare_weaken)
    show "hoare (on (\<lambda>d ts. ok J d0 d ts \<and> in_state t r s d \<and> True))
      (transition run S_UNKNOWN ''shutdown.recovery.deadline.exceeded'' [(''deadline_at'', opt_iso (rn_deadline_at run))]
        ''recovery-worker'' True) (\<lambda>_. on ?V) (\<lambda>_. on ?V)"
      by (rule hoare_transition [OF run edge.expired [OF s] s]) auto
  qed auto
  show "hoare (on ?V) (finish_shutdown_work (rn_run_id run) lease)
      (\<lambda>_. on (\<lambda>d ts. ok J d0 d ts \<and> in_state t r S_UNKNOWN d)) (\<lambda>_. on (ok J d0))"
    by (intro hoare_weaken [OF keeps_finish [of "\<lambda>d. in_state t r S_UNKNOWN d \<and> True", unfolded keeps_def]]
        framed_conj framed_in_state on_probes_framed on_probes_basic) auto
qed

lemma hoare_expire_over:
  assumes "names t r run" and "s \<noteq> RUNNING"
  shows "hoare (on (\<lambda>d ts. ok J d0 d ts \<and> in_state t r s d)) (expire_shutdown run lease)
     (\<lambda>_. on (\<lambda>d ts. ok J d0 d ts \<and> over t r d)) (\<lambda>_. on (ok J d0))"
  by (rule hoare_weaken [OF hoare_expire [OF assms]]) (auto intro: overI)

lemma hoare_probe_loop:
  assumes ad: "shutdown_adapter ad" and run: "names t r run" and kinds: "set kinds \<subseteq> set PROBE_KINDS"
  shows "hoare (on (\<lambda>d ts. ok J d0 d ts \<and> in_state t r PROBING d \<and> knows ex t r d))
     (probe_loop cp ad r lease run kinds ex)
     (\<lambda>res w. case res of None \<Rightarrow> on (\<lambda>d ts. ok J d0 d ts \<and> over t r d) w
        | Some ex' \<Rightarrow> on (\<lambda>d ts. ok J d0 d ts \<and> in_state t r PROBING d \<and> knows ex' t r d) w)
     (\<lambda>_. on (ok J d0))"
  using kinds
proof (induction kinds arbitrary: ex)
  case Nil
  show ?case by (simp add: hoare_def ret_def)
next
  case (Cons k kinds)
  let ?V = "\<lambda>ex d ts. ok J d0 d ts \<and> in_state t r PROBING d \<and> knows ex t r d"
  let ?Q = "\<lambda>res w. case res of None \<Rightarrow> on (\<lambda>d ts. ok J d0 d ts \<and> over t r d) w | Some ex' \<Rightarrow> on (?V ex') w"
  have fr: "framed (\<lambda>d. in_state t r PROBING d \<and> knows ex t r d)"
    by (intro framed_conj framed_in_state on_probes_framed on_probes_basic)
  show ?case
  proof (cases "dict_get ex k")
    case (Some v)
    then show ?thesis using Cons by simp
  next
    case None
    have expire: "hoare (on (?V ex)) (seq (expire_shutdown run lease) (ret None)) ?Q (\<lambda>_. on (ok J d0))"
    proof (rule hoare_seq)
      show "hoare (on (?V ex)) (expire_shutdown run lease) (\<lambda>_. on (\<lambda>d ts. ok J d0 d ts \<and> over t r d)) (\<lambda>_. on (ok J d0))"
        by (rule hoare_pre [OF hoare_expire_over [OF run, of PROBING]]) auto
      show "hoare (on (\<lambda>d ts. ok J d0 d ts \<and> over t r d)) (ret None) ?Q (\<lambda>_. on (ok J d0))" by (simp add: hoare_def ret_def)
    qed
    have save: "hoare (\<lambda>w. on (?V ex) w \<and> obs_kind ob = k)
        (seq (save_probe run ob ''shutdown.probe.result'' ''probe-runner'')
             (probe_loop cp ad r lease run kinds (AList.update k (obs_result ob) ex))) ?Q (\<lambda>_. on (ok J d0))" for ob
    proof (rule hoare_fact)
      assume k: "obs_kind ob = k"
      have "hoare (on (?V ex)) (save_probe run ob ''shutdown.probe.result'' ''probe-runner'')
          (\<lambda>_. on (?V (AList.update k (obs_result ob) ex))) (\<lambda>_. on (ok J d0))"
        using hoare_save_probe [OF run, of ob PROBING ex] None k Cons.prems by simp
      then show "hoare (on (?V ex)) (seq (save_probe run ob ''shutdown.probe.result'' ''probe-runner'')
             (probe_loop cp ad r lease run kinds (AList.update k (obs_result ob) ex))) ?Q (\<lambda>_. on (ok J d0))"
        using Cons.IH Cons.prems by (intro hoare_seq) auto
    qed
    have probe: "hoare (on (?V ex)) (lift_ext (ad_probe ad k run)) (\<lambda>ob w. on (?V ex) w \<and> obs_kind ob = k) (\<lambda>_. on (ok J d0))"
      using shutdown_adapter.probe_kind [OF ad, of k run] Cons.prems
      by (auto simp: hoare_def lift_ext_def split: prod.splits sum.splits)
    have go: "hoare (on (?V ex))
        (seq (renew_shutdown_lease cp r lease)
         (bnd (lift_ext (ad_probe ad k run)) (\<lambda>ob.
          seq (save_probe run ob ''shutdown.probe.result'' ''probe-runner'')
              (probe_loop cp ad r lease run kinds (AList.update k (obs_result ob) ex))))) ?Q (\<lambda>_. on (ok J d0))"
      by (intro hoare_after_seq keeps_renew [OF fr] hoare_bnd [OF save probe]) auto
    have "hoare (on (?V ex)) (bnd (deadline_expired run) (\<lambda>expired.
        if expired then seq (expire_shutdown run lease) (ret None)
        else seq (renew_shutdown_lease cp r lease)
         (bnd (lift_ext (ad_probe ad k run)) (\<lambda>ob.
          seq (save_probe run ob ''shutdown.probe.result'' ''probe-runner'')
              (probe_loop cp ad r lease run kinds (AList.update k (obs_result ob) ex)))))) ?Q (\<lambda>_. on (ok J d0))"
    proof (rule hoare_after_bnd [OF keeps_deadline])
      show "hoare (on (?V ex)) (if expired then seq (expire_shutdown run lease) (ret None)
        else seq (renew_shutdown_lease cp r lease)
         (bnd (lift_ext (ad_probe ad k run)) (\<lambda>ob.
          seq (save_probe run ob ''shutdown.probe.result'' ''probe-runner'')
              (probe_loop cp ad r lease run kinds (AList.update k (obs_result ob) ex))))) ?Q (\<lambda>_. on (ok J d0))" for expired
        using expire go by (cases expired) simp_all
    qed auto
    then show ?thesis using None by simp
  qed
qed

lemma hoare_complete:
  "hoare (on (\<lambda>d ts. ok J d0 d ts \<and> in_state t r PROBING d \<and> knows ex t r d))
     (complete_shutdown t r actor lease ex)
     (\<lambda>_. on (\<lambda>d ts. ok J d0 d ts \<and> over t r d)) (\<lambda>_. on (ok J d0))"
proof -
  let ?G = "\<lambda>d. knows ex t r d"
  let ?s = "aggregate_probe_results (final_results ex)"
  let ?V = "\<lambda>s d ts. ok J d0 d ts \<and> in_state t r s d \<and> ?G d"
  have fin: "hoare (on (?V ?s)) (finish_shutdown_work r lease) (\<lambda>_. on (\<lambda>d ts. ok J d0 d ts \<and> over t r d)) (\<lambda>_. on (ok J d0))"
    by (intro hoare_weaken [OF keeps_finish [of "\<lambda>d. in_state t r ?s d \<and> ?G d", unfolded keeps_def]]
        framed_conj framed_in_state on_probes_framed on_probes_basic) (auto intro: overI aggregate_terminal)
  have tr: "hoare (on (?V PROBING)) (transition run ?s ev pl actor True) (\<lambda>_. on (?V ?s)) (\<lambda>_. on (ok J d0))"
    if "names t r run" for run :: run_view and ev pl
    using that aggregate_terminal knows_all_pass
    by (intro hoare_weaken [OF hoare_transition [OF that, where s = PROBING and G = ?G]] edge.completed) auto
  have "hoare (on (?V PROBING)) (get_run t r) (\<lambda>run w. on (?V PROBING) w \<and> names t r run) (\<lambda>_. on (ok J d0))"
    by (rule hoare_weaken [OF hoare_get_run [where V = "?V PROBING"]]) (auto simp: current_def)
  then show ?thesis unfolding complete_shutdown_def Let_def
    by (rule hoare_bnd [rotated]) (intro hoare_fact hoare_seq [OF fin] tr)
qed

lemma hoare_run_probes:
  assumes ad: "shutdown_adapter ad"
  shows "hoare (at_phase t r d0 x) (run_probes cp ad t r actor lease x) (\<lambda>_. on (\<lambda>d ts. ok J d0 d ts \<and> over t r d)) (\<lambda>_. on (ok J d0))"
proof (cases x)
  case (Pair run s)
  show ?thesis
  proof (cases "s = PROBING \<and> names t r run")
    case True
    then have run: "names t r run" by simp
    let ?Q = "\<lambda>res w. case res of None \<Rightarrow> on (\<lambda>d ts. ok J d0 d ts \<and> over t r d) w
        | Some ex' \<Rightarrow> on (\<lambda>d ts. ok J d0 d ts \<and> in_state t r PROBING d \<and> knows ex' t r d) w"
    have a: "hoare (at_phase t r d0 x) (probe_loop cp ad r lease run PROBE_KINDS (existing_results run)) ?Q (\<lambda>_. on (ok J d0))"
      using Pair True
      by (intro hoare_pre [OF hoare_probe_loop [OF ad run]]) (auto simp: at_phase_def current_def existing_results_def)
    have b: "hoare (?Q res) (case res of None \<Rightarrow> ret () | Some ex \<Rightarrow> complete_shutdown t r actor lease ex)
        (\<lambda>_. on (\<lambda>d ts. ok J d0 d ts \<and> over t r d)) (\<lambda>_. on (ok J d0))" for res
      using hoare_complete by (cases res) (auto simp: hoare_def ret_def)
    have "hoare (at_phase t r d0 x) (bnd (probe_loop cp ad r lease run PROBE_KINDS (existing_results run))
        (\<lambda>res. case res of None \<Rightarrow> ret () | Some ex \<Rightarrow> complete_shutdown t r actor lease ex))
        (\<lambda>_. on (\<lambda>d ts. ok J d0 d ts \<and> over t r d)) (\<lambda>_. on (ok J d0))"
      by (rule hoare_bnd [OF b a])
    then show ?thesis using True unfolding run_probes_def Pair by simp
  next
    case False
    have "hoare (on (\<lambda>d ts. ok J d0 d ts \<and> in_state t r s d)) (if terminal s then finish_shutdown_work r lease else throw e)
        (\<lambda>_. on (\<lambda>d ts. ok J d0 d ts \<and> over t r d)) (\<lambda>_. on (ok J d0))" for e
    proof (cases "terminal s")
      case True
      then show ?thesis
        by (auto intro!: hoare_weaken [OF keeps_finish [of "in_state t r s", unfolded keeps_def]] intro: overI)
    qed (auto simp: hoare_def throw_def)
    then show ?thesis using False unfolding run_probes_def Pair
      by (auto simp: at_phase_def current_def hoare_def)
  qed
qed

section \<open>\<open>_orchestrate\<close>\<close>

lemma keeps_true:
  assumes "\<And>F. framed F \<Longrightarrow> keeps (\<lambda>d ts. ok J d0 d ts \<and> F d) m"
  shows "keeps (ok J d0) m"
proof -
  have "keeps (\<lambda>d ts. ok J d0 d ts \<and> True) m" by (rule assms) (simp add: framed_def)
  then show ?thesis by simp
qed

text \<open>A run that is there can be read: the observations of its probes are JSON.\<close>

lemma get_run_succeeds:
  assumes "wf_db (w_db w)" and "find_run t r (w_db w) \<noteq> None"
  shows "\<exists>run. get_run t r w = (Inr run, w)"
proof -
  have "\<exists>ys. collect load_probe xs = Inr ys" if "set xs \<subseteq> set (probes (w_db w))" for xs
    using that
  proof (induction xs)
    case (Cons p xs)
    then have "loads (pb_observed p) \<noteq> None" using assms(1) by (simp add: wf_db_def)
    then show ?case using Cons by (auto simp: load_probe_def py_loads_def)
  qed simp
  moreover have "set (select_probes t r (w_db w)) \<subseteq> set (probes (w_db w))" by (auto simp: select_probes_def)
  ultimately obtain ps where "collect load_probe (select_probes t r (w_db w)) = Inr ps" by blast
  then show ?thesis using assms(2) by (auto simp: get_run_def m_exec lift_def)
qed

lemma requested_current:
  assumes "on (ok J d0) w" and "requested t r d0" and "current t r run (rn_state run) (w_db w)"
  shows "names t r run" and "rn_state run \<noteq> RUNNING"
proof -
  have "requested t r (w_db w)" "wf_db (w_db w)" using assms ok_requested okD by blast+
  then show "rn_state run \<noteq> RUNNING" using assms(3) by (metis requested_in_state current_state)
  show "names t r run" using assms(3) by (simp add: current_def)
qed

text \<open>The failure path never raises, and ends the shutdown.\<close>

lemma hoare_orchestrate_failed:
  assumes req: "requested t r d0"
  shows "hoare (on (ok J d0)) (orchestrate_failed t r lease error) (\<lambda>_. on (\<lambda>d ts. ok J d0 d ts \<and> in_state t r FAILED d)) (\<lambda>_ _. False)"
  unfolding orchestrate_failed_def
proof (rule hoare_seq)
  have "keeps (ok J d0) (fail_shutdown_work r lease error)"
    by (rule keeps_true) (rule keeps_fail)
  then show "hoare (on (ok J d0)) (fail_shutdown_work r lease error) (\<lambda>_. on (ok J d0)) (\<lambda>_ _. False)"
    by (auto simp: keeps_iff hoare_def fail_shutdown_work_def transaction_def m_exec)
  let ?pl = "[(''result'', JStr ''FAILED''), (''error'', JStr (class_name (exn_class error))),
                 (''message'', JStr (exn_message error))]"
  have tr: "hoare (\<lambda>w. on (ok J d0) w \<and> current t r run (rn_state run) (w_db w))
       (transition run FAILED ''shutdown.completed'' ?pl ''orchestrator'' True) (\<lambda>_. on (\<lambda>d ts. ok J d0 d ts \<and> in_state t r FAILED d)) (\<lambda>_. on (\<lambda>d ts. ok J d0 d ts \<and> in_state t r FAILED d))" for run :: run_view
  proof (cases "names t r run \<and> rn_state run \<noteq> RUNNING")
    case True
    then have "hoare (on (\<lambda>d ts. ok J d0 d ts \<and> in_state t r (rn_state run) d \<and> True))
       (transition run FAILED ''shutdown.completed'' ?pl ''orchestrator'' True)
       (\<lambda>_. on (\<lambda>d ts. ok J d0 d ts \<and> in_state t r FAILED d \<and> True))
       (\<lambda>_. on (\<lambda>d ts. ok J d0 d ts \<and> in_state t r FAILED d \<and> True))"
      by (intro hoare_transition edge.failed) auto
    then show ?thesis by (rule hoare_weaken) (auto simp: current_def)
  next
    case False
    then show ?thesis using requested_current [OF _ req] by (auto simp: hoare_def)
  qed
  have get: "hoare (on (ok J d0)) (get_run t r)
      (\<lambda>run w. on (ok J d0) w \<and> current t r run (rn_state run) (w_db w)) (\<lambda>_. on (\<lambda>d ts. ok J d0 d ts \<and> in_state t r FAILED d))"
  proof (rule hoareI)
    fix w run w'
    assume "on (ok J d0) w" "get_run t r w = (Inr run, w')"
    then show "on (ok J d0) w' \<and> current t r run (rn_state run) (w_db w')"
      using hoareD_Inr [OF hoare_get_run] by blast
  next
    fix w e w'
    assume w: "on (ok J d0) w" and e: "get_run t r w = (Inl e, w')"
    have "wf_db (w_db w)" "find_run t r (w_db w) \<noteq> None"
      using okD [OF w] ok_requested [OF w req] by (auto simp: requested_def)
    from get_run_succeeds [OF this] show "on (\<lambda>d ts. ok J d0 d ts \<and> in_state t r FAILED d) w'" using e by simp
  qed
  show "hoare (on (ok J d0)) (catch (bnd (get_run t r) (\<lambda>run. transition run FAILED ''shutdown.completed'' ?pl ''orchestrator'' True))
       (\<lambda>_. ret ())) (\<lambda>_. on (\<lambda>d ts. ok J d0 d ts \<and> in_state t r FAILED d)) (\<lambda>_ _. False)"
    by (rule hoare_catch [OF _ hoare_bnd [OF tr get]]) (simp add: hoare_def ret_def)
qed

lemma hoare_orchestrate_body:
  assumes ad: "shutdown_adapter ad" and req: "requested t r d0"
  shows "hoare (on (ok J d0)) (orchestrate_body cp t r actor ad recovering lease) (\<lambda>_. on (\<lambda>d ts. ok J d0 d ts \<and> over t r d)) (\<lambda>_. on (ok J d0))"
  unfolding orchestrate_body_def
proof (rule hoare_bnd [OF _ hoare_adapter_run_of])
  fix run :: adapter_run
  let ?s = "rn_state run"
  let ?V = "\<lambda>d ts. ok J d0 d ts \<and> current t r run ?s d"
  let ?k = "bnd (phase_fence cp ad t r actor lease (run, ?s)) (\<lambda>s1.
       bnd (phase_stop cp ad t r actor lease s1) (\<lambda>s2.
       bnd (phase_discover cp ad t r actor lease s2) (\<lambda>s3.
       bnd (phase_probing t r actor s3) (\<lambda>s4.
       run_probes cp ad t r actor lease s4))))"
  have phases: "hoare (on ?V) ?k (\<lambda>_. on (\<lambda>d ts. ok J d0 d ts \<and> over t r d)) (\<lambda>_. on (ok J d0))"
  proof (rule hoare_pre)
    show "hoare (at_phase t r d0 (run, ?s)) ?k (\<lambda>_. on (\<lambda>d ts. ok J d0 d ts \<and> over t r d)) (\<lambda>_. on (ok J d0))"
      by (intro hoare_bnd [OF _ hoare_phase_fence] hoare_bnd [OF _ hoare_phase_stop]
          hoare_bnd [OF _ hoare_phase_discover] hoare_bnd [OF _ hoare_phase_probing] hoare_run_probes [OF ad])
  qed (simp add: at_phase_def)
  have expire: "hoare (on ?V) (expire_shutdown run lease) (\<lambda>_. on (\<lambda>d ts. ok J d0 d ts \<and> over t r d)) (\<lambda>_. on (ok J d0))"
  proof (cases "names t r run \<and> ?s \<noteq> RUNNING")
    case True
    then show ?thesis by (intro hoare_pre [OF hoare_expire_over [where s = ?s]]) (auto simp: current_def)
  next
    case False
    then show ?thesis using requested_current [OF _ req] by (auto simp: hoare_def)
  qed
  have "hoare (on ?V) (seq (if recovering then append_event run ''shutdown.recovery.resumed'' pl ''recovery-worker'' else ret ())
     (bnd (deadline_expired run) (\<lambda>expired. if expired then expire_shutdown run lease else ?k)))
     (\<lambda>_. on (\<lambda>d ts. ok J d0 d ts \<and> over t r d)) (\<lambda>_. on (ok J d0))" for pl
  proof (intro hoare_after_seq hoare_after_bnd [OF keeps_deadline] keeps_if keeps_append_event keeps_ret framed_current)
    show "hoare (on ?V) (if expired then expire_shutdown run lease else ?k) (\<lambda>_. on (\<lambda>d ts. ok J d0 d ts \<and> over t r d)) (\<lambda>_. on (ok J d0))" for expired
      using phases expire by (cases expired) simp_all
  qed auto
  then show "hoare (on ?V) (seq (if recovering then append_event run ''shutdown.recovery.resumed''
              [(''state'', JStr (state_value ?s)), (''worker_id'', JStr (cp_worker_id cp))] ''recovery-worker'' else ret ())
     (bnd (deadline_expired run) (\<lambda>expired. if expired then expire_shutdown run lease else ?k)))
     (\<lambda>_. on (\<lambda>d ts. ok J d0 d ts \<and> over t r d)) (\<lambda>_. on (ok J d0))" .
qed

lemma hoare_failed_over:
  assumes "requested t r d0"
  shows "hoare (on (ok J d0)) (orchestrate_failed t r lease error)
     (\<lambda>_. on (\<lambda>d ts. ok J d0 d ts \<and> over t r d)) (\<lambda>_ _. False)"
  by (rule hoare_weaken [OF hoare_orchestrate_failed [OF assms]]) (auto intro: overI)

text \<open>With a lease, \<open>_orchestrate\<close> never raises, and the shutdown is over when it returns.\<close>

lemma hoare_orchestrate:
  assumes "shutdown_adapter ad" and "requested t r d0"
  shows "hoare (on (ok J d0)) (orchestrate cp t r actor ad recovering (Some lease)) (\<lambda>_. on (\<lambda>d ts. ok J d0 d ts \<and> over t r d)) (\<lambda>_ _. False)"
proof -
  have "hoare (on (ok J d0)) (catch (orchestrate_body cp t r actor ad recovering lease) (orchestrate_failed t r lease))
      (\<lambda>_. on (\<lambda>d ts. ok J d0 d ts \<and> over t r d)) (\<lambda>_ _. False)"
    by (rule hoare_catch [OF hoare_failed_over [OF assms(2)] hoare_orchestrate_body [OF assms]])
  then show ?thesis by (simp add: orchestrate_def m_exec hoare_def)
qed

lemma keeps_over: "hoare (on (ok J d0)) m (\<lambda>_. on (\<lambda>d ts. ok J d0 d ts \<and> over t r d)) E \<Longrightarrow> (\<And>e w. E e w \<Longrightarrow> on (ok J d0) w) \<Longrightarrow> keeps (ok J d0) m"
  unfolding keeps_def by (erule hoare_weaken) auto

lemma keeps_orchestrate:
  assumes "shutdown_adapter ad" and "requested t r d0"
  shows "keeps (ok J d0) (orchestrate cp t r actor ad recovering lease)"
proof -
  have "keeps (ok J d0) (catch (orchestrate_body cp t r actor ad recovering l) (orchestrate_failed t r l))" for l
    by (rule keeps_over [OF hoare_catch [OF hoare_failed_over hoare_orchestrate_body]]) (simp_all add: assms)
  then show ?thesis unfolding orchestrate_def
    by (intro keeps_bnd keeps_case_option keeps_ret keeps_true [OF keeps_claim])
qed

section \<open>\<open>request_shutdown\<close>, \<open>recover_incomplete_shutdowns\<close>\<close>

lemma hoare_record_request:
  "hoare (on (ok J d0)) (record_request cp t r key)
     (\<lambda>out w. on (ok J d0) w \<and> (\<forall>run. out = Inr run \<longrightarrow> names t r run \<and> requested t r (w_db w)))
     (\<lambda>_. on (ok J d0))"
  unfolding record_request_def
proof (rule hoare_transaction)
  let ?m = "bnd (query (find_run t r)) (\<lambda>row.
       case row of
         None \<Rightarrow> throw (Exn NotFoundError ''run not found for tenant'')
       | Some run \<Rightarrow>
           if rn_shutdown_requested_at run \<noteq> None then
             if rn_shutdown_idempotency_key run \<noteq> Some key then
               throw (Exn ConflictError ''shutdown already requested with a different idempotency key'')
             else ret (Inl (shutdown_receipt run))
           else
             bnd utc_now (\<lambda>requested_at.
             bnd utc_now (\<lambda>now.
             bnd (lift (plus_seconds now (cp_deadline_seconds cp))) (\<lambda>deadline_at.
             seq (exec (Orchestrator.request_run t r requested_at deadline_at key))
            (seq (exec_checked (request_work t r requested_at))
            (ret (Inr (mark_requested requested_at deadline_at key run))))))))"
  show "quiet ?m" by (intro keeps_rules)
  show "hoare (on (ok J d0)) ?m
     (\<lambda>out w. on (ok J d0) w \<and> (\<forall>run. out = Inr run \<longrightarrow> names t r run \<and> requested t r (w_db w))) (\<lambda>_ _. True)"
  proof (rule hoareI, rule TrueI)
    fix w out w'
    assume ok: "on (ok J d0) w" and run: "?m w = (Inr out, w')"
    from run obtain x where x: "find_run t r (w_db w) = Some x"
      by (auto simp: m_exec split: option.splits)
    show "on (ok J d0) w' \<and> (\<forall>run. out = Inr run \<longrightarrow> names t r run \<and> requested t r (w_db w'))"
    proof (cases "rn_shutdown_requested_at x = None")
      case False
      with run x ok show ?thesis by (auto simp: m_exec split: if_splits)
    next
      case True
      let ?a = "w_clock w (w_ticks w)"
      from run x True obtain b d where b: "out = Inr (mark_requested ?a b key x)"
          "request_work t r ?a (Orchestrator.request_run t r ?a b key (w_db w)) = Inr d" "w_db w' = d" "w_threads w' = w_threads w"
        by (auto simp: m_exec split: sum.splits)
      let ?d = "Orchestrator.request_run t r ?a b key (w_db w)"
      obtain ws where ws: "d = ?d\<lparr>shutdown_works := ws\<rparr>"
        using b(2) by (auto simp: request_work_def split: if_splits)
      have le: "wf_db ?d \<and> run_le (w_db w) ?d \<and> requested t r ?d"
        using ok x True by (intro le_request_run) (auto simp: ok_def)
      moreover have "J ?d" using ok x True request_run by (auto simp: ok_def)
      ultimately have "ok J d0 ?d (w_threads w)" using ok okI by blast
      then have "on (ok J d0) w'" using ws b by (simp add: ok_works)
      moreover have "requested t r (w_db w')" using le b(3) ws by (simp add: requested_def find_run_def)
      moreover have "names t r (mark_requested ?a b key x)"
        using find_run_Some [OF x] by (simp add: names_def mark_requested_def)
      ultimately show ?thesis using b(1) by simp
    qed
  qed
qed

lemma keeps_request_shutdown:
  assumes ad: "shutdown_adapter (cp_adapter cp)"
  shows "keeps (ok J d0) (request_shutdown cp t r actor key asynchronous adapter)"
proof -
  let ?th = "\<lparr>th_tenant_id = t, th_run_id = r, th_actor = actor,
                     th_adapter = adapter, th_recovering = False, th_lease_owner = None\<rparr>"
  let ?m = "\<lambda>run. seq (append_event run ''shutdown.requested'' [(''deadline_at'', opt_iso (rn_deadline_at run))] actor)
           (seq (if asynchronous then start_thread ?th
                 else orchestrate cp t r actor (resolve_adapter cp adapter) False None)
           (ret (shutdown_receipt run)))"
  have go: "keeps (\<lambda>d ts. ok J d0 d ts \<and> requested t r d) (?m run)" for run :: run_row
  proof (rule keeps_with)
    fix d1 assume req: "requested t r d1"
    show "keeps (ok J d1) (?m run)"
      by (intro keeps_rules keeps_start_thread keeps_true [OF keeps_append_event]
          keeps_orchestrate resolve_adapter_ok ad req) (auto simp: ok_def intro: requested_le [OF req])
  qed (rule requested_le)
  have "hoare (on (ok J d0)) (bnd (record_request cp t r key) (\<lambda>outcome.
        case outcome of Inl receipt \<Rightarrow> ret receipt | Inr run \<Rightarrow> ?m run)) (\<lambda>_. on (ok J d0)) (\<lambda>_. on (ok J d0))"
  proof (rule hoare_bnd [OF _ hoare_record_request])
    fix out :: "receipt + run_row"
    show "hoare (\<lambda>w. on (ok J d0) w \<and> (\<forall>run. out = Inr run \<longrightarrow> names t r run \<and> requested t r (w_db w)))
       (case out of Inl receipt \<Rightarrow> ret receipt | Inr run \<Rightarrow> ?m run) (\<lambda>_. on (ok J d0)) (\<lambda>_. on (ok J d0))"
    proof (cases out)
      case (Inl a)
      then show ?thesis by (simp add: hoare_def ret_def)
    next
      case (Inr run)
      show ?thesis unfolding Inr sum.case by (rule hoare_pre [OF keeps_weak [OF go]]) auto
    qed
  qed
  then have "keeps (ok J d0) (bnd (record_request cp t r key) (\<lambda>outcome.
        case outcome of Inl receipt \<Rightarrow> ret receipt | Inr run \<Rightarrow> ?m run))"
    by (simp only: keeps_def)
  then show ?thesis unfolding request_shutdown_def by (auto simp: keeps_throw)
qed

lemma keeps_expire:
  assumes req: "requested t r d0" and run: "names t r run"
  shows "keeps (ok J d0) (expire_shutdown run lease)"
  unfolding keeps_iff
proof (intro allI impI)
  fix w :: world
  assume w: "on (ok J d0) w"
  then have "wf_db (w_db w)" "requested t r (w_db w)" using ok_requested [OF _ req] okD by blast+
  then obtain s where s: "in_state t r s (w_db w)" "s \<noteq> RUNNING" by (rule requested_in_state)
  have "hoare (on (\<lambda>d ts. ok J d0 d ts \<and> in_state t r s d)) (expire_shutdown run lease) (\<lambda>_. on (ok J d0)) (\<lambda>_. on (ok J d0))"
    by (rule hoare_weaken [OF hoare_expire [OF run s(2)]]) auto
  then show "on (ok J d0) (snd (expire_shutdown run lease w))"
    using w s(1) unfolding hoare_def
    by (cases "expire_shutdown run lease w") (auto split: sum.splits dest!: spec [of _ w])
qed

lemma keeps_recovery_adapter: "keeps V (recovery_adapter t r)"
  unfolding recovery_adapter_def by (intro keeps_rules)

lemma keeps_recover_run:
  assumes ad: "shutdown_adapter (cp_adapter cp)" and req: "requested (rn_tenant_id run) (rn_run_id run) d0"
  shows "keeps (ok J d0) (recover_run cp asynchronous run c)"
  unfolding recover_run_def
  by (intro keeps_rules keeps_true [OF keeps_claim] keeps_expire [OF req] keeps_recovery_adapter
      keeps_start_thread keeps_orchestrate resolve_adapter_ok ad req)
    (auto simp: names_def ok_def intro: requested_le [OF req])

lemma keeps_recover_runs:
  assumes ad: "shutdown_adapter (cp_adapter cp)"
  shows "\<forall>run \<in> set rows. requested (rn_tenant_id run) (rn_run_id run) d0 \<Longrightarrow>
    keeps (ok J d0) (recover_runs cp asynchronous rows c)"
  by (induction rows arbitrary: c) (auto intro!: keeps_rules keeps_recover_run ad)

lemma keeps_recover_incomplete:
  assumes ad: "shutdown_adapter (cp_adapter cp)"
  shows "keeps (ok J d0) (recover_incomplete_shutdowns cp asynchronous)"
  unfolding keeps_def recover_incomplete_shutdowns_def
proof -
  let ?P = "\<lambda>rows d. \<forall>run \<in> set rows. requested (rn_tenant_id run) (rn_run_id run) d"
  have q: "hoare (on (ok J d0)) (query incomplete_runs) (\<lambda>rows w. on (ok J d0) w \<and> ?P rows (w_db w)) (\<lambda>_. on (ok J d0))"
    by (rule hoare_pre [OF hoare_query])
      (auto simp: incomplete_runs_def requested_def ok_def dest: find_run_member)
  have r: "hoare (\<lambda>w. on (ok J d0) w \<and> ?P rows (w_db w)) (recover_runs cp asynchronous rows c)
      (\<lambda>_. on (ok J d0)) (\<lambda>_. on (ok J d0))" for rows c
    by (rule keeps_weak, rule keeps_with [where P = "?P rows"])
      (auto intro: keeps_recover_runs ad requested_le)
  show "hoare (on (ok J d0)) (bnd (query incomplete_runs) (\<lambda>rows.
       recover_runs cp asynchronous rows \<lparr>rec_resumed = 0, rec_expired = 0, rec_busy = 0\<rparr>))
      (\<lambda>_. on (ok J d0)) (\<lambda>_. on (ok J d0))"
    by (rule hoare_bnd [OF r q])
qed

section \<open>\<open>create_run\<close>\<close>

lemma keeps_check_parent: "keeps V (check_parent t a p)"
  unfolding check_parent_def by (intro keeps_rules)

lemma quiet_check_parent [keeps_rules]: "quiet (check_parent t a p)"
  unfolding check_parent_def by (intro keeps_rules)

lemma keeps_given_or_uuid: "keeps V (given_or_uuid v)"
  unfolding given_or_uuid_def by (intro keeps_rules)

lemma quiet_given_or_uuid [keeps_rules]: "quiet (given_or_uuid v)"
  unfolding given_or_uuid_def by (intro keeps_rules)

lemma quiet_insert_new_run [keeps_rules]: "quiet (insert_new_run x)"
  unfolding insert_new_run_def by (intro keeps_rules)

lemma keeps_insert_new_run:
  assumes "fresh_run x"
  shows "keeps (\<lambda>d ts. ok J d0 d ts \<and> find_agent (rn_tenant_id x) (rn_agent_id x) d \<noteq> None) (insert_new_run x)"
proof -
  let ?V = "\<lambda>d ts. ok J d0 d ts \<and> find_agent (rn_tenant_id x) (rn_agent_id x) d \<noteq> None"
  have kept: "?V d' ts" if *: "?V d ts" "Store.insert_run x d = Inr d'" for d d' ts
  proof -
    have d: "wf_db d" "J d" using * by (auto simp: ok_def)
    have "J d'" using insert_run [OF d assms _ *(2)] * by blast
    moreover have "wf_db d' \<and> run_le d d'" using le_insert_run [OF d(1) assms *(2)] .
    ultimately have "ok J d0 d' ts" using * okI by blast
    moreover have "agents d' = agents d" using *(2) by (simp add: insert_run_Inr)
    ultimately show ?thesis using * by (simp add: find_agent_def)
  qed
  show ?thesis unfolding insert_new_run_def
    by (intro keeps_rules keeps_exec_checked [where V = ?V]) (erule (1) kept)
qed

lemma keeps_create_run: "keeps (ok J d0) (create_run request)"
proof -
  define t where "t = str_field request ''tenant_id''"
  define a where "a = str_field request ''agent_id''"
  let ?n = "seq (check_parent t a (get_or_null request ''parent_run_id''))
                 (bnd (given_or_uuid (get_or_null request ''_run_id'')) (\<lambda>run_id.
                  bnd utc_now (\<lambda>started_at.
                  bnd (given_or_uuid (get_or_null request ''correlation_id'')) (\<lambda>correlation_id.
                  bnd (lift (policy_of request)) (\<lambda>policy_version.
                  bnd (lift (bind_text 4 (get_or_null request ''parent_run_id''))) (\<lambda>parent.
                  let run =
                    \<lparr>rn_run_id = run_id, rn_tenant_id = t, rn_agent_id = a,
                     rn_parent_run_id = parent, rn_identity_ref = str_field request ''identity_ref'',
                     rn_started_at = started_at, rn_stopped_at = None, rn_state = RUNNING,
                     rn_correlation_id = correlation_id, rn_policy_version = policy_version,
                     rn_shutdown_requested_at = None, rn_deadline_at = None,
                     rn_shutdown_idempotency_key = None\<rparr>
                  in seq (insert_new_run run) (ret run)))))))"
  let ?m = "bnd (query (find_agent t a)) (\<lambda>agent.
              case agent of
                None \<Rightarrow> throw (Exn NotFoundError ''agent not found for tenant'')
              | Some _ \<Rightarrow>
                  ?n)"
  let ?V = "\<lambda>d ts. ok J d0 d ts \<and> find_agent t a d \<noteq> None"
  have ins: "keeps ?V (insert_new_run x)" if "fresh_run x" "rn_tenant_id x = t" "rn_agent_id x = a" for x
    using keeps_insert_new_run [OF that(1)] that(2,3) by simp
  have "keeps ?V ?n"
    by (intro keeps_rules keeps_check_parent keeps_given_or_uuid ins) (auto simp: fresh_run_def)
  then have "hoare (on (ok J d0)) ?m (\<lambda>_. on (ok J d0)) (\<lambda>_ _. True)"
    unfolding keeps_def hoare_def
    by (auto simp: m_exec throw_def split: option.splits sum.splits prod.splits)
  then have "keeps (ok J d0) (transaction ?m)"
    unfolding keeps_def by (rule hoare_transaction [rotated]) (intro keeps_rules)
  then show ?thesis
    unfolding create_run_def Let_def t_def a_def
    by (intro keeps_if keeps_throw keeps_bnd keeps_seq keeps_ret keeps_true [OF keeps_append_event])
qed

end

end
