(* ===== verification/Service_Invariants.thy ===== *)
theory Service_Invariants
  imports Run_Invariants
begin

text \<open>
  The locale \<open>service_invariant\<close>: the laws for the writes of agents, reports, restarts, drills
  and the outbox, on top of \<open>run_invariant\<close>, and the proof that the remaining operations keep
  an invariant that obeys them.
\<close>

section \<open>Starting a drill leaves the drills alone\<close>

context run_invariant begin

lemma keeps_get_run: "keeps V (get_run t r)"
  unfolding get_run_def by (intro keeps_rules)

lemma keeps_get_agent: "keeps V (get_agent t r)"
  unfolding get_agent_def by (intro keeps_rules)

lemma keeps_adapter_run_of: "keeps V (adapter_run_of t r)"
  unfolding adapter_run_of_def by (intro keeps_rules keeps_get_run keeps_get_agent)

lemma keeps_validate: "keeps V (validate_drill_request request)"
  unfolding validate_drill_request_def by (intro keeps_rules keeps_get_agent)

lemma keeps_start_synthetic_drill:
  assumes "shutdown_adapter (cp_adapter cp)"
  shows "keeps (ok J d0) (start_synthetic_drill cp request actor asynchronous)"
  unfolding start_synthetic_drill_def
  by (intro keeps_rules keeps_validate keeps_given_or_uuid keeps_create_run keeps_request_shutdown assms)

end

interpretation same_drills: run_invariant "\<lambda>d. drills d = ds" for ds
  by unfold_locales
    (auto simp: insert_run_Inr request_run_def set_state_def insert_probe_Inr upsert_job_def split: if_splits)

text \<open>So an invariant is kept together with the drills.\<close>

lemma keeps_same_drills:
  assumes "\<And>d1. keeps (ok J d1) m" and "\<And>d1. keeps (ok (\<lambda>d. drills d = ds) d1) m"
  shows "keeps (\<lambda>d ts. ok J d0 d ts \<and> drills d = ds) m"
  unfolding keeps_iff
proof (intro allI impI)
  fix w :: world
  assume w: "ok J d0 (w_db w) (w_threads w) \<and> drills (w_db w) = ds"
  then have "ok (\<lambda>d. drills d = ds) (w_db w) (w_db w) (w_threads w)" by (simp add: ok_def)
  then have "drills (w_db (snd (m w))) = ds"
    using keepsD [OF assms(2), of "w_db w" w] by (simp add: ok_def)
  with w keepsD [OF assms(1), of d0 w]
  show "ok J d0 (w_db (snd (m w))) (w_threads (snd (m w))) \<and> drills (w_db (snd (m w))) = ds" by blast
qed

lemma keeps_drills_pred:
  assumes "\<And>d1. keeps (ok J d1) m" and "\<And>ds d1. keeps (ok (\<lambda>d. drills d = ds) d1) m"
  shows "keeps (\<lambda>d ts. ok J d0 d ts \<and> P (drills d)) m"
  unfolding keeps_iff
proof (intro allI impI)
  fix w :: world
  assume w: "ok J d0 (w_db w) (w_threads w) \<and> P (drills (w_db w))"
  have "keeps (\<lambda>d ts. ok J d0 d ts \<and> drills d = drills (w_db w)) m"
    by (rule keeps_same_drills) (rule assms)+
  from keepsD [OF this, of w] w
  show "ok J d0 (w_db (snd (m w))) (w_threads (snd (m w))) \<and> P (drills (w_db (snd (m w))))" by simp
qed

lemma update_drills_sel [simp]:
  "runs (update_drills Q f d) = runs d" "probes (update_drills Q f d) = probes d"
  "drills (update_drills Q f d) = sql_update Q f (drills d)"
  "event_outbox (update_drills Q f d) = event_outbox d"
  by (simp_all add: update_drills_def)

section \<open>The laws\<close>

definition new_drill :: "'j drill_row \<Rightarrow> bool" where
  "new_drill x \<longleftrightarrow> dr_status x = D_PENDING_APPROVAL \<and> dr_approved_by x = None \<and> dr_rejected_by x = None"

definition drill_at :: "string \<Rightarrow> string \<Rightarrow> drill_status \<Rightarrow> string drill_row \<Rightarrow> db \<Rightarrow> bool" where
  "drill_at t i s x d \<longleftrightarrow> find (drill_key t i) (drills d) = Some x \<and> dr_status x = s"

text \<open>The three ways a turn of the publisher ends, on the database.\<close>

definition dead_letter_rows :: "string \<Rightarrow> int \<Rightarrow> string \<Rightarrow> instant \<Rightarrow> db \<Rightarrow> exn + db" where
  "dead_letter_rows e attempts message now d =
     upsert_delivery \<lparr>dl_event_id = e, dl_next_attempt_at = None, dl_dead_lettered_at = Some now\<rparr>
       (update_outbox e (\<lambda>x. x\<lparr>ob_status := O_DEAD_LETTER, ob_attempts := attempts, ob_last_error := Some message\<rparr>) d)"

definition retry_rows :: "string \<Rightarrow> int \<Rightarrow> string \<Rightarrow> instant \<Rightarrow> db \<Rightarrow> exn + db" where
  "retry_rows e attempts message t d =
     upsert_delivery \<lparr>dl_event_id = e, dl_next_attempt_at = Some t, dl_dead_lettered_at = None\<rparr>
       (update_outbox e (\<lambda>x. x\<lparr>ob_attempts := attempts, ob_last_error := Some message\<rparr>) d)"

text \<open>A selected row and its baseline are those of the table.\<close>

definition selected :: "outbox_row \<times> int \<Rightarrow> db \<Rightarrow> bool" where
  "selected x d \<longleftrightarrow> fst x \<in> set (event_outbox d) \<and> ob_status (fst x) = O_PENDING \<and>
     snd x = baseline_of (ob_event_id (fst x)) d"

locale service_invariant = run_invariant J for J +
  fixes max_attempts :: int
  assumes insert_agent: "wf_db d \<Longrightarrow> J d \<Longrightarrow> insert_agent a d = Inr d' \<Longrightarrow> J d'"
    and insert_report: "wf_db d \<Longrightarrow> J d \<Longrightarrow> find_run (rp_tenant_id p) (rp_run_id p) d = Some y \<Longrightarrow>
      terminal (rn_state y) \<Longrightarrow> insert_report p d = Inr d' \<Longrightarrow> J d'"
    and requeue: "wf_db d \<Longrightarrow> J d \<Longrightarrow> find_event t e d = Some x \<Longrightarrow> ob_status x = O_DEAD_LETTER \<Longrightarrow>
      J (requeue_rows t e (ob_attempts x) d)"
    and insert_drill: "wf_db d \<Longrightarrow> J d \<Longrightarrow> new_drill z \<Longrightarrow> insert_drill z d = Inr d' \<Longrightarrow> J d'"
    and approved: "wf_db d \<Longrightarrow> J d \<Longrightarrow> drill_at t i D_PENDING_APPROVAL z d \<Longrightarrow> dr_requested_by z \<noteq> actor \<Longrightarrow>
      J (update_drills (drill_key t i) (mark_approved actor now) d)"
    and rejected: "wf_db d \<Longrightarrow> J d \<Longrightarrow> drill_at t i D_PENDING_APPROVAL z d \<Longrightarrow> dr_requested_by z \<noteq> actor \<Longrightarrow>
      J (update_drills (drill_key t i) (mark_rejected actor now reason) d)"
    and failed: "wf_db d \<Longrightarrow> J d \<Longrightarrow> drill_at t i D_APPROVED z d \<Longrightarrow> J (update_drills (drill_key t i) mark_failed d)"
    and started: "wf_db d \<Longrightarrow> J d \<Longrightarrow> drill_at t i D_APPROVED z d \<Longrightarrow>
      J (update_drills (drill_key t i) (mark_started r) d)"
    and recovered: "wf_db d \<Longrightarrow> J d \<Longrightarrow>
      J (update_drills (\<lambda>z. drill_key t i z \<and> dr_status z = D_APPROVED) (mark_started r) d)"
    and dead_lettered: "wf_db d \<Longrightarrow> J d \<Longrightarrow> selected (x, b) d \<Longrightarrow> max_attempts \<le> ob_attempts x + 1 - b \<Longrightarrow>
      dead_letter_rows (ob_event_id x) (ob_attempts x + 1) message now d = Inr d' \<Longrightarrow> J d'"
    and retried: "wf_db d \<Longrightarrow> J d \<Longrightarrow> selected (x, b) d \<Longrightarrow> ob_attempts x + 1 - b < max_attempts \<Longrightarrow>
      retry_rows (ob_event_id x) (ob_attempts x + 1) message now d = Inr d' \<Longrightarrow> J d'"
    and delivered: "wf_db d \<Longrightarrow> J d \<Longrightarrow> selected (x, b) d \<Longrightarrow> J (delivered_rows (ob_event_id x) now d)"
begin

text \<open>A write that leaves runs and probes alone.\<close>

lemma ok_cong:
  "ok J d0 d ts \<Longrightarrow> runs d' = runs d \<Longrightarrow> probes d' = probes d \<Longrightarrow>
     map ob_event_id (event_outbox d') = map ob_event_id (event_outbox d) \<Longrightarrow> J d' \<Longrightarrow> ok J d0 d' ts"
  by (rule okI) (auto simp: ok_def wf_db_def intro: run_le_cong)

lemma keeps_register_agent: "keeps (ok J d0) (register_agent request)"
proof -
  have "ok J d0 d' ts" if *: "ok J d0 d ts" "Store.insert_agent a d = Inr d'" for d d' ts a
  proof (rule ok_cong [OF *(1)])
    show "runs d' = runs d" "probes d' = probes d"
      "map ob_event_id (event_outbox d') = map ob_event_id (event_outbox d)"
      using *(2) by (simp_all add: insert_agent_Inr)
    show "J d'" using insert_agent [OF _ _ *(2)] *(1) okD by blast
  qed
  then show ?thesis unfolding register_agent_def
    by (intro keeps_rules keeps_exec_checked)
qed

lemma keeps_evidence: "keeps V (evidence cp t r)"
  unfolding evidence_def ledger_records_def ledger_manifest_def
  by (intro keeps_rules keeps_get_run)

lemma keeps_report: "keeps (ok J d0) (report cp t r)"
proof -
  have store: "keeps (\<lambda>d ts. ok J d0 d ts \<and> find_run t r d = Some x) (transaction (exec_checked (Store.insert_report p)))"
    if "rp_tenant_id p = t" "rp_run_id p = r" "terminal (rn_state x)" for x p
  proof (intro keeps_transaction keeps_exec_checked quiet_basic)
    fix d d' ts assume *: "ok J d0 d ts \<and> find_run t r d = Some x" "Store.insert_report p d = Inr d'"
    have d': "runs d' = runs d" "probes d' = probes d" "event_outbox d' = event_outbox d"
      using *(2) by (simp_all add: insert_report_Inr)
    have "J d'" using * that insert_report [of d p x d'] okD by blast
    then show "ok J d0 d' ts \<and> find_run t r d' = Some x"
      using * d' ok_cong by (auto simp: find_run_def)
  qed
  have sign: "keeps (\<lambda>d ts. ok J d0 d ts \<and> find_run t r d = Some x) (append_event run ev pl actor)" for x ev pl actor and run :: run_view
    by (intro keeps_append_event framed_find_run)
  let ?rest = "\<lambda>run. if \<not> terminal (rn_state run) then
           throw (Exn ConflictError ''report is available only after shutdown reaches a terminal state'')
         else
           bnd (evidence cp t r) (\<lambda>(records, manifest).
           bnd utc_now (\<lambda>generated_at.
           let body = report_body t r generated_at run manifest;
               signature = sign_payload (cp_signing_key cp) body
           in seq (transaction (exec_checked (Store.insert_report
                     \<lparr>rp_run_id = r, rp_tenant_id = t, rp_generated_at = generated_at,
                      rp_payload = canonical_json (JObj body),
                      rp_signature = canonical_json (JObj signature)\<rparr>)))
             (seq (append_event run ''shutdown.report.signed''
                     [(''report_hash'', JStr (payload_digest (JObj body))),
                      (''key_id'', JStr ''local-dev-hmac-v1'')] ''evidence-writer'')
                  (ret (JObj body, JObj signature)))))"
  have rest: "keeps (\<lambda>d ts. ok J d0 d ts \<and> find_run t r d = Some (run_row.truncate run)) (?rest run)" for run :: run_view
    by (cases "terminal (rn_state run)")
      (auto intro!: keeps_throw keeps_bnd keeps_case_prod keeps_let keeps_seq keeps_evidence keeps_utc_now keeps_ret store sign)
  have "keeps (ok J d0) (bnd (get_run t r) ?rest)" unfolding keeps_def
  proof (rule hoare_bnd)
    show "hoare (on (ok J d0)) (get_run t r)
       (\<lambda>run. on (\<lambda>d ts. ok J d0 d ts \<and> find_run t r d = Some (run_row.truncate run))) (\<lambda>_. on (ok J d0))"
      by (rule hoare_pure [OF get_run_pure]) (auto dest: get_run_Inr)
    show "hoare (on (\<lambda>d ts. ok J d0 d ts \<and> find_run t r d = Some (run_row.truncate run))) (?rest run)
       (\<lambda>_. on (ok J d0)) (\<lambda>_. on (ok J d0))" for run
      using keeps_weak [OF rest] by simp
  qed
  then show ?thesis unfolding report_def
    by (rule keeps_bnd [OF keeps_query keeps_case_option]) (intro keeps_bnd keeps_lift keeps_ret)
qed

lemma keeps_request_restart:
  assumes ad: "shutdown_adapter (cp_adapter cp)"
  shows "keeps (ok J d0) (request_restart cp t r actor)"
  unfolding keeps_def request_restart_def
proof (rule hoare_bnd [OF _ hoare_adapter_run_of])
  fix run :: adapter_run
  let ?V = "\<lambda>d ts. ok J d0 d ts \<and> current t r run (rn_state run) d"
  let ?ex = "dict_of (map (\<lambda>p. (pb_kind p, pb_result p)) (rv_probes run))"
  let ?old = "filter (\<lambda>p. pb_kind p = ''restart'') (rv_probes run)"
  have save: "hoare (\<lambda>w. on ?V w \<and> obs_kind ob = ''restart'') (save_probe run ob ''shutdown.restart.probe.result'' actor)
      (\<lambda>_. on (ok J d0)) (\<lambda>_. on (ok J d0))" if "?old = []" "terminal (rn_state run)" for ob
  proof (rule hoare_fact)
    assume k: "obs_kind ob = ''restart''"
    have none: "dict_get ?ex ''restart'' = None"
      using that(1) by (auto simp: dict_get_def map_of_dict_of map_of_eq_None_iff filter_empty_conv)
    show "hoare (on ?V) (save_probe run ob ''shutdown.restart.probe.result'' actor) (\<lambda>_. on (ok J d0)) (\<lambda>_. on (ok J d0))"
    proof (cases "names t r run")
      case True
      then show ?thesis
        using hoare_save_probe [OF True, of ob "rn_state run" ?ex] k none that(2)
        by (intro hoare_weaken [OF hoare_save_probe [OF True, of ob "rn_state run" ?ex]]) (auto simp: current_def)
    next
      case False
      then show ?thesis by (auto simp: hoare_def current_def)
    qed
  qed
  have restart: "hoare (on ?V) (lift_ext (ad_restart (cp_adapter cp) run))
      (\<lambda>ob w. on ?V w \<and> obs_kind ob = ''restart'') (\<lambda>_. on (ok J d0))"
    using shutdown_adapter.restart_kind [OF ad]
    by (auto simp: hoare_def lift_ext_def split: prod.splits sum.splits)
  have go: "hoare (on ?V) (bnd (lift_ext (ad_restart (cp_adapter cp) run)) (\<lambda>ob.
          seq (save_probe run ob ''shutdown.restart.probe.result'' actor)
              (ret (RestartObserved (to_dict ob))))) (\<lambda>_. on (ok J d0)) (\<lambda>_. on (ok J d0))"
    if "?old = []" "terminal (rn_state run)"
  proof (rule hoare_bnd [OF _ restart])
    show "hoare (\<lambda>w. on ?V w \<and> obs_kind ob = ''restart'')
       (seq (save_probe run ob ''shutdown.restart.probe.result'' actor) (ret (RestartObserved (to_dict ob))))
       (\<lambda>_. on (ok J d0)) (\<lambda>_. on (ok J d0))" for ob
      by (rule hoare_seq [OF _ save [OF that]]) (simp add: hoare_def ret_def)
  qed
  then show "hoare (\<lambda>w. on (ok J d0) w \<and> current t r run (rn_state run) (w_db w))
     (if \<not> terminal (rn_state run) then
       throw (Exn ConflictError ''restart probe requires a terminal shutdown state'')
     else
       (let existing = ?old in
        if existing \<noteq> [] then ret (RestartStored (last existing))
        else
          bnd (lift_ext (ad_restart (cp_adapter cp) run)) (\<lambda>ob.
          seq (save_probe run ob ''shutdown.restart.probe.result'' actor)
              (ret (RestartObserved (to_dict ob)))))) (\<lambda>_. on (ok J d0)) (\<lambda>_. on (ok J d0))"
    by (auto simp: Let_def hoare_def throw_def ret_def)
qed

section \<open>Drills\<close>

lemma keeps_request_drill: "keeps (ok J d0) (request_drill request actor)"
proof -
  have kept: "ok J d0 d' ts" if *: "ok J d0 d ts" "Store.insert_drill z d = Inr d'" "new_drill z" for d d' ts z
  proof (rule ok_cong [OF *(1)])
    show "runs d' = runs d" "probes d' = probes d"
      "map ob_event_id (event_outbox d') = map ob_event_id (event_outbox d)"
      using *(2) by (simp_all add: insert_drill_Inr)
    show "J d'" using insert_drill [OF _ _ *(3) *(2)] *(1) okD by blast
  qed
  show ?thesis unfolding request_drill_def
    by (intro keeps_rules keeps_validate keeps_exec_checked, erule (1) kept) (simp add: new_drill_def)
qed

lemma get_run_same: "get_run t r w = (x, w') \<Longrightarrow> w' = w"
  using get_run_pure [of t r w] by simp

lemma drill_at_key: "drill_at t i s z d \<Longrightarrow> drill_key t i z"
  by (auto simp: drill_at_def find_Some_iff)

lemma load_drill_sel:
  "load_drill z = Inr drill \<Longrightarrow> dr_status drill = dr_status z \<and> dr_requested_by drill = dr_requested_by z \<and>
     dr_approved_by drill = dr_approved_by z \<and> dr_run_id drill = dr_run_id z"
  by (auto simp: load_drill_def split: sum.splits)

lemma hoare_get_drill:
  "hoare (on V) (get_drill t i)
     (\<lambda>(drill, st) w. on V w \<and>
        (\<exists>z. drill_at t i (dr_status drill) z (w_db w) \<and> dr_requested_by z = dr_requested_by drill)) (\<lambda>_. on V)"
proof (rule hoare_pure)
  show "snd (get_drill t i w) = w" for w
    by (simp add: get_drill_def m_exec lift_def throw_def ret_def bnd_def get_run_pure
        split: option.splits sum.splits prod.splits) (auto dest: get_run_same)
next
  fix w x
  assume V: "on V w" and run: "get_drill t i w = (Inr x, w)"
  have "\<exists>z. find (drill_key t i) (drills (w_db w)) = Some z \<and> load_drill z = Inr (fst x)"
    using run by (auto simp: get_drill_def m_exec bnd_def lift_def throw_def ret_def
        split: option.splits sum.splits prod.splits if_splits)
  then show "(case x of (drill, st) \<Rightarrow> \<lambda>w. on V w \<and>
      (\<exists>z. drill_at t i (dr_status drill) z (w_db w) \<and> dr_requested_by z = dr_requested_by drill)) w"
    using V by (auto simp: drill_at_def dest: load_drill_sel)
qed auto

lemma keeps_get_drill: "keeps V (get_drill t i)"
  unfolding keeps_def by (rule hoare_weaken [OF hoare_get_drill]) auto

lemma hoare_update_drills:
  assumes "\<And>d. wf_db d \<Longrightarrow> J d \<Longrightarrow> P d \<Longrightarrow> J (update_drills Q f d)"
    and "\<And>d. P d \<Longrightarrow> R (update_drills Q f d)"
  shows "hoare (on (\<lambda>d ts. ok J d0 d ts \<and> P d)) (transaction (exec (update_drills Q f)))
     (\<lambda>_. on (\<lambda>d ts. ok J d0 d ts \<and> R d)) (\<lambda>_. on (ok J d0))"
proof -
  have "ok J d0 (update_drills Q f d) ts" if "ok J d0 d ts" "P d" for d ts
  proof (rule ok_cong [OF that(1)])
    have "wf_db d" "J d" using that(1) by (simp_all add: ok_def)
    then show "J (update_drills Q f d)" using that(2) by (rule assms(1))
  qed simp_all
  then show ?thesis using assms(2) by (auto simp: hoare_def transaction_def exec_def)
qed

text \<open>Some drill with this key has this status.\<close>

definition drill_in :: "string \<Rightarrow> string \<Rightarrow> drill_status \<Rightarrow> string drill_row list \<Rightarrow> bool" where
  "drill_in t i s zs \<longleftrightarrow> (\<exists>z. find (drill_key t i) zs = Some z \<and> dr_status z = s)"

lemma find_approved: "drill_at t i s z d \<Longrightarrow>
    drill_in t i D_APPROVED (sql_update (drill_key t i) (mark_approved actor now) (drills d))"
  unfolding drill_in_def using drill_at_key [of t i s z d]
  by (subst find_sql_update) (auto simp: drill_key_def mark_approved_def drill_at_def)

lemma hoare_fail_drill:
  "hoare (on (\<lambda>d ts. ok J d0 d ts \<and> drill_in t i D_APPROVED (drills d)))
     (transaction (exec (update_drills (drill_key t i) mark_failed))) (\<lambda>_. on (ok J d0)) (\<lambda>_. on (ok J d0))"
  by (rule hoare_weaken [OF hoare_update_drills [where P = "\<lambda>d. drill_in t i D_APPROVED (drills d)" and R = "\<lambda>_. True"]])
    (auto simp: drill_in_def drill_at_def intro: failed)

lemma hoare_start_drill:
  "hoare (on (\<lambda>d ts. ok J d0 d ts \<and> drill_in t i D_APPROVED (drills d)))
     (transaction (exec (update_drills (drill_key t i) (mark_started r)))) (\<lambda>_. on (ok J d0)) (\<lambda>_. on (ok J d0))"
  by (rule hoare_weaken [OF hoare_update_drills [where P = "\<lambda>d. drill_in t i D_APPROVED (drills d)" and R = "\<lambda>_. True"]])
    (auto simp: drill_in_def drill_at_def intro: started)

lemma keeps_approve_drill:
  assumes ad: "shutdown_adapter (cp_adapter cp)"
  shows "keeps (ok J d0) (approve_drill cp t i actor asynchronous)"
proof -
  let ?A = "\<lambda>d ts. ok J d0 d ts \<and> drill_in t i D_APPROVED (drills d)"
  have start: "keeps ?A (start_synthetic_drill cp request actor asynchronous)" for request
    by (rule keeps_drills_pred [OF keeps_start_synthetic_drill [OF ad] same_drills.keeps_start_synthetic_drill [OF ad]])
  let ?run = "\<lambda>approved_at request. bnd (catch (start_synthetic_drill cp request actor asynchronous)
              (\<lambda>e. seq (transaction (exec (update_drills (drill_key t i) mark_failed))) (throw e))) (\<lambda>execution.
       seq (transaction (exec (update_drills (drill_key t i) (mark_started (rcp_run_id (dx_receipt execution))))))
           (ret (Started execution actor approved_at)))"
  have run: "hoare (on ?A) (?run now request) (\<lambda>_. on (ok J d0)) (\<lambda>_. on (ok J d0))" for now request
  proof (rule hoare_bnd)
    show "hoare (on ?A) (catch (start_synthetic_drill cp request actor asynchronous)
              (\<lambda>e. seq (transaction (exec (update_drills (drill_key t i) mark_failed))) (throw e)))
        (\<lambda>_. on ?A) (\<lambda>_. on (ok J d0))"
    proof (rule hoare_catch)
      show "hoare (on ?A) (start_synthetic_drill cp request actor asynchronous) (\<lambda>_. on ?A) (\<lambda>_. on ?A)"
        using start by (simp add: keeps_def)
      show "hoare (on ?A) (seq (transaction (exec (update_drills (drill_key t i) mark_failed))) (throw e)) (\<lambda>_. on ?A)
          (\<lambda>_. on (ok J d0))" for e
        by (rule hoare_seq [OF _ hoare_fail_drill]) (simp add: hoare_def throw_def)
    qed
    show "hoare (on ?A) (seq (transaction (exec (update_drills (drill_key t i) (mark_started (rcp_run_id (dx_receipt x))))))
           (ret (Started x actor now))) (\<lambda>_. on (ok J d0)) (\<lambda>_. on (ok J d0))" for x
      by (rule hoare_seq [OF _ hoare_start_drill]) (simp add: hoare_def ret_def)
  qed
  let ?pending = "\<lambda>(drill :: json drill_row) d.
    \<exists>z. drill_at t i (dr_status drill) z d \<and> dr_requested_by z = dr_requested_by drill"
  let ?go = "\<lambda>drill. bnd utc_now (\<lambda>approved_at.
       seq (transaction (exec (update_drills (drill_key t i) (mark_approved actor approved_at))))
      (bnd (lift (start_request (dr_request_payload drill) i (dr_run_id drill))) (\<lambda>request. ?run approved_at request)))"
  have go: "hoare (on (\<lambda>d ts. ok J d0 d ts \<and> ?pending drill d)) (?go drill) (\<lambda>_. on (ok J d0)) (\<lambda>_. on (ok J d0))"
    if "dr_status drill = D_PENDING_APPROVAL" "dr_requested_by drill \<noteq> actor" for drill
  proof (rule hoare_after_bnd [OF keeps_utc_now])
    fix now
    show "hoare (on (\<lambda>d ts. ok J d0 d ts \<and> ?pending drill d))
      (seq (transaction (exec (update_drills (drill_key t i) (mark_approved actor now))))
      (bnd (lift (start_request (dr_request_payload drill) i (dr_run_id drill))) (\<lambda>request. ?run now request)))
      (\<lambda>_. on (ok J d0)) (\<lambda>_. on (ok J d0))"
    proof (rule hoare_seq)
      show "hoare (on (\<lambda>d ts. ok J d0 d ts \<and> ?pending drill d))
        (transaction (exec (update_drills (drill_key t i) (mark_approved actor now)))) (\<lambda>_. on ?A) (\<lambda>_. on (ok J d0))"
        by (rule hoare_update_drills) (use that in \<open>auto intro: approved find_approved\<close>)
      show "hoare (on ?A) (bnd (lift (start_request (dr_request_payload drill) i (dr_run_id drill))) (\<lambda>request. ?run now request))
        (\<lambda>_. on (ok J d0)) (\<lambda>_. on (ok J d0))"
        by (rule hoare_after_bnd [OF keeps_lift run]) auto
    qed
  qed auto
  show ?thesis unfolding keeps_def approve_drill_def
  proof (rule hoare_bnd [OF _ hoare_get_drill])
    fix x :: "json drill_row \<times> shutdown_state option"
    obtain drill st where x: "x = (drill, st)" by (cases x)
    show "hoare (case x of (drill, st) \<Rightarrow> \<lambda>w. on (ok J d0) w \<and> ?pending drill (w_db w))
      (case x of (drill, run_state) \<Rightarrow>
        if dr_status drill \<noteq> D_PENDING_APPROVAL then
          if dr_status drill = D_STARTED \<and> dr_approved_by drill = Some actor then
            ret (AlreadyStarted (drill, run_state))
          else throw (Exn ConflictError
              (''drill cannot be approved from status '' @ drill_status_value (dr_status drill)))
        else if dr_requested_by drill = actor then
          throw (Exn ConflictError ''drill approver must differ from drill author'')
        else ?go drill) (\<lambda>_. on (ok J d0)) (\<lambda>_. on (ok J d0))"
      using go [of drill] unfolding x
      by (auto simp: hoare_def throw_def ret_def)
  qed
qed

lemma keeps_reject_drill: "keeps (ok J d0) (reject_drill t i actor reason)"
proof -
  let ?pending = "\<lambda>(drill :: json drill_row) d.
    \<exists>z. drill_at t i (dr_status drill) z d \<and> dr_requested_by z = dr_requested_by drill"
  let ?go = "bnd utc_now (\<lambda>rejected_at.
          seq (transaction (exec (update_drills (drill_key t i)
                 (mark_rejected actor rejected_at (py_strip reason)))))
              (get_drill t i))"
  have go: "hoare (on (\<lambda>d ts. ok J d0 d ts \<and> ?pending drill d)) ?go (\<lambda>_. on (ok J d0)) (\<lambda>_. on (ok J d0))"
    if "dr_status drill = D_PENDING_APPROVAL" "dr_requested_by drill \<noteq> actor" for drill
  proof (rule hoare_after_bnd [OF keeps_utc_now], rule hoare_seq)
    show "hoare (on (\<lambda>d ts. ok J d0 d ts \<and> ?pending drill d))
        (transaction (exec (update_drills (drill_key t i) (mark_rejected actor now (py_strip reason)))))
        (\<lambda>_. on (\<lambda>d ts. ok J d0 d ts \<and> True)) (\<lambda>_. on (ok J d0))" for now
      by (rule hoare_update_drills) (use that in \<open>auto intro: rejected\<close>)
    show "hoare (on (\<lambda>d ts. ok J d0 d ts \<and> True)) (get_drill t i) (\<lambda>_. on (ok J d0)) (\<lambda>_. on (ok J d0))"
      using keeps_get_drill [of "ok J d0"] by (simp add: keeps_def)
  qed auto
  have "hoare (on (ok J d0)) (bnd (get_drill t i) (\<lambda>(drill, _).
        if dr_status drill \<noteq> D_PENDING_APPROVAL then
          throw (Exn ConflictError
              (''drill cannot be rejected from status '' @ drill_status_value (dr_status drill)))
        else if dr_requested_by drill = actor then
          throw (Exn ConflictError ''drill reviewer must differ from drill author'')
        else ?go)) (\<lambda>_. on (ok J d0)) (\<lambda>_. on (ok J d0))"
  proof (rule hoare_bnd [OF _ hoare_get_drill])
    fix x :: "json drill_row \<times> shutdown_state option"
    obtain drill st where x: "x = (drill, st)" by (cases x)
    show "hoare (case x of (drill, st) \<Rightarrow> \<lambda>w. on (ok J d0) w \<and> ?pending drill (w_db w))
      (case x of (drill, _) \<Rightarrow>
        if dr_status drill \<noteq> D_PENDING_APPROVAL then
          throw (Exn ConflictError
              (''drill cannot be rejected from status '' @ drill_status_value (dr_status drill)))
        else if dr_requested_by drill = actor then
          throw (Exn ConflictError ''drill reviewer must differ from drill author'')
        else ?go) (\<lambda>_. on (ok J d0)) (\<lambda>_. on (ok J d0))"
      using go [of drill] unfolding x by (auto simp: hoare_def throw_def)
  qed
  then have "keeps (ok J d0) (bnd (get_drill t i) (\<lambda>(drill, _).
        if dr_status drill \<noteq> D_PENDING_APPROVAL then
          throw (Exn ConflictError
              (''drill cannot be rejected from status '' @ drill_status_value (dr_status drill)))
        else if dr_requested_by drill = actor then
          throw (Exn ConflictError ''drill reviewer must differ from drill author'')
        else ?go))" by (simp only: keeps_def)
  then show ?thesis unfolding reject_drill_def by (auto simp: keeps_throw)
qed

lemma keeps_recover_drill:
  assumes ad: "shutdown_adapter (cp_adapter cp)"
  shows "keeps (ok J d0) (recover_drill cp asynchronous drill)"
proof -
  have upd: "keeps (ok J d0) (transaction (exec (update_drills
       (\<lambda>r. drill_key t i r \<and> dr_status r = D_APPROVED) (mark_started run_id))))" for t i run_id
    unfolding keeps_def
    by (rule hoare_weaken [OF hoare_update_drills [where P = "\<lambda>_. True" and R = "\<lambda>_. True"]]) (auto intro: recovered)
  show ?thesis unfolding recover_drill_def get_run_or_none_def
    by (intro keeps_bnd keeps_lift keeps_case_option keeps_catch keeps_if keeps_ret keeps_throw keeps_get_run
        keeps_start_synthetic_drill keeps_recovery_adapter keeps_request_shutdown ad upd)
qed

lemma keeps_recover_approved:
  assumes ad: "shutdown_adapter (cp_adapter cp)"
  shows "keeps (ok J d0) (recover_approved_drills cp asynchronous)"
  unfolding recover_approved_drills_def
  by (intro keeps_rules keeps_recover_drill ad)

section \<open>Dead letters and delivery\<close>

lemma keeps_export_events: "keeps V (export_events t r)"
  unfolding export_events_def ledger_records_def by (intro keeps_rules keeps_get_run)

lemma keeps_dead_letters: "keeps V (dead_letters t limit)"
  unfolding dead_letters_def by (intro keeps_rules)

lemma requeue_rows_sel [simp]:
  "runs (requeue_rows t e a d) = runs d" "probes (requeue_rows t e a d) = probes d"
  "map ob_event_id (event_outbox (requeue_rows t e a d)) = map ob_event_id (event_outbox d)"
  by (simp_all add: requeue_rows_def sql_update_key)

lemma keeps_requeue: "keeps (ok J d0) (requeue_dead_letter t e actor)"
proof -
  let ?m = "bnd (query (find_event t e)) (\<lambda>row.
       case row of
         None \<Rightarrow> throw (Exn NotFoundError ''dead-letter event not found for tenant'')
       | Some x \<Rightarrow>
           if ob_status x \<noteq> O_DEAD_LETTER then
             throw (Exn ConflictError ''only dead-letter events can be requeued'')
           else seq (exec (requeue_rows t e (ob_attempts x))) (ret x))"
  have "ok J d0 (requeue_rows t e (ob_attempts x) d) ts"
    if "ok J d0 d ts" "find_event t e d = Some x" "ob_status x = O_DEAD_LETTER" for d ts x
  proof (rule ok_cong [OF that(1)])
    have "wf_db d" "J d" using that(1) by (simp_all add: ok_def)
    then show "J (requeue_rows t e (ob_attempts x) d)" using that(2,3) by (rule requeue)
  qed simp_all
  then have "keeps (ok J d0) (transaction ?m)"
    by (intro keeps_transaction_commit keeps_rules)
      (auto simp: m_exec throw_def split: option.splits if_splits)
  then show ?thesis unfolding requeue_dead_letter_def
    by (intro keeps_bnd keeps_seq keeps_get_run keeps_ret keeps_true [OF keeps_append_event])
qed

end

text \<open>The turns of the publisher, as changes of the database.\<close>

lemma record_dead_letter_rows:
  "record_dead_letter e a msg now = transaction (exec_checked (dead_letter_rows e a msg now))"
  by (simp add: fun_eq_iff record_dead_letter_def dead_letter_rows_def transaction_def m_exec exec_checked_def
      split: sum.splits)

lemma record_retry_rows:
  "record_retry e a msg delay now = transaction (bnd (lift delay) (\<lambda>us. bnd (lift (plus_us now us)) (\<lambda>t.
     exec_checked (retry_rows e a msg t))))"
  by (simp add: fun_eq_iff record_retry_def retry_rows_def transaction_def m_exec exec_checked_def
      split: sum.splits)

lemma upsert_delivery_Inr:
  "upsert_delivery r d = Inr d' \<Longrightarrow> \<exists>xs. d' = d\<lparr>event_delivery_state := xs\<rparr>"
  by (auto simp: upsert_delivery_def split: if_splits)

lemma publisher_rows_sel:
  "dead_letter_rows e a msg now d = Inr d' \<Longrightarrow> runs d' = runs d \<and> probes d' = probes d \<and>
     map ob_event_id (event_outbox d') = map ob_event_id (event_outbox d)"
  "retry_rows e a msg now d = Inr d' \<Longrightarrow> runs d' = runs d \<and> probes d' = probes d \<and>
     map ob_event_id (event_outbox d') = map ob_event_id (event_outbox d)"
  "runs (delivered_rows e now d) = runs d \<and> probes (delivered_rows e now d) = probes d \<and>
     map ob_event_id (event_outbox (delivered_rows e now d)) = map ob_event_id (event_outbox d)"
  by (auto simp: dead_letter_rows_def retry_rows_def delivered_rows_def update_outbox_def sql_update_def
      dest!: upsert_delivery_Inr)

text \<open>
  A turn leaves the outbox rows with other ids, and the baselines of the other events, alone.
\<close>

definition other_rows :: "string \<Rightarrow> db \<Rightarrow> db \<Rightarrow> bool" where
  "other_rows e d d' \<longleftrightarrow>
     (\<forall>x \<in> set (event_outbox d). ob_event_id x \<noteq> e \<longrightarrow> x \<in> set (event_outbox d')) \<and>
     (\<forall>e'. e' \<noteq> e \<longrightarrow> baseline_of e' d' = baseline_of e' d)"

lemma find_filter_other: "(\<And>x. Q x \<Longrightarrow> P x) \<Longrightarrow> find Q (filter P xs) = find Q xs"
  by (induction xs) auto

lemma other_rows_turn:
  "dead_letter_rows e a msg now d = Inr d' \<Longrightarrow> other_rows e d d'"
  "retry_rows e a msg now d = Inr d' \<Longrightarrow> other_rows e d d'"
  "other_rows e d (delivered_rows e now d)"
  by (auto simp: dead_letter_rows_def retry_rows_def delivered_rows_def update_outbox_def other_rows_def
      set_sql_update baseline_of_def find_filter_other dest!: upsert_delivery_Inr)

lemma selected_other: "other_rows e d d' \<Longrightarrow> selected x d \<Longrightarrow> ob_event_id (fst x) \<noteq> e \<Longrightarrow> selected x d'"
  by (auto simp: other_rows_def selected_def)

context service_invariant begin

lemma hoare_publish_row:
  assumes pu: "pu_max_attempts pu = max_attempts"
    and rest: "\<forall>y \<in> set rest. ob_event_id (fst y) \<noteq> ob_event_id (fst x)"
  shows "hoare (on (\<lambda>d ts. ok J d0 d ts \<and> (selected x d \<and> (\<forall>y \<in> set rest. selected y d)))) (publish_row pu now x c)
     (\<lambda>_. on (\<lambda>d ts. ok J d0 d ts \<and> (\<forall>y \<in> set rest. selected y d))) (\<lambda>_. on (ok J d0))"
proof -
  obtain row b where x: "x = (row, b)" by (cases x)
  let ?e = "ob_event_id row"
  let ?P = "\<lambda>d ts. ok J d0 d ts \<and> (selected x d \<and> (\<forall>y \<in> set rest. selected y d))"
  let ?Q = "\<lambda>d ts. ok J d0 d ts \<and> (\<forall>y \<in> set rest. selected y d)"
  have turn: "?Q d' ts"
    if P: "?P d ts" and J: "J d'" and o: "other_rows ?e d d'"
      and d': "runs d' = runs d \<and> probes d' = probes d \<and> map ob_event_id (event_outbox d') = map ob_event_id (event_outbox d)"
    for d d' ts
    using P J d' rest x selected_other [OF o] ok_cong [of d0 d ts d'] by auto
  have dead: "hoare (on ?P) (record_dead_letter ?e (ob_attempts row + 1) msg now) (\<lambda>_. on ?Q) (\<lambda>_. on ?P)"
    if "max_attempts \<le> ob_attempts row + 1 - b" for msg
    unfolding record_dead_letter_rows
  proof (rule hoare_transaction [OF quiet_basic(5)], rule hoare_weaken [OF hoare_checked [where V = ?P and U = ?Q]])
    fix d d' ts
    assume P: "?P d ts" and ins: "dead_letter_rows ?e (ob_attempts row + 1) msg now d = Inr d'"
    have "J d'" using P ins dead_lettered [of d row b msg now d'] that x by (auto simp: ok_def)
    then show "?Q d' ts" using P other_rows_turn(1) [OF ins] publisher_rows_sel(1) [OF ins] by (intro turn [of d ts d'])
  qed auto
  have retry: "hoare (on ?P) (record_retry ?e (ob_attempts row + 1) msg delay now) (\<lambda>_. on ?Q) (\<lambda>_. on ?P)"
    if "ob_attempts row + 1 - b < max_attempts" for msg delay
    unfolding record_retry_rows
  proof (rule hoare_transaction)
    show "quiet (bnd (lift delay) (\<lambda>us. bnd (lift (plus_us now us)) (\<lambda>t.
        exec_checked (retry_rows ?e (ob_attempts row + 1) msg t))))"
      by (intro keeps_rules)
    have "hoare (on ?P) (exec_checked (retry_rows ?e (ob_attempts row + 1) msg t)) (\<lambda>_. on ?Q) (\<lambda>_. on ?P)" for t
    proof (rule hoare_checked)
      fix d d' ts
      assume P: "?P d ts" and ins: "retry_rows ?e (ob_attempts row + 1) msg t d = Inr d'"
      have "J d'" using P ins retried [of d row b msg t d'] that x by (auto simp: ok_def)
      then show "?Q d' ts" using P other_rows_turn(2) [OF ins] publisher_rows_sel(2) [OF ins] by (intro turn [of d ts d'])
    qed
    then have "hoare (on ?P) (bnd (lift delay) (\<lambda>us. bnd (lift (plus_us now us)) (\<lambda>t.
        exec_checked (retry_rows ?e (ob_attempts row + 1) msg t)))) (\<lambda>_. on ?Q) (\<lambda>_. on ?P)"
      by (intro hoare_after_bnd keeps_lift) auto
    then show "hoare (on ?P) (bnd (lift delay) (\<lambda>us. bnd (lift (plus_us now us)) (\<lambda>t.
        exec_checked (retry_rows ?e (ob_attempts row + 1) msg t)))) (\<lambda>_. on ?Q) (\<lambda>_ _. True)"
      by (rule hoare_weaken) auto
  qed
  have done': "hoare (on ?P) (record_delivered ?e) (\<lambda>_. on ?Q) (\<lambda>_. on ?P)"
    unfolding record_delivered_def
  proof (rule hoare_transaction)
    show "quiet (bnd utc_now (\<lambda>now. exec (delivered_rows ?e now)))" by (intro keeps_rules)
    have "?Q (delivered_rows ?e t d) ts" if P: "?P d ts" for d ts t
      using P delivered [of d row b t] x other_rows_turn(3) [of ?e d t] publisher_rows_sel(3) [of ?e t d]
      by (intro turn [of d ts]) (auto simp: ok_def)
    then show "hoare (on ?P) (bnd utc_now (\<lambda>now. exec (delivered_rows ?e now))) (\<lambda>_. on ?Q) (\<lambda>_ _. True)"
      by (auto simp: hoare_def m_exec)
  qed
  have send: "keeps ?P (try_send pu row)" unfolding try_send_def by (intro keeps_rules)
  have k: "hoare (on ?Q) (ret y) (\<lambda>_. on ?Q) (\<lambda>_. on (ok J d0))" for y :: publish_counts by (simp add: hoare_def ret_def)
  have after: "hoare (on ?P) (seq m (ret y)) (\<lambda>_. on ?Q) (\<lambda>_. on (ok J d0))"
    if "hoare (on ?P) m (\<lambda>_. on ?Q) (\<lambda>_. on ?P)" for m and y :: publish_counts
    by (rule hoare_seq [OF k], rule hoare_weaken [OF that]) auto
  show ?thesis unfolding publish_row_def x prod.case
  proof (rule hoare_after_bnd [OF send [unfolded x]])
    fix failure
    show "hoare (on (\<lambda>d ts. ok J d0 d ts \<and> (selected (row, b) d \<and> (\<forall>y \<in> set rest. selected y d))))
      (case failure of
       None \<Rightarrow> seq (record_delivered (ob_event_id row)) (ret (c\<lparr>pc_delivered := pc_delivered c + 1\<rparr>))
     | Some error \<Rightarrow>
         (let attempts = ob_attempts row + 1;
              cycle_attempts = attempts - b;
              message = take 1000 (exn_message error);
              c' = c\<lparr>pc_failed := pc_failed c + 1\<rparr>
          in if cycle_attempts \<ge> pu_max_attempts pu then
               seq (record_dead_letter (ob_event_id row) attempts message now)
                   (ret (c'\<lparr>pc_dead_lettered := pc_dead_lettered c' + 1\<rparr>))
             else
               seq (record_retry (ob_event_id row) attempts message (backoff pu cycle_attempts) now)
                   (ret c'))) (\<lambda>_. on ?Q) (\<lambda>_. on (ok J d0))"
      using after [OF done'] after [OF dead] after [OF retry] pu unfolding x
      by (cases failure) (simp_all add: Let_def)
  qed auto
qed

lemma hoare_publish_rows:
  assumes pu: "pu_max_attempts pu = max_attempts"
  shows "distinct (map (ob_event_id \<circ> fst) rows) \<Longrightarrow>
    hoare (on (\<lambda>d ts. ok J d0 d ts \<and> (\<forall>y \<in> set rows. selected y d))) (publish_rows pu now rows c)
      (\<lambda>_. on (ok J d0)) (\<lambda>_. on (ok J d0))"
proof (induction rows arbitrary: c)
  case Nil
  then show ?case by (simp add: hoare_def ret_def)
next
  case (Cons x rows)
  from Cons.prems have "ob_event_id (fst x) \<notin> (\<lambda>y. ob_event_id (fst y)) ` set rows" by (simp add: o_def)
  then have "\<forall>y \<in> set rows. ob_event_id (fst y) \<noteq> ob_event_id (fst x)" by (metis imageI)
  then have row: "hoare (on (\<lambda>d ts. ok J d0 d ts \<and> (selected x d \<and> (\<forall>y \<in> set rows. selected y d)))) (publish_row pu now x c)
     (\<lambda>_. on (\<lambda>d ts. ok J d0 d ts \<and> (\<forall>y \<in> set rows. selected y d))) (\<lambda>_. on (ok J d0))"
    by (rule hoare_publish_row [OF pu])
  have "distinct (map (ob_event_id \<circ> fst) rows)" using Cons.prems by (simp add: o_def)
  from hoare_bnd [OF Cons.IH [OF this] row] show ?case by simp
qed

lemma keeps_publish_batch:
  assumes pu: "pu_max_attempts pu = max_attempts"
  shows "keeps (ok J d0) (publish_batch pu limit)"
proof -
  let ?R = "\<lambda>rows w. on (\<lambda>d ts. ok J d0 d ts \<and> (\<forall>y \<in> set rows. selected y d)) w \<and> distinct (map (ob_event_id \<circ> fst) rows)"
  have "selected y d" if "y \<in> set (select_due now limit d)" for y now d
    using that by (auto simp: select_due_def sql_limit_def due_def selected_def split: if_splits dest: in_set_takeD)
  moreover have "distinct (map (ob_event_id \<circ> fst) (select_due now limit d))" if "wf_db d" for now d
  proof -
    have "distinct (map ob_event_id (sort_key (\<lambda>x. (ob_created_at x, ob_event_id x)) (filter (due now d) (event_outbox d))))"
      using that by (auto simp: wf_db_def distinct_map intro: inj_on_subset)
    then show ?thesis
      by (auto simp: select_due_def sql_limit_def o_def simp flip: take_map intro: distinct_take)
  qed
  ultimately have sel: "hoare (on (ok J d0)) (query (select_due now limit)) ?R (\<lambda>_. on (ok J d0))" for now
    by (intro hoare_pre [OF hoare_query]) (auto simp: ok_def)
  have pub: "hoare (?R rows) (publish_rows pu now rows c) (\<lambda>_. on (ok J d0)) (\<lambda>_. on (ok J d0))" for rows now c
    by (intro hoare_fact hoare_publish_rows [OF pu])
  have "keeps (ok J d0) (bnd (query (select_due now limit)) (\<lambda>rows. publish_rows pu now rows
      \<lparr>pc_selected = length rows, pc_delivered = 0, pc_failed = 0, pc_dead_lettered = 0\<rparr>))" for now
    unfolding keeps_def by (rule hoare_bnd [OF pub sel])
  then show ?thesis unfolding publish_batch_def by (rule keeps_bnd [OF keeps_utc_now])
qed

end

end
