(* ===== verification/System.thy ===== *)
theory System
  imports Service_Invariants
begin

text \<open>
  The running system: the calls the API, the recovery worker, the outbox publisher and the
  started threads make, in any order and with any arguments, one after the other, and crashes:
  the process dies between two steps of a shutdown, or after the approval of a drill is
  committed and before the drill is started. The clock, the UUIDs and the answers from the
  outside are those of the world, about which nothing is assumed.
\<close>

datatype call =
    Register_Agent "json dict"
  | Create_Run "json dict"
  | Get_Run string string
  | Request_Shutdown string string string string bool adapter_ref
  | Recover_Incomplete bool
  | Recover_Approved bool
  | Get_Evidence string string
  | Export_Events string string
  | Get_Report string string
  | Request_Restart string string string
  | List_Dead_Letters string int
  | Requeue string string string
  | Request_Drill "json dict" string
  | Get_Drill string string
  | Approve_Drill string string string bool
  | Reject_Drill string string string string
  | Publish int
  | Run_Thread nat
  | Crash nat nat
  | Crash_Approval string string string

definition forget :: "'a m \<Rightarrow> unit m" where
  "forget m = bnd m (\<lambda>_. ret ())"

text \<open>The \<open>n\<close>-th of the started threads gets its turn and runs to its end.\<close>

definition run_thread :: "control_plane \<Rightarrow> nat \<Rightarrow> unit m" where
  "run_thread cp n w =
     (if n < length (w_threads w) then
        (let th = w_threads w ! n in
         orchestrate cp (th_tenant_id th) (th_run_id th) (th_actor th) (resolve_adapter cp (th_adapter th))
           (th_recovering th) (th_lease_owner th)
           (w\<lparr>w_threads := take n (w_threads w) @ drop (Suc n) (w_threads w)\<rparr>))
      else (Inr (), w))"

text \<open>
  A crash: the process dies while the \<open>n\<close>-th thread is in \<open>_orchestrate\<close>, after the \<open>k\<close>-th of
  its steps: the four phases, then the probes one by one, the terminal transition never. What
  was committed stays, and all threads are lost. A step that raises before the crash is handled
  as ever; with no such thread nothing but the threads is lost.
\<close>

definition cut :: "bool \<Rightarrow> ('s \<Rightarrow> 's m) \<Rightarrow> 's \<Rightarrow> 's m" where
  "cut alive f s = (if alive then f s else ret s)"

definition orchestrate_cut ::
  "control_plane \<Rightarrow> string \<Rightarrow> string \<Rightarrow> string \<Rightarrow> adapter \<Rightarrow> bool \<Rightarrow> nat \<Rightarrow> string \<Rightarrow> unit m" where
  "orchestrate_cut cp tenant_id run_id actor ad recovering k lease =
     bnd (adapter_run_of tenant_id run_id) (\<lambda>run.
     seq (if recovering then
            append_event run ''shutdown.recovery.resumed''
              [(''state'', JStr (state_value (rn_state run))), (''worker_id'', JStr (cp_worker_id cp))]
              ''recovery-worker''
          else ret ())
    (bnd (deadline_expired run) (\<lambda>expired.
     if expired then ret ()
     else
       bnd (cut (0 < k) (phase_fence cp ad tenant_id run_id actor lease) (run, rn_state run)) (\<lambda>s1.
       bnd (cut (1 < k) (phase_stop cp ad tenant_id run_id actor lease) s1) (\<lambda>s2.
       bnd (cut (2 < k) (phase_discover cp ad tenant_id run_id actor lease) s2) (\<lambda>s3.
       bnd (cut (3 < k) (phase_probing tenant_id run_id actor) s3) (\<lambda>s4.
       if snd s4 = PROBING then
         bnd (probe_loop cp ad run_id lease (fst s4) (take (k - 4) PROBE_KINDS) (existing_results (fst s4))) (\<lambda>_. ret ())
       else ret ())))))))"

definition crash_thread :: "control_plane \<Rightarrow> nat \<Rightarrow> nat \<Rightarrow> unit m" where
  "crash_thread cp n k w =
     (if n < length (w_threads w) then
        (let th = w_threads w ! n; t = th_tenant_id th; r = th_run_id th;
             ran = bnd (case th_lease_owner th of Some l \<Rightarrow> ret (Some l) | None \<Rightarrow> claim_shutdown_work cp t r) (\<lambda>lease.
               case lease of
                 None \<Rightarrow> ret ()
               | Some l \<Rightarrow>
                   catch (orchestrate_cut cp t r (th_actor th) (resolve_adapter cp (th_adapter th)) (th_recovering th) k l)
                         (orchestrate_failed t r l))
         in (Inr (), (snd (ran w))\<lparr>w_threads := []\<rparr>))
      else (Inr (), w\<lparr>w_threads := []\<rparr>))"

text \<open>
  A crash in \<open>approve_drill\<close>, when the approval is committed and the drill not started:
  \<open>recover_approved_drills\<close> is there for these.
\<close>

definition approve_only :: "string \<Rightarrow> string \<Rightarrow> string \<Rightarrow> unit m" where
  "approve_only tenant_id drill_id actor =
     bnd (get_drill tenant_id drill_id) (\<lambda>(drill, _).
     if dr_status drill = D_PENDING_APPROVAL \<and> dr_requested_by drill \<noteq> actor then
       bnd utc_now (\<lambda>approved_at.
       transaction (exec (update_drills (drill_key tenant_id drill_id) (mark_approved actor approved_at))))
     else ret ())"

definition crash_approval :: "string \<Rightarrow> string \<Rightarrow> string \<Rightarrow> unit m" where
  "crash_approval tenant_id drill_id actor w =
     (Inr (), (snd (approve_only tenant_id drill_id actor w))\<lparr>w_threads := []\<rparr>)"

fun run_call :: "control_plane \<Rightarrow> publisher \<Rightarrow> call \<Rightarrow> unit m" where
  "run_call cp pu (Register_Agent request) = forget (register_agent request)"
| "run_call cp pu (Create_Run request) = forget (create_run request)"
| "run_call cp pu (Get_Run t r) = forget (get_run t r)"
| "run_call cp pu (Request_Shutdown t r actor key asynchronous adapter) =
     forget (request_shutdown cp t r actor key asynchronous adapter)"
| "run_call cp pu (Recover_Incomplete asynchronous) = forget (recover_incomplete_shutdowns cp asynchronous)"
| "run_call cp pu (Recover_Approved asynchronous) = forget (recover_approved_drills cp asynchronous)"
| "run_call cp pu (Get_Evidence t r) = forget (evidence cp t r)"
| "run_call cp pu (Export_Events t r) = forget (export_events t r)"
| "run_call cp pu (Get_Report t r) = forget (report cp t r)"
| "run_call cp pu (Request_Restart t r actor) = forget (request_restart cp t r actor)"
| "run_call cp pu (List_Dead_Letters t limit) = forget (dead_letters t limit)"
| "run_call cp pu (Requeue t e actor) = forget (requeue_dead_letter t e actor)"
| "run_call cp pu (Request_Drill request actor) = forget (request_drill request actor)"
| "run_call cp pu (Get_Drill t i) = forget (get_drill t i)"
| "run_call cp pu (Approve_Drill t i actor asynchronous) = forget (approve_drill cp t i actor asynchronous)"
| "run_call cp pu (Reject_Drill t i actor reason) = forget (reject_drill t i actor reason)"
| "run_call cp pu (Publish limit) = forget (publish_batch pu limit)"
| "run_call cp pu (Run_Thread n) = run_thread cp n"
| "run_call cp pu (Crash n k) = crash_thread cp n k"
| "run_call cp pu (Crash_Approval t i actor) = crash_approval t i actor"

definition after :: "control_plane \<Rightarrow> publisher \<Rightarrow> call \<Rightarrow> world \<Rightarrow> world" where
  "after cp pu c w = snd (run_call cp pu c w)"

inductive reachable :: "control_plane \<Rightarrow> publisher \<Rightarrow> world \<Rightarrow> bool" for cp pu where
  start: "w_db w = new_store name \<Longrightarrow> w_threads w = [] \<Longrightarrow> reachable cp pu w"
| call: "reachable cp pu w \<Longrightarrow> reachable cp pu (after cp pu c w)"

definition started :: "string \<Rightarrow> world \<Rightarrow> bool" where
  "started name w \<longleftrightarrow> w_db w = new_store name \<and> w_threads w = []"

text \<open>What happens over a sequence of calls.\<close>

fun after_all :: "control_plane \<Rightarrow> publisher \<Rightarrow> call list \<Rightarrow> world \<Rightarrow> world" where
  "after_all cp pu [] w = w"
| "after_all cp pu (c # cs) w = after_all cp pu cs (after cp pu c w)"

lemma reachable_iff: "reachable cp pu w \<longleftrightarrow> (\<exists>name w0 cs. started name w0 \<and> w = after_all cp pu cs w0)"
proof
  assume "reachable cp pu w"
  then show "\<exists>name w0 cs. started name w0 \<and> w = after_all cp pu cs w0"
  proof induction
    case (start w name)
    then show ?case unfolding started_def by (metis after_all.simps(1))
  next
    case (call w c)
    have "after_all cp pu (cs @ [c]) w0 = after cp pu c (after_all cp pu cs w0)" for cs w0
      by (induction cs arbitrary: w0) simp_all
    with call show ?case by metis
  qed
next
  have "reachable cp pu w0 \<Longrightarrow> reachable cp pu (after_all cp pu cs w0)" for cs w0
    by (induction cs arbitrary: w0) (auto intro: reachable.call)
  then show "\<exists>name w0 cs. started name w0 \<and> w = after_all cp pu cs w0 \<Longrightarrow> reachable cp pu w"
    by (auto simp: started_def intro: reachable.start)
qed

lemma wf_new_store: "wf_db (new_store name)"
  by (simp add: wf_db_def new_store_def)

section \<open>Every invariant that obeys the laws holds in every reachable state\<close>

lemma keeps_forget: "keeps V m \<Longrightarrow> keeps V (forget m)"
  unfolding forget_def by (intro keeps_rules)

context service_invariant begin

lemma keeps_run_thread:
  assumes ad: "shutdown_adapter (cp_adapter cp)"
  shows "keeps (ok J d0) (run_thread cp n)"
  unfolding keeps_iff
proof (intro allI impI)
  fix w :: world
  assume w: "on (ok J d0) w"
  show "on (ok J d0) (snd (run_thread cp n w))"
  proof (cases "n < length (w_threads w)")
    case True
    let ?th = "w_threads w ! n"
    let ?w = "w\<lparr>w_threads := take n (w_threads w) @ drop (Suc n) (w_threads w)\<rparr>"
    have req: "requested (th_tenant_id ?th) (th_run_id ?th) (w_db w)" using w True by (simp add: ok_def)
    have "on (ok J (w_db w)) ?w"
      using w by (auto simp: ok_def dest: in_set_takeD in_set_dropD)
    from keepsD [OF keeps_orchestrate [OF resolve_adapter_ok [OF ad] req] this] w
    show ?thesis using True ok_trans by (auto simp: run_thread_def Let_def)
  qed (simp add: run_thread_def w)
qed

lemma hoare_cut:
  "(\<And>x. hoare (at_phase t r d0 x) (f x) (at_phase t r d0) (\<lambda>_. on (ok J d0))) \<Longrightarrow>
     hoare (at_phase t r d0 x) (cut alive f x) (at_phase t r d0) (\<lambda>_. on (ok J d0))"
  by (simp add: cut_def hoare_ret)

lemma hoare_cut_probes:
  assumes ad: "shutdown_adapter ad"
  shows "hoare (at_phase t r d0 x)
     (if snd x = PROBING then
        bnd (probe_loop cp ad r lease (fst x) (take j PROBE_KINDS) (existing_results (fst x))) (\<lambda>_. ret ())
      else ret ()) (\<lambda>_. on (ok J d0)) (\<lambda>_. on (ok J d0))"
proof (cases "snd x = PROBING \<and> names t r (fst x)")
  case True
  let ?Q = "\<lambda>res w. case res of None \<Rightarrow> on (\<lambda>d ts. ok J d0 d ts \<and> over t r d) w
      | Some ex' \<Rightarrow> on (\<lambda>d ts. ok J d0 d ts \<and> in_state t r PROBING d \<and> knows ex' t r d) w"
  have "hoare (at_phase t r d0 x) (probe_loop cp ad r lease (fst x) (take j PROBE_KINDS) (existing_results (fst x)))
      ?Q (\<lambda>_. on (ok J d0))"
    using True
    by (intro hoare_pre [OF hoare_probe_loop [OF ad]])
       (auto simp: at_phase_def current_def existing_results_def dest: in_set_takeD)
  then show ?thesis using True
    by (auto simp: hoare_def bnd_def ret_def split: prod.splits sum.splits option.splits) fastforce+
next
  case False
  then show ?thesis by (auto simp: hoare_def ret_def at_phase_def current_def)
qed

lemma keeps_orchestrate_cut:
  assumes ad: "shutdown_adapter ad"
  shows "keeps (ok J d0) (orchestrate_cut cp t r actor ad recovering k lease)"
  unfolding keeps_def orchestrate_cut_def
proof (rule hoare_bnd [OF _ hoare_adapter_run_of])
  fix run :: adapter_run
  let ?V = "\<lambda>d ts. ok J d0 d ts \<and> current t r run (rn_state run) d"
  let ?k = "bnd (cut (0 < k) (phase_fence cp ad t r actor lease) (run, rn_state run)) (\<lambda>s1.
       bnd (cut (1 < k) (phase_stop cp ad t r actor lease) s1) (\<lambda>s2.
       bnd (cut (2 < k) (phase_discover cp ad t r actor lease) s2) (\<lambda>s3.
       bnd (cut (3 < k) (phase_probing t r actor) s3) (\<lambda>s4.
       if snd s4 = PROBING then
         bnd (probe_loop cp ad r lease (fst s4) (take (k - 4) PROBE_KINDS) (existing_results (fst s4))) (\<lambda>_. ret ())
       else ret ()))))"
  have phases: "hoare (on ?V) ?k (\<lambda>_. on (ok J d0)) (\<lambda>_. on (ok J d0))"
  proof (rule hoare_pre)
    show "hoare (at_phase t r d0 (run, rn_state run)) ?k (\<lambda>_. on (ok J d0)) (\<lambda>_. on (ok J d0))"
      by (intro hoare_bnd [OF _ hoare_cut] hoare_phase_fence hoare_phase_stop hoare_phase_discover hoare_phase_probing
          hoare_cut_probes [OF ad])
  qed (simp add: at_phase_def)
  have "hoare (on ?V) (if expired then ret () else ?k) (\<lambda>_. on (ok J d0)) (\<lambda>_. on (ok J d0))" for expired
    using phases by (auto simp: hoare_def ret_def)
  then show "hoare (on ?V) (seq (if recovering then append_event run ''shutdown.recovery.resumed''
              [(''state'', JStr (state_value (rn_state run))), (''worker_id'', JStr (cp_worker_id cp))] ''recovery-worker'' else ret ())
     (bnd (deadline_expired run) (\<lambda>expired. if expired then ret () else ?k)))
     (\<lambda>_. on (ok J d0)) (\<lambda>_. on (ok J d0))"
    by (intro hoare_after_seq hoare_after_bnd [OF keeps_deadline] keeps_if keeps_append_event keeps_ret framed_current) auto
qed

lemma keeps_crash_thread:
  assumes ad: "shutdown_adapter (cp_adapter cp)"
  shows "keeps (ok J d0) (crash_thread cp n k)"
  unfolding keeps_iff
proof (intro allI impI)
  fix w :: world
  assume w: "on (ok J d0) w"
  have lost: "on (ok J d) (v\<lparr>w_threads := []\<rparr>)" if "on (ok J d) v" for d v
    using that by (simp add: ok_def)
  show "on (ok J d0) (snd (crash_thread cp n k w))"
  proof (cases "n < length (w_threads w)")
    case True
    let ?th = "w_threads w ! n"
    let ?t = "th_tenant_id ?th" and ?r = "th_run_id ?th"
    have req: "requested ?t ?r (w_db w)" using w True by (simp add: ok_def)
    have "keeps (ok J (w_db w)) (catch (orchestrate_cut cp ?t ?r a (resolve_adapter cp (th_adapter ?th)) b k l)
        (orchestrate_failed ?t ?r l))" for a b l
      unfolding keeps_def
      by (rule hoare_catch [OF _ keeps_orchestrate_cut [OF resolve_adapter_ok [OF ad], unfolded keeps_def]])
         (rule hoare_weaken [OF hoare_failed_over [OF req]], auto)
    then have "keeps (ok J (w_db w)) (bnd (case th_lease_owner ?th of Some l \<Rightarrow> ret (Some l) | None \<Rightarrow> claim_shutdown_work cp ?t ?r)
        (\<lambda>lease. case lease of None \<Rightarrow> ret () | Some l \<Rightarrow>
           catch (orchestrate_cut cp ?t ?r (th_actor ?th) (resolve_adapter cp (th_adapter ?th)) (th_recovering ?th) k l)
             (orchestrate_failed ?t ?r l)))"
      by (intro keeps_bnd keeps_case_option keeps_ret keeps_true [OF keeps_claim])
    from lost [OF keepsD [OF this ok_self [OF w]]] w True show ?thesis
      using ok_trans by (auto simp: crash_thread_def Let_def)
  qed (use lost [OF w] in \<open>simp add: crash_thread_def\<close>)
qed

lemma keeps_approve_only: "keeps (ok J d0) (approve_only t i actor)"
  unfolding keeps_def approve_only_def
proof (rule hoare_bnd [OF _ hoare_get_drill])
  fix x :: "json drill_row \<times> shutdown_state option"
  obtain drill st where x: "x = (drill, st)" by (cases x)
  let ?P = "\<lambda>d. \<exists>z. drill_at t i (dr_status drill) z d \<and> dr_requested_by z = dr_requested_by drill"
  have "hoare (on (\<lambda>d ts. ok J d0 d ts \<and> ?P d)) (transaction (exec (update_drills (drill_key t i) (mark_approved actor now))))
      (\<lambda>_. on (\<lambda>d ts. ok J d0 d ts \<and> True)) (\<lambda>_. on (ok J d0))"
    if "dr_status drill = D_PENDING_APPROVAL" "dr_requested_by drill \<noteq> actor" for now
    by (rule hoare_update_drills) (use that in \<open>auto intro: approved\<close>)
  then show "hoare (case x of (drill, st) \<Rightarrow> \<lambda>w. on (ok J d0) w \<and>
      (\<exists>z. drill_at t i (dr_status drill) z (w_db w) \<and> dr_requested_by z = dr_requested_by drill))
    (case x of (drill, _) \<Rightarrow>
       if dr_status drill = D_PENDING_APPROVAL \<and> dr_requested_by drill \<noteq> actor then
         bnd utc_now (\<lambda>approved_at. transaction (exec (update_drills (drill_key t i) (mark_approved actor approved_at))))
       else ret ()) (\<lambda>_. on (ok J d0)) (\<lambda>_. on (ok J d0))"
    unfolding x by (auto simp: hoare_def m_exec)
qed

lemma keeps_crash_approval: "keeps (ok J d0) (crash_approval t i actor)"
  unfolding keeps_iff
proof (intro allI impI)
  fix w :: world
  assume "on (ok J d0) w"
  from keepsD [OF keeps_approve_only this, of t i actor] show "on (ok J d0) (snd (crash_approval t i actor w))"
    by (simp add: crash_approval_def ok_def)
qed

lemma keeps_call:
  assumes ad: "shutdown_adapter (cp_adapter cp)" and pu: "pu_max_attempts pu = max_attempts"
  shows "keeps (ok J d0) (run_call cp pu c)"
  by (cases c)
    (simp_all add: keeps_forget keeps_register_agent keeps_create_run keeps_get_run keeps_request_shutdown
      keeps_recover_incomplete keeps_recover_approved keeps_evidence keeps_export_events keeps_report
      keeps_request_restart keeps_dead_letters keeps_requeue keeps_request_drill keeps_get_drill
      keeps_approve_drill keeps_reject_drill keeps_publish_batch keeps_run_thread keeps_crash_thread
      keeps_crash_approval ad pu)

lemma ok_after:
  assumes "shutdown_adapter (cp_adapter cp)" and "pu_max_attempts pu = max_attempts" and "on (ok J d0) w"
  shows "on (ok J d0) (after cp pu c w)"
  using keepsD [OF keeps_call [OF assms(1,2)] assms(3)] by (simp add: after_def)

lemma ok_reachable:
  assumes ad: "shutdown_adapter (cp_adapter cp)" and pu: "pu_max_attempts pu = max_attempts"
    and new: "\<And>name. J (new_store name)"
  shows "reachable cp pu w \<Longrightarrow> on (ok J (w_db w)) w"
proof (induction rule: reachable.induct)
  case (start w name)
  then show ?case using new wf_new_store by (simp add: ok_def)
next
  case (call w c)
  from call.IH have "on (ok J (w_db w)) (after cp pu c w)" by (rule ok_after [OF ad pu])
  then show ?case by (rule ok_self)
qed

end

end
