(* ===== verification/Guarantees.thy ===== *)
theory Guarantees
  imports System
begin

text \<open>
  The invariants of the service, each an interpretation of \<open>service_invariant\<close>, and what they
  guarantee in every reachable state: the state machine of a shutdown, the evidence chain and
  its copy in the outbox, what the state \<open>VERIFIED\<close> rests on, the separation of duties for
  drills, and the ownership of every row.
\<close>

section \<open>Writes that leave something alone\<close>

lemma other_columns [simp]:
  "evidences (Orchestrator.request_run t r a b k d) = evidences d"
  "event_outbox (Orchestrator.request_run t r a b k d) = event_outbox d"
  "probes (Orchestrator.request_run t r a b k d) = probes d"
  "agents (Orchestrator.request_run t r a b k d) = agents d"
  "drills (Orchestrator.request_run t r a b k d) = drills d"
  "reports (Orchestrator.request_run t r a b k d) = reports d"
  "delegated_jobs (Orchestrator.request_run t r a b k d) = delegated_jobs d"
  "event_delivery_state (Orchestrator.request_run t r a b k d) = event_delivery_state d"
  "event_retry_cycle (Orchestrator.request_run t r a b k d) = event_retry_cycle d"
  "evidences (Orchestrator.set_state t r s stop d) = evidences d"
  "event_outbox (Orchestrator.set_state t r s stop d) = event_outbox d"
  "probes (Orchestrator.set_state t r s stop d) = probes d"
  "agents (Orchestrator.set_state t r s stop d) = agents d"
  "drills (Orchestrator.set_state t r s stop d) = drills d"
  "reports (Orchestrator.set_state t r s stop d) = reports d"
  "delegated_jobs (Orchestrator.set_state t r s stop d) = delegated_jobs d"
  "event_delivery_state (Orchestrator.set_state t r s stop d) = event_delivery_state d"
  "event_retry_cycle (Orchestrator.set_state t r s stop d) = event_retry_cycle d"
  by (simp_all add: Orchestrator.request_run_def Orchestrator.set_state_def)

lemma upsert_job_Inr:
  "Orchestrator.upsert_job j d = Inr d' \<Longrightarrow> \<exists>xs. d' = d\<lparr>delegated_jobs := xs\<rparr>"
  by (auto simp: upsert_job_def split: if_splits)

lemma update_drills_other [simp]:
  "evidences (update_drills Q f d) = evidences d" "event_outbox (update_drills Q f d) = event_outbox d"
  "agents (update_drills Q f d) = agents d" "reports (update_drills Q f d) = reports d"
  "delegated_jobs (update_drills Q f d) = delegated_jobs d"
  "event_delivery_state (update_drills Q f d) = event_delivery_state d"
  "event_retry_cycle (update_drills Q f d) = event_retry_cycle d"
  by (simp_all add: update_drills_def)

text \<open>What the publisher and a requeue change: the delivery columns of the outbox only.\<close>

definition outbox_key :: "outbox_row \<Rightarrow> string \<times> string \<times> string \<times> string" where
  "outbox_key x = (ob_event_id x, ob_tenant_id x, ob_run_id x, ob_payload x)"

definition same_but_delivery :: "db \<Rightarrow> db \<Rightarrow> bool" where
  "same_but_delivery d d' \<longleftrightarrow>
     runs d' = runs d \<and> probes d' = probes d \<and> agents d' = agents d \<and> drills d' = drills d \<and>
     reports d' = reports d \<and> delegated_jobs d' = delegated_jobs d \<and> evidences d' = evidences d \<and>
     map outbox_key (event_outbox d') = map outbox_key (event_outbox d)"

lemma same_but_delivery_turn:
  "dead_letter_rows e a msg now d = Inr d' \<Longrightarrow> same_but_delivery d d'"
  "retry_rows e a msg now d = Inr d' \<Longrightarrow> same_but_delivery d d'"
  "same_but_delivery d (delivered_rows e now d)"
  "same_but_delivery d (requeue_rows t e a d)"
  by (auto simp: dead_letter_rows_def retry_rows_def delivered_rows_def update_outbox_def requeue_rows_def
      same_but_delivery_def sql_update_def outbox_key_def dest!: upsert_delivery_Inr)

lemma framed_find_run_eq: "runs d' = runs d \<Longrightarrow> find_run t r d' = find_run t r d"
  by (simp add: find_run_def)

section \<open>The state machine\<close>

interpretation anything: service_invariant "\<lambda>_. True" n for n
  by unfold_locales simp_all

lemma run_le_after:
  assumes "shutdown_adapter (cp_adapter cp)" and "reachable cp pu w"
  shows "run_le (w_db w) (w_db (after cp pu c w))"
proof -
  have "on (ok (\<lambda>_. True) (w_db w)) w"
    by (rule anything.ok_reachable [OF assms(1) refl _ assms(2)]) simp
  from anything.ok_after [OF assms(1) refl this] show ?thesis by (simp add: ok_def)
qed

lemma wf_reachable:
  assumes "shutdown_adapter (cp_adapter cp)" and "reachable cp pu w"
  shows "wf_db (w_db w)"
  using anything.ok_reachable [OF assms(1) refl _ assms(2)] by (simp add: ok_def)

section \<open>The ledger and its copy in the outbox\<close>

text \<open>
  The outbox holds, in the order of the evidence, the envelope of every record.
\<close>

definition mirrors :: "db \<Rightarrow> string evidence_row \<Rightarrow> outbox_row \<Rightarrow> bool" where
  "mirrors d e x \<longleftrightarrow>
     (\<exists>rec run. e = stored rec \<and> find_run (ev_tenant_id e) (ev_run_id e) d = Some run \<and>
        outbox_key x = (ev_evidence_id e, ev_tenant_id e, ev_run_id e, canonical_json (JObj (event_envelope rec run))))"

definition ledger_ok :: "db \<Rightarrow> bool" where
  "ledger_ok d \<longleftrightarrow> ledger_inv d \<and> list_all2 (mirrors d) (evidences d) (event_outbox d)"

lemma mirrors_le:
  assumes "run_le d d'" and "mirrors d e x" and "outbox_key x' = outbox_key x"
  shows "mirrors d' e x'"
proof -
  obtain rec run where r: "e = stored rec" "find_run (ev_tenant_id e) (ev_run_id e) d = Some run"
      "outbox_key x = (ev_evidence_id e, ev_tenant_id e, ev_run_id e, canonical_json (JObj (event_envelope rec run)))"
    using assms(2) by (auto simp: mirrors_def)
  obtain run' where r': "find_run (ev_tenant_id e) (ev_run_id e) d' = Some run'" "row_le run run'"
    using assms(1) r(2) unfolding run_le_def by blast
  have "event_envelope rec run' = event_envelope rec run"
    using r'(2) by (simp add: event_envelope_def row_le_def)
  then show ?thesis using r r' assms(3) unfolding mirrors_def by metis
qed

lemma ledger_ok_le:
  assumes "ledger_ok d" and "run_le d d'" and "evidences d' = evidences d"
    and "map outbox_key (event_outbox d') = map outbox_key (event_outbox d)"
  shows "ledger_ok d'"
proof -
  have "list_all2 (mirrors d') es xs'" if "list_all2 (mirrors d) es xs" "map outbox_key xs' = map outbox_key xs" for es xs xs'
    using that mirrors_le [OF assms(2)]
    by (induction arbitrary: xs' rule: list_all2_induct) (auto simp: Cons_eq_map_conv map_eq_Cons_conv)
  then show ?thesis using assms ledger_inv_cong [OF assms(3)] by (auto simp: ledger_ok_def)
qed

lemma ledger_ok_append:
  assumes "ledger_ok d" and a: "appendable rec run d"
  shows "ledger_ok (append_rows rec run d)"
proof -
  let ?d = "append_rows rec run d"
  have "find_run (ev_tenant_id rec) (ev_run_id rec) ?d = Some run"
    using a unfolding appendable_def by (simp add: framed_find_run_eq [of ?d d])
  then have "mirrors ?d (stored rec) (outbox_event rec run)"
    by (auto simp: mirrors_def outbox_key_def outbox_event_def)
  moreover have "list_all2 (mirrors ?d) (evidences d) (event_outbox d)"
    using assms(1) mirrors_le [OF run_le_cong [of ?d d]] unfolding ledger_ok_def
    by (auto elim!: list_all2_mono)
  ultimately have "list_all2 (mirrors ?d) (evidences ?d) (event_outbox ?d)"
    by (simp add: list_all2_appendI)
  then show ?thesis using assms ledger_inv_append unfolding ledger_ok_def by blast
qed

lemma ledger_ok_same: "ledger_ok d \<Longrightarrow> same_but_delivery d d' \<Longrightarrow> ledger_ok d'"
  by (rule ledger_ok_le) (auto simp: same_but_delivery_def intro: run_le_cong)

lemma ledger_ok_cong:
  "runs d' = runs d \<Longrightarrow> evidences d' = evidences d \<Longrightarrow> event_outbox d' = event_outbox d \<Longrightarrow> ledger_ok d' = ledger_ok d"
  using ledger_ok_le run_le_cong by metis

lemma ledger_ok_other [simp]:
  "ledger_ok (d\<lparr>shutdown_works := ws\<rparr>) = ledger_ok d" "ledger_ok (d\<lparr>probes := ps\<rparr>) = ledger_ok d"
  "ledger_ok (d\<lparr>delegated_jobs := js\<rparr>) = ledger_ok d" "ledger_ok (d\<lparr>agents := ags\<rparr>) = ledger_ok d"
  "ledger_ok (d\<lparr>reports := rps\<rparr>) = ledger_ok d" "ledger_ok (d\<lparr>drills := drs\<rparr>) = ledger_ok d"
  "ledger_ok (update_drills Q f d) = ledger_ok d"
  by (rule ledger_ok_cong; simp)+

interpretation chain: service_invariant ledger_ok n for n
proof unfold_locales
  fix d x d' assume "wf_db d" "ledger_ok d" "fresh_run x" "Store.insert_run x d = Inr d'"
  then show "ledger_ok d'" using le_insert_run [of d x d'] ledger_ok_le [of d d'] by (simp add: insert_run_Inr)
next
  fix d t r x a b k assume "wf_db d" "ledger_ok d" "find_run t r d = Some x" "rn_shutdown_requested_at x = None"
  then show "ledger_ok (Orchestrator.request_run t r a b k d)"
    using le_request_run [of d t r x a b k] ledger_ok_le by fastforce
next
  fix d t r s s' and stop :: "instant option"
  assume "wf_db d" "ledger_ok d" "in_state t r s d" "edge s s'" "s \<noteq> RUNNING" "terminal s' \<longleftrightarrow> stop \<noteq> None"
  then show "ledger_ok (Orchestrator.set_state t r s' stop d)"
    using le_set_state [of d t r s s' stop] ledger_ok_le by fastforce
qed (auto intro: ledger_ok_append ledger_ok_same same_but_delivery_turn simp: insert_Inr dest!: upsert_job_Inr)

section \<open>What \<open>VERIFIED\<close> rests on\<close>

text \<open>
  A run has at most one probe of a kind, of the five kinds or the restart; a verified run has
  a passing one of each of the five.
\<close>

definition probe_key :: "string probe_row \<Rightarrow> string \<times> string \<times> string" where
  "probe_key p = (pb_tenant_id p, pb_run_id p, pb_kind p)"

definition probes_ok :: "db \<Rightarrow> bool" where
  "probes_ok d \<longleftrightarrow>
     distinct (map probe_key (probes d)) \<and>
     (\<forall>p \<in> set (probes d). pb_kind p \<in> insert ''restart'' (set PROBE_KINDS) \<and>
        \<not> in_state (pb_tenant_id p) (pb_run_id p) RUNNING d) \<and>
     (\<forall>t r. in_state t r VERIFIED d \<longrightarrow> all_pass t r d)"

lemma probes_ok_cong: "runs d' = runs d \<Longrightarrow> probes d' = probes d \<Longrightarrow> probes_ok d' = probes_ok d"
  by (simp add: probes_ok_def in_state_def find_run_def all_pass_def probe_at_def)

lemma in_state_update_run:
  assumes "\<And>x. rn_tenant_id (f x) = rn_tenant_id x" and "\<And>x. rn_run_id (f x) = rn_run_id x"
    and "\<And>x. rn_state (f x) = s'"
  shows "in_state t' r' s (update_run t r f d) =
     (if t' = t \<and> r' = r then s = s' \<and> (\<exists>x. find_run t r d = Some x) else in_state t' r' s d)"
  using assms by (auto simp: in_state_def find_update_run)

lemma in_state_set_state:
  "in_state t' r' s (Orchestrator.set_state t r s' stop d) =
     (if t' = t \<and> r' = r then s = s' \<and> (\<exists>x. find_run t r d = Some x) else in_state t' r' s d)"
  unfolding set_state_update by (rule in_state_update_run) simp_all

lemma in_state_request_run:
  "in_state t' r' s (Orchestrator.request_run t r a b k d) =
     (if t' = t \<and> r' = r then s = REQUESTED \<and> (\<exists>x. find_run t r d = Some x) else in_state t' r' s d)"
  unfolding request_run_update by (rule in_state_update_run) (simp_all add: mark_requested_def)

lemma probes_ok_move:
  assumes ok: "probes_ok d" and same: "probes d' = probes d"
    and st: "\<And>t' r' s. in_state t' r' s d' = (if t' = t \<and> r' = r then s = s' \<and> (\<exists>x. find_run t r d = Some x) else in_state t' r' s d)"
    and s': "s' \<noteq> RUNNING" "s' = VERIFIED \<Longrightarrow> all_pass t r d"
  shows "probes_ok d'"
  using assms by (auto simp: probes_ok_def all_pass_def probe_at_def)

section \<open>Every row belongs to a run of its tenant\<close>

definition known :: "db \<Rightarrow> (string \<times> string) set" where
  "known d = {(t, r). find_run t r d \<noteq> None}"

definition ended :: "db \<Rightarrow> (string \<times> string) set" where
  "ended d = {(t, r). \<exists>x. find_run t r d = Some x \<and> terminal (rn_state x)}"

definition agents_of :: "db \<Rightarrow> (string \<times> string) set" where
  "agents_of d = {(t, a). find_agent t a d \<noteq> None}"

definition run_agents :: "db \<Rightarrow> (string \<times> string) set" where
  "run_agents d = (\<lambda>x. (rn_tenant_id x, rn_agent_id x)) ` set (runs d)"

definition probe_runs :: "db \<Rightarrow> (string \<times> string) set" where
  "probe_runs d = (\<lambda>p. (pb_tenant_id p, pb_run_id p)) ` set (probes d)"

definition job_runs :: "db \<Rightarrow> (string \<times> string) set" where
  "job_runs d = (\<lambda>j. (jb_tenant_id j, jb_run_id j)) ` set (delegated_jobs d)"

definition evidence_runs :: "db \<Rightarrow> (string \<times> string) set" where
  "evidence_runs d = (\<lambda>e. (ev_tenant_id e, ev_run_id e)) ` set (evidences d)"

definition outbox_runs :: "db \<Rightarrow> (string \<times> string) set" where
  "outbox_runs d = (\<lambda>x. (ob_tenant_id x, ob_run_id x)) ` set (event_outbox d)"

definition report_runs :: "db \<Rightarrow> (string \<times> string) set" where
  "report_runs d = (\<lambda>p. (rp_tenant_id p, rp_run_id p)) ` set (reports d)"

lemmas run_sets = run_agents_def probe_runs_def job_runs_def evidence_runs_def outbox_runs_def report_runs_def

definition owned :: "db \<Rightarrow> bool" where
  "owned d \<longleftrightarrow>
     run_agents d \<subseteq> agents_of d \<and> probe_runs d \<subseteq> known d \<and> job_runs d \<subseteq> known d \<and>
     evidence_runs d \<subseteq> known d \<and> outbox_runs d \<subseteq> known d \<and> report_runs d \<subseteq> ended d"

lemma known_le: "run_le d d' \<Longrightarrow> known d \<subseteq> known d'"
  by (fastforce simp: run_le_def known_def)

lemma ended_le: "run_le d d' \<Longrightarrow> ended d \<subseteq> ended d'"
  unfolding ended_def run_le_def row_le_def terminal_rank
proof clarify
  fix t r x
  assume "\<forall>t r x. find_run t r d = Some x \<longrightarrow>
      (\<exists>y. find_run t r d' = Some y \<and>
        rn_run_id y = rn_run_id x \<and> rn_tenant_id y = rn_tenant_id x \<and> rn_agent_id y = rn_agent_id x \<and>
        rn_parent_run_id y = rn_parent_run_id x \<and> rn_identity_ref y = rn_identity_ref x \<and>
        rn_started_at y = rn_started_at x \<and> rn_correlation_id y = rn_correlation_id x \<and>
        rn_policy_version y = rn_policy_version x \<and> edge\<^sup>*\<^sup>* (rn_state x) (rn_state y) \<and>
        (rn_shutdown_requested_at x \<noteq> None \<longrightarrow>
          rn_shutdown_requested_at y = rn_shutdown_requested_at x \<and> rn_deadline_at y = rn_deadline_at x \<and>
          rn_shutdown_idempotency_key y = rn_shutdown_idempotency_key x))"
    and x: "find_run t r d = Some x" "rank (rn_state x) = 6"
  then obtain y where y: "find_run t r d' = Some y" "edge\<^sup>*\<^sup>* (rn_state x) (rn_state y)" by blast
  then have "6 \<le> rank (rn_state y)" using edges_rank x(2) by fastforce
  moreover have "rank (rn_state y) \<le> 6" by (cases "rn_state y") simp_all
  ultimately show "\<exists>y. find_run t r d' = Some y \<and> rank (rn_state y) = 6" using y(1) by auto
qed

lemma owned_le:
  assumes "owned d" and le: "run_le d d'" and "agents_of d \<subseteq> agents_of d'"
    and "run_agents d' \<subseteq> run_agents d \<union> agents_of d'" and "probe_runs d' \<subseteq> probe_runs d \<union> known d'"
    and "job_runs d' \<subseteq> job_runs d \<union> known d'" and "evidence_runs d' \<subseteq> evidence_runs d \<union> known d'"
    and "outbox_runs d' \<subseteq> outbox_runs d \<union> known d'" and "report_runs d' \<subseteq> report_runs d \<union> ended d'"
  shows "owned d'"
  using assms known_le [OF le] ended_le [OF le] unfolding owned_def by blast

lemma run_agents_update:
  assumes "\<And>x. rn_tenant_id (f x) = rn_tenant_id x" and "\<And>x. rn_agent_id (f x) = rn_agent_id x"
  shows "run_agents (update_run t r f d) = run_agents d"
proof -
  let ?g = "\<lambda>x. (rn_tenant_id x, rn_agent_id x)"
  have "map ?g (runs (update_run t r f d)) = map ?g (runs d)"
    using assms by (simp add: update_run_def sql_update_key)
  then show ?thesis unfolding run_agents_def by (metis set_map)
qed

lemma owned_same: "owned d \<Longrightarrow> same_but_delivery d d' \<Longrightarrow> owned d'"
proof (rule owned_le)
  assume "same_but_delivery d d'"
  then have s: "map outbox_key (event_outbox d') = map outbox_key (event_outbox d)" "runs d' = runs d"
      "probes d' = probes d" "agents d' = agents d" "reports d' = reports d" "delegated_jobs d' = delegated_jobs d"
      "evidences d' = evidences d"
    by (simp_all add: same_but_delivery_def)
  have "(\<lambda>x. (ob_tenant_id x, ob_run_id x)) ` set xs = (\<lambda>(i, t, r, p). (t, r)) ` set (map outbox_key xs)" for xs
    by (force simp: outbox_key_def)
  then have "outbox_runs d' = outbox_runs d" using s(1) unfolding outbox_runs_def by presburger
  then show "outbox_runs d' \<subseteq> outbox_runs d \<union> known d'" by blast
  show "run_le d d'" using s(2) by (rule run_le_cong)
qed (auto simp: same_but_delivery_def run_sets agents_of_def find_agent_def)

text \<open>Both at once: the probes, and who owns what.\<close>

definition records_ok :: "db \<Rightarrow> bool" where
  "records_ok d \<longleftrightarrow> probes_ok d \<and> owned d"

lemma probes_ok_insert_run:
  assumes wf: "wf_db d" and ok: "probes_ok d" "owned d" and x: "fresh_run x" and ins: "Store.insert_run x d = Inr d'"
  shows "probes_ok d'"
proof -
  have d': "runs d' = runs d @ [x]" "probes d' = probes d" using ins by (simp_all add: insert_run_Inr)
  have st: "in_state t r s d' \<longleftrightarrow> in_state t r s d \<or> (find_run t r d = None \<and> t = rn_tenant_id x \<and> r = rn_run_id x \<and> s = RUNNING)" for t r s
    using x by (auto simp: in_state_def find_run_def d' find_append fresh_run_def split: option.splits)
  show ?thesis unfolding probes_ok_def
  proof (intro conjI allI ballI impI)
    show "distinct (map probe_key (probes d'))" using ok d' by (simp add: probes_ok_def)
    fix p assume "p \<in> set (probes d')"
    then have p: "p \<in> set (probes d)" using d' by simp
    show "pb_kind p \<in> insert ''restart'' (set PROBE_KINDS)" using ok p by (simp add: probes_ok_def)
    have "find_run (pb_tenant_id p) (pb_run_id p) d \<noteq> None"
      using ok(2) p by (auto simp: owned_def probe_runs_def known_def)
    then show "\<not> in_state (pb_tenant_id p) (pb_run_id p) RUNNING d'" using ok(1) p unfolding st probes_ok_def by auto
  next
    fix t r assume "in_state t r VERIFIED d'"
    then show "all_pass t r d'" using ok d' unfolding st probes_ok_def by (auto simp: all_pass_def probe_at_def)
  qed
qed

lemma probes_ok_insert_probe:
  assumes ok: "probes_ok d" and new: "new_probe p d" and ins: "Store.insert_probe p d = Inr d'"
  shows "probes_ok d'"
proof -
  have d': "d' = d\<lparr>probes := probes d @ [p]\<rparr>" using ins by (simp add: insert_probe_Inr)
  have "probe_key p \<notin> set (map probe_key (probes d))"
    using new by (auto simp: new_probe_def no_probe_def probe_at_def probe_key_def)
  moreover have "\<not> in_state (pb_tenant_id p) (pb_run_id p) RUNNING d"
    using new by (auto simp: new_probe_def dest: in_state_fun)
  moreover have "in_state t r s (d\<lparr>probes := xs\<rparr>) = in_state t r s d" for t r s xs
    by (simp add: in_state_def find_run_def)
  moreover have "pb_kind p \<in> insert ''restart'' (set PROBE_KINDS)" using new by (auto simp: new_probe_def)
  ultimately show ?thesis using ok unfolding d' probes_ok_def all_pass_def probe_at_def by auto
qed

lemma records_ok_cong:
  assumes "runs d' = runs d" and "probes d' = probes d" and "evidences d' = evidences d" and "agents d' = agents d"
    and "delegated_jobs d' = delegated_jobs d" and "reports d' = reports d" and "event_outbox d' = event_outbox d"
  shows "records_ok d' = records_ok d"
proof -
  have "owned d' = owned d"
    using assms by (simp add: owned_def run_sets known_def ended_def agents_of_def find_agent_def find_run_def)
  then show ?thesis unfolding records_ok_def using probes_ok_cong [OF assms(1,2)] by blast
qed

lemma records_ok_other [simp]:
  "records_ok (d\<lparr>shutdown_works := ws\<rparr>) = records_ok d" "records_ok (d\<lparr>drills := drs\<rparr>) = records_ok d"
  "records_ok (update_drills Q f d) = records_ok d"
  by (rule records_ok_cong; simp)+

lemma records_ok_moved:
  assumes ok: "records_ok d" and wf: "wf_db d" and le: "run_le d (update_run t r f d)"
    and f: "\<And>x. rn_tenant_id (f x) = rn_tenant_id x" "\<And>x. rn_run_id (f x) = rn_run_id x"
      "\<And>x. rn_agent_id (f x) = rn_agent_id x" "\<And>x. rn_state (f x) = s'"
    and s': "s' \<noteq> RUNNING" "s' = VERIFIED \<Longrightarrow> all_pass t r d"
  shows "records_ok (update_run t r f d)"
proof -
  have other: "probes (update_run t r f d) = probes d" "agents (update_run t r f d) = agents d"
      "evidences (update_run t r f d) = evidences d" "event_outbox (update_run t r f d) = event_outbox d"
      "reports (update_run t r f d) = reports d" "delegated_jobs (update_run t r f d) = delegated_jobs d"
    by (simp_all add: update_run_def)
  have "probes_ok (update_run t r f d)"
  proof (rule probes_ok_move [OF _ other(1)])
    show "in_state t' r' s (update_run t r f d) =
        (if t' = t \<and> r' = r then s = s' \<and> (\<exists>x. find_run t r d = Some x) else in_state t' r' s d)" for t' r' s
      by (rule in_state_update_run [OF f(1,2,4)])
  qed (use ok s' in \<open>simp_all add: records_ok_def\<close>)
  moreover have "owned (update_run t r f d)"
  proof (rule owned_le [OF _ le])
    show "owned d" using ok by (simp add: records_ok_def)
    show "run_agents (update_run t r f d) \<subseteq> run_agents d \<union> agents_of (update_run t r f d)"
      using run_agents_update [of f t r d, OF f(1,3)] by simp
  qed (auto simp: run_sets agents_of_def find_agent_def other)
  ultimately show ?thesis by (simp add: records_ok_def)
qed

interpretation records: service_invariant records_ok n for n
proof unfold_locales
  fix d x d'
  assume a: "wf_db d" "records_ok d" "fresh_run x" "find_agent (rn_tenant_id x) (rn_agent_id x) d \<noteq> None"
    "Store.insert_run x d = Inr d'"
  have le: "run_le d d'" using le_insert_run a by blast
  have d': "d' = d\<lparr>runs := runs d @ [x]\<rparr>" using a(5) by (simp add: insert_run_Inr)
  have "owned d'"
    by (rule owned_le [OF _ le]) (use a(2,4) in \<open>auto simp: d' run_sets agents_of_def find_agent_def records_ok_def\<close>)
  then show "records_ok d'" using probes_ok_insert_run a by (auto simp: records_ok_def)
next
  fix d t r x a b k
  assume "wf_db d" "records_ok d" "find_run t r d = Some x" "rn_shutdown_requested_at x = None"
  then show "records_ok (Orchestrator.request_run t r a b k d)"
    using le_request_run [of d t r x a b k] unfolding request_run_update
    by (intro records_ok_moved [where s' = REQUESTED]) (auto simp: mark_requested_def)
next
  fix d t r s s' and stop :: "instant option"
  assume "wf_db d" "records_ok d" "in_state t r s d" "edge s s'" "s \<noteq> RUNNING" "terminal s' \<longleftrightarrow> stop \<noteq> None"
    "s' = VERIFIED \<Longrightarrow> all_pass t r d"
  then show "records_ok (Orchestrator.set_state t r s' stop d)"
    using le_set_state [of d t r s s' stop] unfolding set_state_update
    by (intro records_ok_moved [where s' = s']) (auto elim: edgeE)
next
  fix d p d' assume a: "wf_db d" "records_ok d" "new_probe p d" "Store.insert_probe p d = Inr d'"
  have d': "d' = d\<lparr>probes := probes d @ [p]\<rparr>" using a(4) by (simp add: insert_probe_Inr)
  have "(pb_tenant_id p, pb_run_id p) \<in> known d" using a(3) by (auto simp: new_probe_def in_state_def known_def)
  then have "owned d'"
    using a(2) unfolding d' records_ok_def
    by (intro owned_le [of d "d\<lparr>probes := probes d @ [p]\<rparr>"] run_le_cong)
      (auto simp: run_sets agents_of_def find_agent_def known_def find_run_def)
  then show "records_ok d'" using probes_ok_insert_probe a by (auto simp: records_ok_def)
next
  fix d j d' assume a: "wf_db d" "records_ok d" "in_state (jb_tenant_id j) (jb_run_id j) PROCESS_STOP_SENT d"
    "Orchestrator.upsert_job j d = Inr d'"
  obtain js where js: "d' = d\<lparr>delegated_jobs := js\<rparr>" using upsert_job_Inr [OF a(4)] by blast
  have "(jb_tenant_id j, jb_run_id j) \<in> known d" using a(3) by (auto simp: in_state_def known_def)
  moreover have "job_runs d' \<subseteq> insert (jb_tenant_id j, jb_run_id j) (job_runs d)"
    using a(4) by (auto simp: upsert_job_def job_runs_def set_sql_update image_image split: if_splits)
  ultimately have "job_runs d' \<subseteq> job_runs d \<union> known d'"
    unfolding js by (auto simp: known_def find_run_def)
  then have "owned d'" using a(2) unfolding records_ok_def
    by (intro owned_le [of d d'] run_le_cong) (auto simp: js run_sets agents_of_def find_agent_def)
  then show "records_ok d'" using a(2) probes_ok_cong [of d' d] unfolding records_ok_def js by simp
next
  fix d rec run assume a: "wf_db d" "records_ok d" "appendable rec run d"
  let ?d = "append_rows rec run d"
  have k: "(ev_tenant_id rec, ev_run_id rec) \<in> known ?d"
    using a(3) unfolding appendable_def by (simp add: known_def framed_find_run_eq [of ?d d])
  then have "owned ?d" using a(2) unfolding records_ok_def
    by (intro owned_le [of d ?d] run_le_cong)
      (auto simp: run_sets agents_of_def find_agent_def outbox_event_def)
  then show "records_ok ?d" using a(2) probes_ok_cong [of ?d d] unfolding records_ok_def by simp
next
  fix d a d' assume a: "wf_db d" "records_ok d" "Store.insert_agent a d = Inr d'"
  have d': "d' = d\<lparr>agents := agents d @ [a]\<rparr>" using a(3) by (simp add: insert_agent_Inr)
  have "agents_of d \<subseteq> agents_of d'" by (auto simp: agents_of_def find_agent_def d' find_append split: option.splits)
  then have "owned d'" using a(2) unfolding records_ok_def
    by (intro owned_le [of d d'] run_le_cong) (auto simp: d' run_sets)
  then show "records_ok d'" using a(2) probes_ok_cong [of d' d] unfolding records_ok_def d' by simp
next
  fix d p y d'
  assume a: "wf_db d" "records_ok d" "find_run (rp_tenant_id p) (rp_run_id p) d = Some y" "terminal (rn_state y)"
    "Store.insert_report p d = Inr d'"
  have d': "d' = d\<lparr>reports := reports d @ [p]\<rparr>" using a(5) by (simp add: insert_report_Inr)
  have "(rp_tenant_id p, rp_run_id p) \<in> ended d'" using a(3,4) by (auto simp: ended_def d' find_run_def)
  then have "owned d'" using a(2) unfolding records_ok_def
    by (intro owned_le [of d d'] run_le_cong) (auto simp: d' run_sets agents_of_def find_agent_def)
  then show "records_ok d'" using a(2) probes_ok_cong [of d' d] unfolding records_ok_def d' by simp
next
  have same: "records_ok d \<Longrightarrow> same_but_delivery d d' \<Longrightarrow> records_ok d'" for d d'
    using owned_same probes_ok_cong [of d' d] by (auto simp: records_ok_def same_but_delivery_def)
  show "\<And>d t e x. wf_db d \<Longrightarrow> records_ok d \<Longrightarrow> find_event t e d = Some x \<Longrightarrow> ob_status x = O_DEAD_LETTER \<Longrightarrow>
      records_ok (requeue_rows t e (ob_attempts x) d)"
    by (rule same [OF _ same_but_delivery_turn(4)])
  show "\<And>d x b message now d'. wf_db d \<Longrightarrow> records_ok d \<Longrightarrow> selected (x, b) d \<Longrightarrow> n \<le> ob_attempts x + 1 - b \<Longrightarrow>
      dead_letter_rows (ob_event_id x) (ob_attempts x + 1) message now d = Inr d' \<Longrightarrow> records_ok d'" for n
    by (rule same [OF _ same_but_delivery_turn(1)])
  show "\<And>d x b message now d'. wf_db d \<Longrightarrow> records_ok d \<Longrightarrow> selected (x, b) d \<Longrightarrow> ob_attempts x + 1 - b < n \<Longrightarrow>
      retry_rows (ob_event_id x) (ob_attempts x + 1) message now d = Inr d' \<Longrightarrow> records_ok d'" for n
    by (rule same [OF _ same_but_delivery_turn(2)])
  show "\<And>d x b now. wf_db d \<Longrightarrow> records_ok d \<Longrightarrow> selected (x, b) d \<Longrightarrow> records_ok (delivered_rows (ob_event_id x) now d)"
    by (rule same [OF _ same_but_delivery_turn(3)])
qed (auto simp: insert_drill_Inr)

section \<open>Separation of duties for drills\<close>

text \<open>Who approved or rejected a drill is not who asked for it, and a drill is not both.\<close>

definition drill_ok :: "string drill_row \<Rightarrow> bool" where
  "drill_ok z \<longleftrightarrow>
     (case dr_status z of
        D_PENDING_APPROVAL \<Rightarrow> dr_approved_by z = None \<and> dr_rejected_by z = None
      | D_REJECTED \<Rightarrow> dr_approved_by z = None \<and> dr_rejected_by z \<notin> {None, Some (dr_requested_by z)}
      | _ \<Rightarrow> dr_approved_by z \<notin> {None, Some (dr_requested_by z)} \<and> dr_rejected_by z = None)"

definition drills_ok :: "db \<Rightarrow> bool" where
  "drills_ok d \<longleftrightarrow> distinct (map dr_drill_id (drills d)) \<and> (\<forall>z \<in> set (drills d). drill_ok z)"

lemma drills_ok_cong: "drills d' = drills d \<Longrightarrow> drills_ok d' = drills_ok d"
  by (simp add: drills_ok_def)

lemma drills_ok_other [simp]:
  "drills_ok (d\<lparr>shutdown_works := ws\<rparr>) = drills_ok d" "drills_ok (d\<lparr>probes := ps\<rparr>) = drills_ok d"
  "drills_ok (d\<lparr>delegated_jobs := js\<rparr>) = drills_ok d" "drills_ok (d\<lparr>agents := ags\<rparr>) = drills_ok d"
  "drills_ok (d\<lparr>reports := rps\<rparr>) = drills_ok d" "drills_ok (d\<lparr>runs := rs\<rparr>) = drills_ok d"
  "drills_ok (append_rows rec run d) = drills_ok d"
  "drills_ok (Orchestrator.request_run t r a b k d) = drills_ok d"
  "drills_ok (Orchestrator.set_state t r s' stop d) = drills_ok d"
  by (rule drills_ok_cong; simp)+

lemma drills_ok_update:
  assumes ok: "drills_ok d" and f: "\<And>z. dr_drill_id (f z) = dr_drill_id z"
    and Q: "\<And>z. z \<in> set (drills d) \<Longrightarrow> Q z \<Longrightarrow> drill_ok z \<Longrightarrow> drill_ok (f z)"
  shows "drills_ok (update_drills Q f d)"
  using assms by (auto simp: drills_ok_def sql_update_key set_sql_update)

lemma drill_at_unique:
  assumes "drills_ok d" and z: "drill_at t i s z d" and z': "z' \<in> set (drills d)" "drill_key t i z'"
  shows "z' = z"
proof -
  have "z \<in> set (drills d)" "dr_drill_id z = i" using z by (auto simp: drill_at_def find_Some_iff drill_key_def)
  moreover have "inj_on dr_drill_id (set (drills d))" using assms(1) by (simp add: drills_ok_def distinct_map)
  ultimately show ?thesis using z' by (auto simp: drill_key_def dest: inj_onD)
qed

lemma drills_ok_same: "same_but_delivery d d' \<Longrightarrow> drills_ok d \<Longrightarrow> drills_ok d'"
  by (simp add: same_but_delivery_def drills_ok_def)

interpretation duties: service_invariant drills_ok n for n
proof unfold_locales
  fix d t i z actor now
  assume a: "drills_ok d" "drill_at t i D_PENDING_APPROVAL z d" "dr_requested_by z \<noteq> actor"
  show "drills_ok (update_drills (drill_key t i) (mark_approved actor now) d)"
    using a drill_at_unique [OF a(1,2)]
    by (intro drills_ok_update) (auto simp: mark_approved_def drill_ok_def drill_at_def)
next
  fix d t i z actor now reason
  assume a: "drills_ok d" "drill_at t i D_PENDING_APPROVAL z d" "dr_requested_by z \<noteq> actor"
  show "drills_ok (update_drills (drill_key t i) (mark_rejected actor now reason) d)"
    using a drill_at_unique [OF a(1,2)]
    by (intro drills_ok_update) (auto simp: mark_rejected_def drill_ok_def drill_at_def)
next
  fix d t i z
  assume a: "drills_ok d" "drill_at t i D_APPROVED z d"
  show "drills_ok (update_drills (drill_key t i) mark_failed d)"
    using a drill_at_unique [OF a] by (intro drills_ok_update) (auto simp: mark_failed_def drill_ok_def drill_at_def)
  show "drills_ok (update_drills (drill_key t i) (mark_started r) d)" for r
    using a drill_at_unique [OF a] by (intro drills_ok_update) (auto simp: mark_started_def drill_ok_def drill_at_def)
next
  fix d t i r
  assume "drills_ok d"
  then show "drills_ok (update_drills (\<lambda>z. drill_key t i z \<and> dr_status z = D_APPROVED) (mark_started r) d)"
    by (intro drills_ok_update) (auto simp: mark_started_def drill_ok_def)
next
  fix d z d' assume "drills_ok d" "new_drill z" "Store.insert_drill z d = Inr d'"
  then show "drills_ok d'" by (auto simp: insert_drill_Inr drills_ok_def new_drill_def drill_ok_def)
qed (auto simp: insert_Inr intro: drills_ok_same same_but_delivery_turn dest!: upsert_job_Inr)

end
