(* ===== verification/Delivery.thy ===== *)
theory Delivery
  imports Guarantees
begin

text \<open>
  The delivery state of the outbox: what status, attempts, retry baseline and delivery row of
  an event say about each other, kept by every operation of the service; and what one turn of
  the publisher does with an event.
\<close>

section \<open>Finding rows after an upsert\<close>

lemma find_upsert:
  assumes "key new = k" and "\<And>x. key (f x) = key x"
  shows "find (\<lambda>x. key x = k') (sql_upsert (\<lambda>x. key x = k) f new xs) =
     (if k' = k then Some (case find (\<lambda>x. key x = k) xs of None \<Rightarrow> new | Some y \<Rightarrow> f y)
      else find (\<lambda>x. key x = k') xs)"
proof (cases "list_ex (\<lambda>x. key x = k) xs")
  case True
  then have "find (\<lambda>x. key x = k) xs \<noteq> None" by (auto simp: find_None_iff list_ex_iff)
  moreover have "find (\<lambda>x. key x = k') (sql_update (\<lambda>x. key x = k) f xs) =
      map_option (\<lambda>x. if key x = k then f x else x) (find (\<lambda>x. key x = k') xs)"
    by (rule find_sql_update) (simp add: assms)
  moreover have "find (\<lambda>x. key x = k') xs = Some y \<Longrightarrow> key y = k'" for y by (auto simp: find_Some_iff)
  ultimately show ?thesis using True
    by (cases "find (\<lambda>x. key x = k') xs") (auto simp: sql_upsert_def)
next
  case False
  then have "find (\<lambda>x. key x = k) xs = None" by (auto simp: find_None_iff list_ex_iff)
  then show ?thesis using False assms
    by (auto simp: sql_upsert_def find_append split: option.splits)
qed

lemma find_filter_same: "find (\<lambda>x. key x = k) (filter (\<lambda>x. key x \<noteq> k) xs) = None"
  by (auto simp: find_None_iff)

lemma find_filter_neq: "k' \<noteq> k \<Longrightarrow> find (\<lambda>x. key x = k') (filter (\<lambda>x. key x \<noteq> k) xs) = find (\<lambda>x. key x = k') xs"
  by (rule find_filter_other) auto

section \<open>The delivery state of an event\<close>

definition event_ok :: "int \<Rightarrow> db \<Rightarrow> outbox_row \<Rightarrow> bool" where
  "event_ok n d x \<longleftrightarrow>
     (let b = baseline_of (ob_event_id x) d; dl = find_delivery (ob_event_id x) d in
      0 \<le> b \<and> b \<le> ob_attempts x \<and>
      (case ob_status x of
         O_PENDING \<Rightarrow> ob_attempts x - b < n \<and> ob_delivered_at x = None \<and>
           (\<forall>y. dl = Some y \<longrightarrow> dl_next_attempt_at y \<noteq> None \<and> dl_dead_lettered_at y = None)
       | O_DEAD_LETTER \<Rightarrow> ob_attempts x - b = n \<and> ob_delivered_at x = None \<and>
           (\<exists>y. dl = Some y \<and> dl_next_attempt_at y = None \<and> dl_dead_lettered_at y \<noteq> None)
       | O_DELIVERED \<Rightarrow> 0 < ob_attempts x \<and> dl = None \<and> ob_last_error x = None \<and> ob_delivered_at x \<noteq> None))"

definition delivery_ok :: "int \<Rightarrow> db \<Rightarrow> bool" where
  "delivery_ok n d \<longleftrightarrow>
     (\<forall>x \<in> set (event_outbox d). event_ok n d x) \<and>
     (\<forall>y \<in> set (event_delivery_state d). has_event (dl_event_id y) d) \<and>
     (\<forall>c \<in> set (event_retry_cycle d). has_event (rc_event_id c) d)"

lemma delivery_ok_cong:
  "event_outbox d' = event_outbox d \<Longrightarrow> event_delivery_state d' = event_delivery_state d \<Longrightarrow>
     event_retry_cycle d' = event_retry_cycle d \<Longrightarrow> delivery_ok n d' = delivery_ok n d"
  by (simp add: delivery_ok_def event_ok_def baseline_of_def find_delivery_def has_event_def)

lemma delivery_ok_other [simp]:
  "delivery_ok n (d\<lparr>shutdown_works := ws\<rparr>) = delivery_ok n d" "delivery_ok n (d\<lparr>probes := ps\<rparr>) = delivery_ok n d"
  "delivery_ok n (d\<lparr>delegated_jobs := js\<rparr>) = delivery_ok n d" "delivery_ok n (d\<lparr>agents := ags\<rparr>) = delivery_ok n d"
  "delivery_ok n (d\<lparr>reports := rps\<rparr>) = delivery_ok n d" "delivery_ok n (d\<lparr>drills := drs\<rparr>) = delivery_ok n d"
  "delivery_ok n (d\<lparr>runs := rs\<rparr>) = delivery_ok n d" "delivery_ok n (update_drills Q f d) = delivery_ok n d"
  "delivery_ok n (Orchestrator.request_run t r a b k d) = delivery_ok n d"
  "delivery_ok n (Orchestrator.set_state t r s' stop d) = delivery_ok n d"
  by (rule delivery_ok_cong; simp)+

lemma update_outbox_other [simp]:
  "baseline_of e (update_outbox i f d) = baseline_of e d"
  "find_delivery e (update_outbox i f d) = find_delivery e d"
  "event_delivery_state (update_outbox i f d) = event_delivery_state d"
  "event_retry_cycle (update_outbox i f d) = event_retry_cycle d"
  by (simp_all add: update_outbox_def baseline_of_def find_delivery_def)

lemma event_outbox_update:
  "event_outbox (update_outbox i f d) = sql_update (\<lambda>y. ob_event_id y = i) f (event_outbox d)"
  by (simp add: update_outbox_def)

lemma baseline_of_cong: "event_retry_cycle d' = event_retry_cycle d \<Longrightarrow> baseline_of e d' = baseline_of e d"
  by (simp add: baseline_of_def)

text \<open>A turn changes the one row with this id, and the delivery rows of this id.\<close>

lemma delivery_ok_turn:
  assumes ok: "delivery_ok n d" and wf: "wf_db d" and x: "x \<in> set (event_outbox d)"
    and out: "event_outbox d' = sql_update (\<lambda>y. ob_event_id y = ob_event_id x) f (event_outbox d)"
    and f: "\<And>y. ob_event_id (f y) = ob_event_id y"
    and other: "\<And>e. e \<noteq> ob_event_id x \<Longrightarrow> baseline_of e d' = baseline_of e d \<and> find_delivery e d' = find_delivery e d"
    and new: "event_ok n d' (f x)"
    and dl: "dl_event_id ` set (event_delivery_state d') \<subseteq> insert (ob_event_id x) (dl_event_id ` set (event_delivery_state d))"
    and rc: "rc_event_id ` set (event_retry_cycle d') \<subseteq> insert (ob_event_id x) (rc_event_id ` set (event_retry_cycle d))"
  shows "delivery_ok n d'"
proof -
  have ids: "map ob_event_id (event_outbox d') = map ob_event_id (event_outbox d)"
    using f by (simp add: out sql_update_key)
  have has: "has_event e d' = has_event e d" for e
  proof -
    have in_ids: "has_event e d \<longleftrightarrow> e \<in> set (map ob_event_id (event_outbox d))" for d
      by (auto simp: has_event_def)
    show ?thesis unfolding in_ids ids ..
  qed
  have "event_ok n d' y" if "y \<in> set (event_outbox d')" for y
  proof -
    from that obtain z where z: "z \<in> set (event_outbox d)" "y = (if ob_event_id z = ob_event_id x then f z else z)"
      unfolding out by (rule in_sql_updateE) blast
    show ?thesis
    proof (cases "ob_event_id z = ob_event_id x")
      case True
      have "inj_on ob_event_id (set (event_outbox d))" using wf by (simp add: wf_db_def distinct_map)
      then have "z = x" using True z(1) x by (auto dest: inj_onD)
      then show ?thesis using z(2) new by simp
    next
      case False
      then have "y = z" using z(2) by simp
      moreover have "event_ok n d z" using ok z(1) by (simp add: delivery_ok_def)
      ultimately show ?thesis using other [OF False] by (simp add: event_ok_def)
    qed
  qed
  moreover have hx: "has_event (ob_event_id x) d" using x by (auto simp: has_event_def)
  have "has_event (dl_event_id y) d" if "y \<in> set (event_delivery_state d')" for y
  proof -
    have "dl_event_id y \<in> insert (ob_event_id x) (dl_event_id ` set (event_delivery_state d))"
      using dl that by (rule subsetD [OF _ imageI])
    then show ?thesis using hx ok by (auto simp: delivery_ok_def)
  qed
  moreover have "has_event (rc_event_id y) d" if "y \<in> set (event_retry_cycle d')" for y
  proof -
    have "rc_event_id y \<in> insert (ob_event_id x) (rc_event_id ` set (event_retry_cycle d))"
      using rc that by (rule subsetD [OF _ imageI])
    then show ?thesis using hx ok by (auto simp: delivery_ok_def)
  qed
  ultimately show ?thesis unfolding delivery_ok_def has by blast
qed

lemma find_delivery_id: "find (\<lambda>x. dl_event_id x = e) ys = Some y \<Longrightarrow> dl_event_id y = e"
  by (auto simp: find_Some_iff)

lemma find_delivery_upsert:
  assumes "upsert_delivery r d = Inr d'"
  shows "find_delivery e d' = (if e = dl_event_id r
     then Some \<lparr>dl_event_id = dl_event_id r, dl_next_attempt_at = dl_next_attempt_at r, dl_dead_lettered_at = dl_dead_lettered_at r\<rparr>
     else find_delivery e d)"
    and "dl_event_id ` set (event_delivery_state d') \<subseteq> insert (dl_event_id r) (dl_event_id ` set (event_delivery_state d))"
    and "event_outbox d' = event_outbox d" and "event_retry_cycle d' = event_retry_cycle d"
proof -
  let ?f = "\<lambda>x. x\<lparr>dl_next_attempt_at := dl_next_attempt_at r, dl_dead_lettered_at := dl_dead_lettered_at r\<rparr>"
  have d': "d' = d\<lparr>event_delivery_state := sql_upsert (\<lambda>x. dl_event_id x = dl_event_id r) ?f r (event_delivery_state d)\<rparr>"
    using assms by (simp add: upsert_delivery_def split: if_splits)
  have "find_delivery e d' = (if e = dl_event_id r
      then Some (case find (\<lambda>x. dl_event_id x = dl_event_id r) (event_delivery_state d) of None \<Rightarrow> r | Some y \<Rightarrow> ?f y)
      else find_delivery e d)"
    unfolding find_delivery_def d' by (simp add: find_upsert [where key = dl_event_id])
  moreover have "(case find (\<lambda>x. dl_event_id x = dl_event_id r) (event_delivery_state d) of None \<Rightarrow> r | Some y \<Rightarrow> ?f y) =
      \<lparr>dl_event_id = dl_event_id r, dl_next_attempt_at = dl_next_attempt_at r, dl_dead_lettered_at = dl_dead_lettered_at r\<rparr>"
  proof (cases "find (\<lambda>x. dl_event_id x = dl_event_id r) (event_delivery_state d)")
    case (Some y)
    then show ?thesis using find_delivery_id [OF Some] by (cases y) simp
  qed simp
  ultimately show "find_delivery e d' = (if e = dl_event_id r
     then Some \<lparr>dl_event_id = dl_event_id r, dl_next_attempt_at = dl_next_attempt_at r, dl_dead_lettered_at = dl_dead_lettered_at r\<rparr>
     else find_delivery e d)"
    by (rule back_subst [of "\<lambda>z. find_delivery e d' = (if e = dl_event_id r then Some z else find_delivery e d)"])
  show "dl_event_id ` set (event_delivery_state d') \<subseteq> insert (dl_event_id r) (dl_event_id ` set (event_delivery_state d))"
    unfolding d' by (auto simp: sql_upsert_def set_sql_update)
  show "event_outbox d' = event_outbox d" "event_retry_cycle d' = event_retry_cycle d" unfolding d' by simp_all
qed

lemma delivery_ok_dead:
  assumes ok: "delivery_ok n d" and wf: "wf_db d" and sel: "selected (x, b) d" and n: "n \<le> ob_attempts x + 1 - b"
    and run: "dead_letter_rows (ob_event_id x) (ob_attempts x + 1) msg now d = Inr d'"
  shows "delivery_ok n d'"
proof -
  let ?f = "\<lambda>y. y\<lparr>ob_status := O_DEAD_LETTER, ob_attempts := ob_attempts x + 1, ob_last_error := Some msg\<rparr>"
  let ?d = "update_outbox (ob_event_id x) ?f d"
  note u = find_delivery_upsert [OF run [unfolded dead_letter_rows_def], simplified]
  have x: "x \<in> set (event_outbox d)" "ob_status x = O_PENDING" "b = baseline_of (ob_event_id x) d"
    using sel by (simp_all add: selected_def)
  have e: "event_ok n d x" using ok x by (simp add: delivery_ok_def)
  have base: "baseline_of e d' = baseline_of e d" for e
    by (rule baseline_of_cong) (simp add: u(4))
  have find: "find_delivery e d' = find_delivery e d" if "e \<noteq> ob_event_id x" for e
    using u(1) that by simp
  have "event_ok n d' (?f x)"
    using e x n u(1) by (simp add: event_ok_def base Let_def)
  moreover have "event_outbox d' = sql_update (\<lambda>y. ob_event_id y = ob_event_id x) ?f (event_outbox d)"
    by (simp add: u(3) event_outbox_update)
  ultimately show ?thesis
    by (intro delivery_ok_turn [OF ok wf x(1), of d' ?f]) (use u(2,4) in \<open>simp_all add: base find subset_insertI\<close>)
qed

lemma delivery_ok_retry:
  assumes ok: "delivery_ok n d" and wf: "wf_db d" and sel: "selected (x, b) d" and n: "ob_attempts x + 1 - b < n"
    and run: "retry_rows (ob_event_id x) (ob_attempts x + 1) msg t d = Inr d'"
  shows "delivery_ok n d'"
proof -
  let ?f = "\<lambda>y. y\<lparr>ob_attempts := ob_attempts x + 1, ob_last_error := Some msg\<rparr>"
  note u = find_delivery_upsert [OF run [unfolded retry_rows_def], simplified]
  have x: "x \<in> set (event_outbox d)" "ob_status x = O_PENDING" "b = baseline_of (ob_event_id x) d"
    using sel by (simp_all add: selected_def)
  have e: "event_ok n d x" using ok x by (simp add: delivery_ok_def)
  have base: "baseline_of e d' = baseline_of e d" for e
    by (rule baseline_of_cong) (simp add: u(4))
  have find: "find_delivery e d' = find_delivery e d" if "e \<noteq> ob_event_id x" for e
    using u(1) that by simp
  have "event_ok n d' (?f x)"
    using e x n u(1) by (simp add: event_ok_def base Let_def)
  moreover have "event_outbox d' = sql_update (\<lambda>y. ob_event_id y = ob_event_id x) ?f (event_outbox d)"
    by (simp add: u(3) event_outbox_update)
  ultimately show ?thesis
    by (intro delivery_ok_turn [OF ok wf x(1), of d' ?f]) (use u(2,4) in \<open>simp_all add: base find subset_insertI\<close>)
qed

lemma delivery_ok_delivered:
  assumes ok: "delivery_ok n d" and wf: "wf_db d" and sel: "selected (x, b) d"
  shows "delivery_ok n (delivered_rows (ob_event_id x) now d)"
proof -
  let ?f = "\<lambda>x. x\<lparr>ob_status := O_DELIVERED, ob_attempts := ob_attempts x + 1, ob_last_error := None,
               ob_delivered_at := Some now\<rparr>"
  let ?d = "delivered_rows (ob_event_id x) now d"
  have x: "x \<in> set (event_outbox d)" using sel by (simp add: selected_def)
  have e: "event_ok n d x" using ok x by (simp add: delivery_ok_def)
  have "baseline_of (ob_event_id x) ?d = 0" "find_delivery (ob_event_id x) ?d = None"
    by (simp_all add: baseline_of_def find_delivery_def delivered_rows_def find_filter_same)
  then have "event_ok n ?d (?f x)" using e by (simp add: event_ok_def Let_def)
  then show ?thesis
    by (intro delivery_ok_turn [OF ok wf x, of ?d ?f])
      (auto simp: delivered_rows_def update_outbox_def baseline_of_def find_delivery_def find_filter_neq)
qed

lemma delivery_ok_requeue:
  assumes ok: "delivery_ok n d" and wf: "wf_db d" and find: "find_event t e d = Some x" and dead: "ob_status x = O_DEAD_LETTER"
    and n: "0 < n"
  shows "delivery_ok n (requeue_rows t e (ob_attempts x) d)"
proof -
  let ?f = "\<lambda>x. x\<lparr>ob_status := O_PENDING, ob_last_error := None, ob_delivered_at := None\<rparr>"
  let ?d = "requeue_rows t e (ob_attempts x) d"
  have x: "x \<in> set (event_outbox d)" "ob_event_id x = e" "ob_tenant_id x = t"
    using find by (auto simp: find_event_def find_Some_iff)
  have inj: "inj_on ob_event_id (set (event_outbox d))" using wf by (simp add: wf_db_def distinct_map)
  have out: "event_outbox ?d = sql_update (\<lambda>y. ob_event_id y = ob_event_id x) ?f (event_outbox d)"
    using x inj by (auto simp: requeue_rows_def sql_update_def dest: inj_onD)
  have ex: "event_ok n d x" using ok x by (simp add: delivery_ok_def)
  have base: "baseline_of e' ?d = (if e' = e then ob_attempts x else baseline_of e' d)" for e'
    unfolding baseline_of_def requeue_rows_def
    by (simp add: find_upsert [where key = rc_event_id] split: option.splits)
  have fd: "find_delivery e' ?d = (if e' = e then None else find_delivery e' d)" for e'
    by (simp add: find_delivery_def requeue_rows_def find_filter_same find_filter_neq)
  have dl: "dl_event_id ` set (event_delivery_state ?d) \<subseteq> insert e (dl_event_id ` set (event_delivery_state d))"
    and rc: "rc_event_id ` set (event_retry_cycle ?d) \<subseteq> insert e (rc_event_id ` set (event_retry_cycle d))"
    by (auto simp: requeue_rows_def sql_upsert_def set_sql_update)
  have "event_ok n ?d (?f x)" using ex n unfolding event_ok_def by (simp add: base fd Let_def x(2))
  then show ?thesis using dl rc
    by (intro delivery_ok_turn [OF ok wf x(1) out]) (simp_all add: base fd x(2))
qed

lemma delivery_ok_append:
  assumes ok: "delivery_ok n d" and a: "appendable rec run d" and n: "0 < n"
  shows "delivery_ok n (append_rows rec run d)"
proof -
  let ?d = "append_rows rec run d" and ?e = "ev_evidence_id rec"
  have fresh: "\<not> has_event ?e d" by (rule appendable_fresh [OF a])
  have none: "find (\<lambda>x. dl_event_id x = ?e) (event_delivery_state d) = None"
      "find (\<lambda>x. rc_event_id x = ?e) (event_retry_cycle d) = None"
    using ok fresh by (auto simp: delivery_ok_def find_None_iff)
  have "event_ok n ?d (outbox_event rec run)"
    using none n by (simp add: event_ok_def outbox_event_def baseline_of_def find_delivery_def)
  moreover have "event_ok n ?d y = event_ok n d y" for y
    by (simp add: event_ok_def baseline_of_def find_delivery_def)
  ultimately show ?thesis using ok by (auto simp: delivery_ok_def has_event_def)
qed

interpretation delivery: service_invariant "delivery_ok (1 + int m)" "1 + int m" for m
  by unfold_locales
    (auto simp: insert_Inr intro: delivery_ok_append delivery_ok_requeue delivery_ok_dead delivery_ok_retry
      delivery_ok_delivered dest!: upsert_job_Inr)

end
