(* ===== verification/Example.thy ===== *)
theory Example
  imports Delivery
begin

text \<open>
  A concrete history, for the witnesses: an agent is registered, a run of it created, and its
  shutdown requested. The clock advances a second per reading, the UUIDs are the numerals.
\<close>

definition example_plane :: control_plane where
  "example_plane =
     \<lparr>cp_signing_key = ''key'', cp_adapter = SyntheticAdapter (map (\<lambda>k. (k, PASS)) PROBE_KINDS),
      cp_deadline_seconds = 60, cp_recovery_lease_seconds = 30, cp_worker_id = ''worker''\<rparr>"

definition example_publisher :: publisher where
  "example_publisher =
     \<lparr>pu_sender = siem_send ''https://siem'' ''token'', pu_max_attempts = 2, pu_base_backoff = Finite 1, pu_max_backoff = Finite 300\<rparr>"

definition example_agent :: "json dict" where
  "example_agent =
     [(''tenant_id'', JStr ''t''), (''name'', JStr ''n''), (''image_digest'', JStr (''sha256:'' @ replicate 64 CHR ''a'')),
      (''namespace'', JStr ''asv-drill''), (''scope_owner'', JStr ''o''), (''declared_scope'', JObj [(''synthetic_only'', JBool True)])]"

definition example_run :: "json dict" where
  "example_run = [(''tenant_id'', JStr ''t''), (''agent_id'', JStr ''0''), (''identity_ref'', JStr ''i'')]"

text \<open>The world after some readings of the clock and some UUIDs, with this database.\<close>

definition moment :: "nat \<Rightarrow> nat \<Rightarrow> thread list \<Rightarrow> db \<Rightarrow> world" where
  "moment ticks uuids ts d =
     \<lparr>w_db = d, w_clock = (\<lambda>n. 1000000 * int n), w_ticks = ticks, w_uuid_src = nat_dec, w_uuids = uuids,
      w_ext = \<lparr>ex_log = [], ex_reply = (\<lambda>log rq. Inr \<lparr>hr_status = 204, hr_body = JNull\<rparr>)\<rparr>, w_threads = ts\<rparr>"

lemma moment_simps [simp]:
  "w_db (moment n k ts d) = d" "w_clock (moment n k ts d) i = 1000000 * int i" "w_ticks (moment n k ts d) = n"
  "w_uuid_src (moment n k ts d) = nat_dec" "w_uuids (moment n k ts d) = k" "w_threads (moment n k ts d) = ts"
  "(moment n k ts d)\<lparr>w_db := d'\<rparr> = moment n k ts d'" "(moment n k ts d)\<lparr>w_ticks := n'\<rparr> = moment n' k ts d"
  "(moment n k ts d)\<lparr>w_uuids := k'\<rparr> = moment n k' ts d" "(moment n k ts d)\<lparr>w_threads := ts'\<rparr> = moment n k ts' d"
  by (simp_all add: moment_def)

lemma digits: "digit (Suc (Suc 0)) = CHR ''2''" "digit (Suc (Suc (Suc 0))) = CHR ''3''" "digit (Suc (Suc (Suc (Suc 0)))) = CHR ''4''"
  by code_simp+

lemma decs:
  "nat_dec 0 = ''0''" "nat_dec (Suc 0) = ''1''" "nat_dec (Suc (Suc 0)) = ''2''" "nat_dec (Suc (Suc (Suc 0))) = ''3''"
  "nat_dec 2 = ''2''" "nat_dec 3 = ''3''" "nat_dec 4 = ''4''" "nat_dec 5 = ''5''"
  by (simp_all add: nat_dec.simps digit_chars digits)

definition agent0 :: "json agent_row" where
  "agent0 = \<lparr>ag_agent_id = ''0'', ag_tenant_id = ''t'', ag_name = ''n'', ag_image_digest = ''sha256:'' @ replicate 64 CHR ''a'',
     ag_namespace = ''asv-drill'', ag_scope_owner = ''o'', ag_declared_scope = JObj [(''synthetic_only'', JBool True)],
     ag_status = ''REGISTERED'', ag_created_at = 0\<rparr>"

lemma get_simps: "get_or_null ((k, v) # kvs) k' = (if k' = k \<and> dict_get kvs k' = None then v else get_or_null kvs k')"
  "get_or_null [] k' = JNull" "dict_get ((k, v) # kvs) k' = (case dict_get kvs k' of None \<Rightarrow> if k' = k then Some v else None | Some x \<Rightarrow> Some x)"
  "dict_get [] k' = None"
  by (auto simp: get_or_null_def dict_get_def map_of_dict_of map_add_def split: option.splits)

lemma digest_ok: "digest_matches (''sha256:'' @ replicate 64 CHR ''a'')"
  by (simp add: digest_matches_def starts_with_iff list_all_iff lower_hex_def)

definition db1 :: db where
  "db1 = (new_store '':memory:'')\<lparr>agents := [encode_agent agent0]\<rparr>"

lemma register0: "register_agent example_agent (moment 0 0 [] (new_store '':memory:'')) = (Inr agent0, moment 1 1 [] db1)"
  using digest_ok
  by (simp add: register_agent_def example_agent_def missing_fields_def agent_required_def get_simps str_field_def
     m_defs insert_agent_def new_store_def Let_def agent0_def encode_agent_def decs db1_def)

definition run0 :: run_row where
  "run0 =
     \<lparr>rn_run_id = ''1'', rn_tenant_id = ''t'', rn_agent_id = ''0'', rn_parent_run_id = None, rn_identity_ref = ''i'',
      rn_started_at = 1000000, rn_stopped_at = None, rn_state = RUNNING, rn_correlation_id = ''2'', rn_policy_version = 1,
      rn_shutdown_requested_at = None, rn_deadline_at = None, rn_shutdown_idempotency_key = None\<rparr>"

definition event0 :: "json evidence_row" where
  "event0 = new_record None ''3'' 2000000 ''t'' ''1'' ''agent.run.started'' [(''state'', JStr ''RUNNING'')] ''agent-adapter'' 1 ''2''"

definition db2 :: db where
  "db2 = append_rows event0 run0 (db1\<lparr>runs := [run0]\<rparr>)"

lemma db1_sel: "agents db1 = [encode_agent agent0]" "runs db1 = []" "evidences db1 = []" "event_outbox db1 = []"
  "foreign_keys db1"
  by (simp_all add: db1_def new_store_def)

lemma create0: "create_run example_run (moment 1 1 [] db1) = (Inr run0, moment 3 4 [] db2)"
proof -
  have ev: "ledger_append ''t'' ''1'' ''agent.run.started'' [(''state'', JStr ''RUNNING'')] ''agent-adapter'' 1 ''2''
      (moment 2 3 [] (db1\<lparr>runs := [run0]\<rparr>)) = (Inr event0, moment 3 4 [] db2)"
    by (subst ledger_append_runs [where run = run0, OF _ refl])
      (simp_all add: find_run_def run0_def last_evidence_def select_evidence_def db1_sel has_event_def db2_def append_rows_def
       event0_def decs)
  note defs = example_run_def missing_fields_def run_required_def get_simps str_field_def find_agent_def db1_sel
    encode_agent_def agent0_def check_parent_def given_or_uuid_def policy_of_def insert_new_run_def int64_def
    insert_run_def has_run_def append_event_def decs
  show ?thesis
    unfolding create_run_def Let_def
    using ev by (simp add: defs m_defs run0_def numeral_eq_Suc)
qed


text \<open>The shutdown is requested; the thread of the orchestrator is started.\<close>

definition run1 :: "instant \<Rightarrow> run_row" where
  "run1 dl = mark_requested 3000000 dl ''k'' run0"

definition event1 :: "instant \<Rightarrow> json evidence_row" where
  "event1 dl = new_record (Some (stored event0)) ''4'' 5000000 ''t'' ''1'' ''shutdown.requested''
     [(''deadline_at'', iso_json dl)] ''responder'' 1 ''2''"

definition db3 :: "instant \<Rightarrow> db" where
  "db3 dl = append_rows (event1 dl) (run1 dl) (db2\<lparr>runs := [run1 dl], shutdown_works := [new_work ''1'' ''t'' 3000000]\<rparr>)"

definition thread0 :: thread where
  "thread0 = \<lparr>th_tenant_id = ''t'', th_run_id = ''1'', th_actor = ''responder'', th_adapter = ConfiguredAdapter,
     th_recovering = False, th_lease_owner = None\<rparr>"

lemma db2_sel: "agents db2 = [encode_agent agent0]" "runs db2 = [run0]" "evidences db2 = [stored event0]"
  "event_outbox db2 = [outbox_event event0 run0]" "shutdown_works db2 = []" "probes db2 = []"
  by (simp_all add: db2_def db1_sel append_rows_def) (simp_all add: db1_def new_store_def)

lemma request0:
  assumes "plus_seconds 4000000 (cp_deadline_seconds cp) = Inr dl"
  shows "request_shutdown cp ''t'' ''1'' ''responder'' ''k'' True ConfiguredAdapter (moment 3 4 [] db2) =
   (Inr (shutdown_receipt (run1 dl)), moment 6 5 [thread0] (db3 dl))"
proof -
  have ids: "ev_evidence_id event0 = ''3''" "ev_sequence_no event0 = 1" "ev_run_id event0 = ''1''" "ev_tenant_id event0 = ''t''"
      "ev_sequence_no (event1 dl) = 2"
    by (simp_all add: event0_def event1_def new_record_def)
  have ev: "ledger_append ''t'' ''1'' ''shutdown.requested'' [(''deadline_at'', iso_json dl)] ''responder'' 1 ''2''
      (moment 5 4 [] (db2\<lparr>runs := [run1 dl], shutdown_works := [new_work ''1'' ''t'' 3000000]\<rparr>)) =
      (Inr (event1 dl), moment 6 5 [] (db3 dl))"
    by (subst ledger_append_runs [where run = "run1 dl", OF _ refl])
      (simp_all add: find_run_def run1_def run0_def mark_requested_def last_evidence_def select_evidence_def db2_sel has_event_def
       db3_def append_rows_def event1_def decs ids ids(5) [unfolded event1_def] of_run_def)
  show ?thesis
    using ev assms
    by (simp add: request_shutdown_def record_request_def m_defs find_run_def db2_sel run0_def run1_def
      Orchestrator.request_run_def request_work_def has_run_def sql_update_def sql_upsert_def mark_requested_def
      append_event_def opt_iso_def thread0_def)
qed

text \<open>The states of this history are reachable; so are those of a plane whose deadline is at once.\<close>

definition hasty_plane :: control_plane where
  "hasty_plane = example_plane\<lparr>cp_deadline_seconds := 0\<rparr>"

definition start0 :: world where
  "start0 = moment 0 0 [] (new_store '':memory:'')"

definition requested0 :: world where
  "requested0 = moment 6 5 [thread0] (db3 64000000)"

definition expired0 :: world where
  "expired0 = moment 6 5 [thread0] (db3 4000000)"

lemma snd_forget: "snd (forget m w) = snd (m w)"
  by (simp add: forget_def bnd_def ret_def split: prod.splits sum.splits)

lemma deadlines:
  "plus_seconds 4000000 (cp_deadline_seconds example_plane) = Inr 64000000"
  "plus_seconds 4000000 (cp_deadline_seconds hasty_plane) = Inr 4000000"
  by (simp_all add: example_plane_def hasty_plane_def plus_seconds_def plus_us_def min_instant_def max_instant_def)

lemma after_example:
  "after cp pu (Register_Agent example_agent) start0 = moment 1 1 [] db1"
  "after cp pu (Create_Run example_run) (moment 1 1 [] db1) = moment 3 4 [] db2"
  "after example_plane pu (Request_Shutdown ''t'' ''1'' ''responder'' ''k'' True ConfiguredAdapter) (moment 3 4 [] db2) = requested0"
  "after hasty_plane pu (Request_Shutdown ''t'' ''1'' ''responder'' ''k'' True ConfiguredAdapter) (moment 3 4 [] db2) = expired0"
  by (simp_all add: after_def start0_def requested0_def expired0_def snd_forget register0 create0 [simplified] request0 deadlines)

lemma reachable_start0: "reachable cp pu start0"
  by (rule reachable.start) (simp_all add: start0_def)

lemma reachable_created0: "reachable cp pu (moment 3 4 [] db2)"
  using reachable.call [OF reachable.call [OF reachable_start0]] after_example by metis

lemma reachable_requested0: "reachable example_plane pu requested0"
  using reachable.call [OF reachable_created0] after_example by metis

lemma reachable_expired0: "reachable hasty_plane pu expired0"
  using reachable.call [OF reachable_created0] after_example by metis

lemma example_adapter: "shutdown_adapter (cp_adapter example_plane)" "shutdown_adapter (cp_adapter hasty_plane)"
  by (simp_all add: example_plane_def hasty_plane_def synthetic.shutdown_adapter_axioms)

lemma db3_sel: "agents (db3 dl) = [encode_agent agent0]" "runs (db3 dl) = [run1 dl]"
  "evidences (db3 dl) = [stored event0, stored (event1 dl)]"
  "event_outbox (db3 dl) = [outbox_event event0 run0, outbox_event (event1 dl) (run1 dl)]"
  "shutdown_works (db3 dl) = [new_work ''1'' ''t'' 3000000]" "probes (db3 dl) = []"
  by (simp_all add: db3_def db2_sel)

lemma find_run1: "find_run ''t'' ''1'' (db3 dl) = Some (run1 dl)"
  by (simp add: find_run_def db3_sel run1_def run0_def mark_requested_def)

lemma run1_sel [simp]: "rn_state (run1 dl) = REQUESTED" "rn_shutdown_requested_at (run1 dl) = Some 3000000"
  "rn_deadline_at (run1 dl) = Some dl" "rn_tenant_id (run1 dl) = ''t''" "rn_run_id (run1 dl) = ''1''"
  "rn_stopped_at (run1 dl) = None" "rn_shutdown_idempotency_key (run1 dl) = Some ''k''"
  by (simp_all add: run1_def run0_def mark_requested_def)

lemma world_db [simp]: "w_db requested0 = db3 64000000" "w_db expired0 = db3 4000000"
  by (simp_all add: requested0_def expired0_def)

lemma requested1: "requested ''t'' ''1'' (db3 dl)"
  by (simp add: requested_def find_run1)

end
