(* ===== verification/Safety.thy ===== *)
theory Safety
  imports Example
begin

text \<open>
  What holds in every reachable state of the service, stated over the model itself.
\<close>

section \<open>Sequences of calls\<close>

lemma reachable_after_all: "reachable cp pu w \<Longrightarrow> reachable cp pu (after_all cp pu cs w)"
  by (induction cs arbitrary: w) (auto intro: reachable.call)

lemma run_le_after_all:
  assumes "shutdown_adapter (cp_adapter cp)"
  shows "reachable cp pu w \<Longrightarrow> run_le (w_db w) (w_db (after_all cp pu cs w))"
proof (induction cs arbitrary: w)
  case (Cons c cs)
  have "run_le (w_db w) (w_db (after cp pu c w))" by (rule run_le_after [OF assms Cons.prems])
  moreover have "run_le (w_db (after cp pu c w)) (w_db (after_all cp pu cs (after cp pu c w)))"
    by (rule Cons.IH [OF reachable.call [OF Cons.prems]])
  ultimately show ?case using run_le_trans by auto
qed simp

lemma records_reachable:
  assumes "shutdown_adapter (cp_adapter cp)" and "reachable cp pu w"
  shows "records_ok (w_db w)"
proof -
  have "on (ok records_ok (w_db w)) w"
    by (rule records.ok_reachable [OF assms(1) refl _ assms(2)])
      (auto simp: records_ok_def probes_ok_def owned_def new_store_def run_sets in_state_def find_run_def)
  then show ?thesis by (simp add: ok_def)
qed

lemma chain_reachable:
  assumes "shutdown_adapter (cp_adapter cp)" and "reachable cp pu w"
  shows "ledger_ok (w_db w)"
proof -
  have "on (ok ledger_ok (w_db w)) w"
    by (rule chain.ok_reachable [OF assms(1) refl _ assms(2)]) (simp add: ledger_ok_def ledger_inv_def new_store_def)
  then show ?thesis by (simp add: ok_def)
qed

lemma duties_reachable:
  assumes "shutdown_adapter (cp_adapter cp)" and "reachable cp pu w"
  shows "drills_ok (w_db w)"
proof -
  have "on (ok drills_ok (w_db w)) w"
    by (rule duties.ok_reachable [OF assms(1) refl _ assms(2)]) (simp add: drills_ok_def new_store_def)
  then show ?thesis by (simp add: ok_def)
qed

lemma delivery_reachable:
  assumes "shutdown_adapter (cp_adapter cp)" and "reachable cp pu w" and "1 \<le> pu_max_attempts pu"
  shows "delivery_ok (pu_max_attempts pu) (w_db w)"
proof -
  let ?n = "nat (pu_max_attempts pu - 1)"
  have n: "1 + int ?n = pu_max_attempts pu" using assms(3) by simp
  have "on (ok (delivery_ok (1 + int ?n)) (w_db w)) w"
    by (rule delivery.ok_reachable [OF assms(1) n [symmetric] _ assms(2)]) (simp add: delivery_ok_def new_store_def)
  then show ?thesis unfolding ok_def n by blast
qed

section \<open>The state machine\<close>

text \<open>
  C2. Every call of the service, on every reachable state, moves every run along the edges of
  the shutdown state machine, and never removes a run or rewrites what identifies it: its
  agent, parent, identity, policy version, correlation id and starting time stay, and once the
  shutdown is requested so do the time, the deadline and the idempotency key of the request.
\<close>

theorem calls_follow_the_state_machine:
  assumes "shutdown_adapter (cp_adapter cp)" and "reachable cp pu w" and "find_run t r (w_db w) = Some x"
  shows "\<exists>y. find_run t r (w_db (after cp pu c w)) = Some y \<and> edge\<^sup>*\<^sup>* (rn_state x) (rn_state y) \<and>
     rn_agent_id y = rn_agent_id x \<and> rn_parent_run_id y = rn_parent_run_id x \<and> rn_identity_ref y = rn_identity_ref x \<and>
     rn_policy_version y = rn_policy_version x \<and> rn_correlation_id y = rn_correlation_id x \<and> rn_started_at y = rn_started_at x \<and>
     (rn_shutdown_requested_at x \<noteq> None \<longrightarrow>
        rn_shutdown_requested_at y = rn_shutdown_requested_at x \<and> rn_deadline_at y = rn_deadline_at x \<and>
        rn_shutdown_idempotency_key y = rn_shutdown_idempotency_key x)"
proof -
  have "run_le (w_db w) (w_db (after cp pu c w))" by (rule run_le_after [OF assms(1,2)])
  then obtain y where "find_run t r (w_db (after cp pu c w)) = Some y" "row_le x y"
    using assms(3) unfolding run_le_def by blast
  then show ?thesis unfolding row_le_def by blast
qed

lemma find_run0: "find_run ''t'' ''1'' (w_db (moment 3 4 [] db2)) = Some run0"
  by (simp add: find_run_def db2_sel run0_def)

theorem calls_follow_the_state_machine_witness:
  "\<exists>y. find_run ''t'' ''1'' (w_db requested0) = Some y \<and> edge\<^sup>*\<^sup>* RUNNING (rn_state y) \<and> rn_agent_id y = ''0''"
  using calls_follow_the_state_machine [OF example_adapter(1) reachable_created0 [of example_plane example_publisher] find_run0,
      of "Request_Shutdown ''t'' ''1'' ''responder'' ''k'' True ConfiguredAdapter"]
  unfolding after_example by (auto simp: run0_def)

text \<open>
  C39. In every reachable state a run has left \<open>RUNNING\<close> exactly when its shutdown was
  requested, with its deadline and idempotency key recorded, and it has a stopping time exactly
  when it is in a terminal state; run ids are unique.
\<close>

theorem run_rows_are_consistent:
  assumes "shutdown_adapter (cp_adapter cp)" and "reachable cp pu w"
  shows "distinct (map rn_run_id (runs (w_db w))) \<and>
    (\<forall>x \<in> set (runs (w_db w)).
       (rn_state x \<noteq> RUNNING \<longleftrightarrow> rn_shutdown_requested_at x \<noteq> None) \<and>
       (rn_shutdown_requested_at x \<noteq> None \<longleftrightarrow> rn_deadline_at x \<noteq> None) \<and>
       (rn_shutdown_requested_at x \<noteq> None \<longleftrightarrow> rn_shutdown_idempotency_key x \<noteq> None) \<and>
       (terminal (rn_state x) \<longleftrightarrow> rn_stopped_at x \<noteq> None))"
  using wf_reachable [OF assms] by (auto simp: wf_db_def wf_run_def)

theorem run_rows_are_consistent_witness:
  "rn_state (run1 64000000) \<noteq> RUNNING \<and> rn_deadline_at (run1 64000000) \<noteq> None \<and> rn_stopped_at (run1 64000000) = None"
  using run_rows_are_consistent [OF example_adapter(1) reachable_requested0 [of example_publisher]]
  by (auto simp: db3_sel)

section \<open>What \<open>VERIFIED\<close> means\<close>

text \<open>
  C1. A run is \<open>VERIFIED\<close> only on complete evidence: in every reachable state, a verified
  run has for each of the five probe kinds exactly one stored probe, and its result is \<open>PASS\<close>.
\<close>

theorem verified_rests_on_five_passes:
  assumes "shutdown_adapter (cp_adapter cp)" and "reachable cp pu w" and "find_run t r (w_db w) = Some x"
    and "rn_state x = VERIFIED" and "k \<in> set PROBE_KINDS"
  shows "\<exists>p. filter (\<lambda>p. pb_tenant_id p = t \<and> pb_run_id p = r \<and> pb_kind p = k) (probes (w_db w)) = [p] \<and> pb_result p = PASS"
proof -
  let ?P = "\<lambda>p. pb_tenant_id p = t \<and> pb_run_id p = r \<and> pb_kind p = k"
  have ok: "probes_ok (w_db w)" using records_reachable [OF assms(1,2)] by (simp add: records_ok_def)
  moreover have "in_state t r VERIFIED (w_db w)" using assms(3,4) by (simp add: in_state_def)
  ultimately obtain p where p: "p \<in> set (probes (w_db w))" "?P p" "pb_result p = PASS"
    using assms(5) unfolding probes_ok_def all_pass_def probe_at_def by blast
  have "distinct (map probe_key (filter ?P (probes (w_db w))))"
    using ok by (simp add: probes_ok_def distinct_map_filter)
  moreover have "map probe_key (filter ?P (probes (w_db w))) = replicate (length (filter ?P (probes (w_db w)))) (t, r, k)"
    by (rule map_replicate_const [THEN subst], rule map_cong) (auto simp: probe_key_def)
  moreover have "distinct (replicate n (t, r, k)) \<Longrightarrow> n \<le> 1" for n by (cases n; cases "n - 1") auto
  ultimately have "length (filter ?P (probes (w_db w))) \<le> 1" by simp
  moreover have "p \<in> set (filter ?P (probes (w_db w)))" using p by simp
  ultimately have "filter ?P (probes (w_db w)) = [p]"
    by (cases "filter ?P (probes (w_db w))") (auto simp del: set_filter)
  with p(3) show ?thesis by blast
qed

end
