(* ===== verification/Liveness.thy ===== *)
theory Liveness
  imports Safety
begin

text \<open>
  What the orchestrator and the recovery worker achieve: with a lease a shutdown always ends,
  one past its deadline, taken up first or again, never as \<open>VERIFIED\<close>, and a recovery that finds
  no busy lease ends them all, at the latest when the threads it started have run.
\<close>

section \<open>The orchestrator\<close>

lemma ok_anything:
  assumes "shutdown_adapter (cp_adapter cp)" and "reachable cp pu w"
  shows "on (ok (\<lambda>_. True) (w_db w)) w"
  by (rule anything.ok_reachable [OF assms(1) refl _ assms(2)]) simp

text \<open>
  C3. An orchestrator that holds a lease never raises and always ends the shutdown, whatever
  the adapter does: from every reachable state, when \<open>_orchestrate\<close> returns the run is in a
  terminal state and has a stopping time. No assumption is made about the clock, the UUIDs or
  the answers from the outside.
\<close>

theorem orchestration_always_ends:
  assumes "shutdown_adapter (cp_adapter cp)" and "reachable cp pu w" and "requested t r (w_db w)"
    and "shutdown_adapter ad"
  shows "\<exists>w' y. orchestrate cp t r actor ad recovering (Some lease) w = (Inr (), w') \<and>
     find_run t r (w_db w') = Some y \<and> terminal (rn_state y) \<and> rn_stopped_at y \<noteq> None"
proof -
  have ok: "on (ok (\<lambda>_. True) (w_db w)) w" by (rule ok_anything [OF assms(1,2)])
  obtain u w' where w': "orchestrate cp t r actor ad recovering (Some lease) w = (Inr u, w')"
      "on (\<lambda>d ts. ok (\<lambda>_. True) (w_db w) d ts \<and> over t r d) w'"
    using hoare_total [OF anything.hoare_orchestrate [OF assms(4,3)] ok] by blast
  then obtain y where y: "find_run t r (w_db w') = Some y" "terminal (rn_state y)"
    by (auto simp: over_def in_state_def)
  moreover have "wf_run y" using w'(2) y(1) by (auto simp: ok_def intro: wf_find)
  ultimately show ?thesis using w'(1) by (auto simp: wf_run_def)
qed

theorem orchestration_always_ends_witness:
  "\<exists>w' y. orchestrate example_plane ''t'' ''1'' ''responder'' SafeUnknownAdapter False (Some ''lease'') requested0 = (Inr (), w') \<and>
     find_run ''t'' ''1'' (w_db w') = Some y \<and> terminal (rn_state y)"
proof -
  have "requested ''t'' ''1'' (w_db requested0)" by (simp add: requested1)
  from orchestration_always_ends [OF example_adapter(1) reachable_requested0 [of example_publisher] this
      safe_unknown.shutdown_adapter_axioms]
  show ?thesis by blast
qed

section \<open>Deadlines\<close>

lemma adapter_run_of_Inr:
  assumes "adapter_run_of t r w = (Inr ar, w')"
  shows "w' = w" and "find_run t r (w_db w) = Some (run_row.truncate ar)"
proof -
  obtain run w1 ag where run: "get_run t r w = (Inr run, w1)" and ag: "get_agent t (rn_agent_id run) w1 = (Inr ag, w')"
    and ar: "ar = run_view.extend run (adapter_run.fields ag)"
    using assms by (auto simp: adapter_run_of_def bnd_Inr ret_def)
  have "w1 = w" using get_run_Inr(1) [OF run] .
  moreover have "w' = w1" using get_agent_pure [of t "rn_agent_id run" w1] ag by simp
  ultimately show "w' = w" by simp
  show "find_run t r (w_db w) = Some (run_row.truncate ar)"
    using get_run_Inr(2) [OF run] ar by (simp add: run_row.defs run_view.defs)
qed

text \<open>Operations that only read the clock on, and worlds in which all readings to come are late.\<close>

definition onwards :: "'a m \<Rightarrow> bool" where
  "onwards m \<longleftrightarrow> (\<forall>w. w_clock (snd (m w)) = w_clock w \<and> w_ticks w \<le> w_ticks (snd (m w)))"

definition late :: "instant \<Rightarrow> world \<Rightarrow> bool" where
  "late dl w \<longleftrightarrow> (\<forall>i \<ge> w_ticks w. dl \<le> w_clock w i)"

lemma onwards_basic:
  "onwards (ret x)" "onwards (throw e)" "onwards (query q)" "onwards (exec f)" "onwards (exec_checked g)"
  "onwards utc_now" "onwards uuid4" "onwards (lift r)"
  by (auto simp: onwards_def m_defs split: sum.splits prod.splits)

lemma onwards_bnd: "onwards m \<Longrightarrow> (\<And>x. onwards (f x)) \<Longrightarrow> onwards (bnd m f)"
  unfolding onwards_def
proof (intro allI)
  fix w
  assume "\<forall>w. w_clock (snd (m w)) = w_clock w \<and> w_ticks w \<le> w_ticks (snd (m w))"
    and f: "\<And>x. \<forall>w. w_clock (snd (f x w)) = w_clock w \<and> w_ticks w \<le> w_ticks (snd (f x w))"
  then have m: "w_clock (snd (m w)) = w_clock w \<and> w_ticks w \<le> w_ticks (snd (m w))" by blast
  show "w_clock (snd (bnd m f w)) = w_clock w \<and> w_ticks w \<le> w_ticks (snd (bnd m f w))"
  proof (cases "m w")
    case (Pair r w1)
    then show ?thesis
    proof (cases r)
      case (Inr x)
      then show ?thesis using m Pair f [of x, THEN spec, of w1] by (simp add: bnd_def)
    qed (use m in \<open>simp add: bnd_def\<close>)
  qed
qed

lemma onwards_seq: "onwards m \<Longrightarrow> onwards k \<Longrightarrow> onwards (seq m k)"
  unfolding seq_def by (rule onwards_bnd)

lemma onwards_transaction: "onwards m \<Longrightarrow> onwards (transaction m)"
  unfolding onwards_def transaction_def by (auto simp: snd_def split: prod.splits sum.splits)

lemma onwards_option: "onwards m \<Longrightarrow> (\<And>y. onwards (f y)) \<Longrightarrow> onwards (case x of None \<Rightarrow> m | Some y \<Rightarrow> f y)"
  by (cases x) auto

lemmas onwards_rules = onwards_basic onwards_bnd onwards_seq onwards_transaction onwards_option

lemma onwards_append: "onwards (append_event run ty pl ac)"
  unfolding append_event_def ledger_append_def Let_def by (intro onwards_rules)

lemma onwards_claim: "onwards (claim_shutdown_work cp t r)"
  unfolding claim_shutdown_work_def Let_def by (intro onwards_rules)

lemma late_onwards: "onwards m \<Longrightarrow> late dl w \<Longrightarrow> late dl (snd (m w))"
  unfolding onwards_def late_def by (metis order_trans)

lemma hoare_late: "onwards m \<Longrightarrow> hoare (late dl) m (\<lambda>_. late dl) (\<lambda>_. late dl)"
  using late_onwards [of m dl] by (force simp: hoare_def snd_def split: prod.splits sum.splits)

lemma hoare_keep_late:
  assumes "keeps V m" and "onwards m"
  shows "hoare (\<lambda>w. on V w \<and> late dl w) m (\<lambda>_ w. on V w \<and> late dl w) (\<lambda>_ w. on V w \<and> late dl w)"
  by (rule hoare_conj [OF assms(1) [unfolded keeps_def] hoare_late [OF assms(2)]])

lemma hoare_expire_unknown:
  assumes run: "names t r run" and req: "requested t r d0"
  shows "hoare (on (ok (\<lambda>_. True) d0)) (expire_shutdown run lease)
     (\<lambda>_. on (\<lambda>d ts. ok (\<lambda>_. True) d0 d ts \<and> in_state t r S_UNKNOWN d))
     (\<lambda>_. on (\<lambda>d ts. ok (\<lambda>_. True) d0 d ts \<and> in_state t r S_UNKNOWN d))"
proof -
  let ?V = "\<lambda>d ts. ok (\<lambda>_. True) d0 d ts \<and> in_state t r S_UNKNOWN d \<and> True"
  let ?T = "transition run S_UNKNOWN ''shutdown.recovery.deadline.exceeded'' [(''deadline_at'', opt_iso (rn_deadline_at run))]
        ''recovery-worker'' True"
  have "hoare (on (\<lambda>d ts. ok (\<lambda>_. True) d0 d ts \<and> in_state t r s d \<and> True)) ?T (\<lambda>_. on ?V) (\<lambda>_. on ?V)" if "s \<noteq> RUNNING" for s
    by (rule anything.hoare_transition [OF run edge.expired [OF that] that]) auto
  moreover have "\<exists>s. in_state t r s d \<and> s \<noteq> RUNNING" if "ok (\<lambda>_. True) d0 d ts" for d ts
    using that okD [of "\<lambda>_. True" d0] ok_requested [OF _ req] requested_in_state by metis
  ultimately have T: "hoare (on (ok (\<lambda>_. True) d0)) ?T (\<lambda>_. on ?V) (\<lambda>_. on ?V)"
    unfolding hoare_def by meson
  have "hoare (on ?V) (finish_shutdown_work (rn_run_id run) lease) (\<lambda>_. on ?V) (\<lambda>_. on ?V)"
    by (intro hoare_weaken [OF anything.keeps_finish [of "\<lambda>d. in_state t r S_UNKNOWN d \<and> True", unfolded keeps_def]]
        framed_conj framed_in_state on_probes_framed on_probes_basic) auto
  from hoare_seq [OF this T] show ?thesis by (simp add: expire_shutdown_def)
qed

lemma deadline_kept:
  assumes "on (ok (\<lambda>_. True) d0) w" and "find_run t r d0 = Some x" and "rn_shutdown_requested_at x \<noteq> None"
    and "rn_deadline_at x = Some dl"
  shows "\<exists>y. find_run t r (w_db w) = Some y \<and> rn_deadline_at y = Some dl"
  using okD [OF assms(1)] assms(2-4) unfolding run_le_def row_le_def by metis

lemma hoare_late_body:
  assumes ad: "shutdown_adapter ad" and x: "find_run t r d0 = Some x" "rn_shutdown_requested_at x \<noteq> None" "rn_deadline_at x = Some dl"
  shows "hoare (\<lambda>w. on (ok (\<lambda>_. True) d0) w \<and> late dl w)
     (orchestrate_body cp t r actor ad recovering lease)
     (\<lambda>_. on (\<lambda>d ts. ok (\<lambda>_. True) d0 d ts \<and> in_state t r S_UNKNOWN d)) (\<lambda>_. on (ok (\<lambda>_. True) d0))"
    (is "hoare ?P _ ?Q ?E")
proof -
  have req: "requested t r d0" using x by (auto simp: requested_def)
  have read: "hoare ?P (adapter_run_of t r) (\<lambda>run w. ?P w \<and> (names t r run \<and> rn_deadline_at run = Some dl)) ?E"
  proof (rule hoareI)
    fix w e w' assume "?P w" "adapter_run_of t r w = (Inl e, w')"
    moreover have "snd (adapter_run_of t r w) = w"
      using get_run_pure [of t r w] get_agent_pure [of t _ w]
      by (auto simp: adapter_run_of_def bnd_def ret_def split: prod.splits sum.splits) (metis snd_conv)+
    ultimately show "?E e w'" by simp
  next
    fix w run w' assume P: "?P w" and run: "adapter_run_of t r w = (Inr run, w')"
    obtain y where y: "find_run t r (w_db w) = Some y" "rn_deadline_at y = Some dl"
      using deadline_kept [OF _ x] P by blast
    then show "?P w' \<and> (names t r run \<and> rn_deadline_at run = Some dl)"
      using P adapter_run_of_Inr [OF run] find_run_Some [OF y(1)] by (auto simp: names_def run_row.defs)
  qed
  have body: "hoare ?P (seq (if recovering then append_event run ty pl ac else ret ())
      (bnd (deadline_expired run) (\<lambda>expired. if expired then expire_shutdown run lease else k))) ?Q ?E"
    if run: "names t r run" "rn_deadline_at run = Some dl" for run :: adapter_run and ty pl ac k
  proof (rule hoare_seq)
    have "keeps (ok (\<lambda>_. True) d0) (if recovering then append_event run ty pl ac else ret ())"
      by (intro keeps_if anything.keeps_true [OF anything.keeps_append_event] keeps_ret) auto
    moreover have "onwards (if recovering then append_event run ty pl ac else ret ())"
      using onwards_append onwards_basic(1) by (cases recovering) simp_all
    ultimately show "hoare ?P (if recovering then append_event run ty pl ac else ret ()) (\<lambda>_. ?P) ?E"
      by (rule hoare_weaken [OF hoare_keep_late]) auto
    show "hoare ?P (bnd (deadline_expired run) (\<lambda>expired. if expired then expire_shutdown run lease else k)) ?Q ?E"
    proof (rule hoare_bnd)
      show "hoare ?P (deadline_expired run) (\<lambda>b w. on (ok (\<lambda>_. True) d0) w \<and> b) ?E"
        using run(2) by (simp add: deadline_expired_def hoare_def m_exec ret_def late_def)
      show "hoare (\<lambda>w. on (ok (\<lambda>_. True) d0) w \<and> b) (if b then expire_shutdown run lease else k) ?Q ?E" for b
        using hoare_weaken [OF hoare_expire_unknown [OF run(1) req, of lease], of "on (ok (\<lambda>_. True) d0)" ?Q ?E]
        by (auto simp: hoare_def)
    qed
  qed
  show ?thesis unfolding orchestrate_body_def
    by (rule hoare_bnd [OF hoare_fact read]) (rule body, auto)
qed

text \<open>What an orchestrator that comes late leaves behind.\<close>

lemma late_orchestration:
  assumes "shutdown_adapter ad" and ok: "on (ok (\<lambda>_. True) d0) w" and late: "late dl w"
    and x: "find_run t r d0 = Some x" "rn_shutdown_requested_at x \<noteq> None" "rn_deadline_at x = Some dl"
  shows "\<exists>w' y. orchestrate cp t r actor ad recovering (Some lease) w = (Inr (), w') \<and>
     find_run t r (w_db w') = Some y \<and> rn_state y \<in> {S_UNKNOWN, FAILED}"
proof -
  let ?Q = "\<lambda>_ :: unit. \<lambda>w. in_state t r S_UNKNOWN (w_db w) \<or> in_state t r FAILED (w_db w)"
  have req: "requested t r d0" using x by (auto simp: requested_def)
  have "hoare (\<lambda>w. on (ok (\<lambda>_. True) d0) w \<and> late dl w)
      (catch (orchestrate_body cp t r actor ad recovering lease) (orchestrate_failed t r lease)) ?Q (\<lambda>_ _. False)"
  proof (rule hoare_catch)
    show "hoare (on (ok (\<lambda>_. True) d0)) (orchestrate_failed t r lease e) ?Q (\<lambda>_ _. False)" for e
      by (rule hoare_weaken [OF anything.hoare_orchestrate_failed [OF req]]) auto
    show "hoare (\<lambda>w. on (ok (\<lambda>_. True) d0) w \<and> late dl w)
        (orchestrate_body cp t r actor ad recovering lease) ?Q (\<lambda>_. on (ok (\<lambda>_. True) d0))"
      by (rule hoare_weaken [OF hoare_late_body [OF assms(1) x]]) auto
  qed
  from hoare_total [OF this, of w] ok late
  obtain u w' where "catch (orchestrate_body cp t r actor ad recovering lease) (orchestrate_failed t r lease) w = (Inr u, w')"
      "in_state t r S_UNKNOWN (w_db w') \<or> in_state t r FAILED (w_db w')" by blast
  then show ?thesis by (auto simp: orchestrate_def m_exec in_state_def)
qed

lemma quiet_append: "quiet (append_event run ty pl ac)"
  unfolding append_event_def ledger_append_def by (intro keeps_rules)

lemma quiet_transition: "quiet (transition run st ty pl ac stopped)"
  unfolding transition_def by (intro keeps_rules quiet_append)

lemma quiet_finish: "quiet (finish_shutdown_work r l)"
  unfolding finish_shutdown_work_def by (intro keeps_rules)

lemma quiet_expire: "quiet (expire_shutdown run l)"
  unfolding expire_shutdown_def by (intro keeps_rules quiet_transition quiet_finish)

lemma quiet_claim: "quiet (claim_shutdown_work cp t r)"
  unfolding claim_shutdown_work_def by (intro keeps_rules)

lemma claim_runs: "runs (w_db (snd (claim_shutdown_work cp t r w))) = runs (w_db w)"
proof -
  have "keeps (\<lambda>d ts. runs d = runs (w_db w)) (claim_shutdown_work cp t r)"
    unfolding claim_shutdown_work_def Let_def
    by (intro keeps_rules keeps_exec keeps_exec_checked) (auto simp: insert_or_ignore_work_def guarded_Inr split: if_splits)
  from keepsD [OF this] show ?thesis by simp
qed

lemma claim_kept:
  assumes "claim_shutdown_work cp t r w = (res, w1)"
  shows "on (ok (\<lambda>_. True) d0) w \<Longrightarrow> on (ok (\<lambda>_. True) d0) w1" and "late dl w \<Longrightarrow> late dl w1"
    and "find_run t' r' (w_db w1) = find_run t' r' (w_db w)"
  using keepsD [OF anything.keeps_true [OF anything.keeps_claim], of d0 w cp t r] late_onwards [OF onwards_claim, of dl w cp t r]
    claim_runs [of cp t r w] assms
  by (auto simp: find_run_def)

text \<open>
  C7. A shutdown whose deadline has passed when it is taken up, first or again, is never
  verified. Whatever the adapter and however \<open>_orchestrate\<close> is called: when it was given a
  lease or its claim succeeds, the run ends as \<open>UNKNOWN\<close>, or as \<open>FAILED\<close> when recording this
  raises; otherwise the run stays as it was. The recovery worker, when its claim succeeds,
  leaves the run \<open>UNKNOWN\<close> and starts no thread for it, and otherwise leaves it as it was. The
  clock is taken not to show an earlier time again.
\<close>

theorem expired_shutdown_is_not_verified:
  assumes "shutdown_adapter (cp_adapter cp)" and "reachable cp pu w" and "find_run t r (w_db w) = Some x"
    and "rn_deadline_at x = Some dl" and "\<forall>i \<ge> w_ticks w. dl \<le> w_clock w i" and "shutdown_adapter ad"
  shows "(case orchestrate cp t r actor ad recovering lease_owner w of (res, w') \<Rightarrow>
       \<exists>y. find_run t r (w_db w') = Some y \<and>
         (if lease_owner \<noteq> None \<or> (\<exists>l w1. claim_shutdown_work cp t r w = (Inr (Some l), w1))
          then res = Inr () \<and> rn_state y \<in> {S_UNKNOWN, FAILED} else y = x)) \<and>
    (case recover_run cp asynchronous x c w of (res, w') \<Rightarrow>
       \<exists>y. find_run t r (w_db w') = Some y \<and> w_threads w' = w_threads w \<and>
         (if \<exists>l w1. claim_shutdown_work cp t r (w\<lparr>w_ticks := Suc (w_ticks w)\<rparr>) = (Inr (Some l), w1)
          then rn_state y = S_UNKNOWN else y = x))"
    (is "?orch \<and> ?rec")
proof
  have ok: "on (ok (\<lambda>_. True) (w_db w)) w" by (rule ok_anything [OF assms(1,2)])
  have late: "late dl w" using assms(5) by (simp add: late_def)
  have req: "rn_shutdown_requested_at x \<noteq> None"
    using wf_reachable [OF assms(1,2)] find_run_Some [OF assms(3)] assms(4) by (auto simp: wf_db_def wf_run_def)
  note ends = late_orchestration [OF assms(6) _ _ assms(3) req assms(4)]
  show ?orch
  proof (cases lease_owner)
    case (Some l)
    then show ?thesis using ends [OF ok late, of cp actor recovering l] by auto
  next
    case None
    obtain res w1 where claim: "claim_shutdown_work cp t r w = (res, w1)" by (cases "claim_shutdown_work cp t r w")
    note kept = claim_kept [OF claim]
    show ?thesis
    proof (cases "\<exists>l. res = Inr (Some l)")
      case True
      then obtain l where l: "res = Inr (Some l)" by blast
      have "orchestrate cp t r actor ad recovering None w = orchestrate cp t r actor ad recovering (Some l) w1"
        using claim l by (simp add: orchestrate_def bnd_def ret_def)
      then show ?thesis using None claim l ends [OF kept(1) [OF ok] kept(2) [OF late], of cp actor recovering l] by auto
    next
      case False
      then have "snd (orchestrate cp t r actor ad recovering None w) = w1"
        using claim by (cases res) (auto simp: orchestrate_def bnd_def ret_def split: option.splits)
      then show ?thesis using None claim False kept(3) [of t r] assms(3) by (auto split: prod.splits)
    qed
  qed
  show ?rec
  proof -
    let ?w = "w\<lparr>w_ticks := Suc (w_ticks w)\<rparr>"
    have x: "rn_tenant_id x = t" "rn_run_id x = r" using find_run_Some [OF assms(3)] by simp_all
    obtain res w1 where claim: "claim_shutdown_work cp t r ?w = (res, w1)" by (cases "claim_shutdown_work cp t r ?w")
    have rec: "recover_run cp asynchronous x c w =
      (case res of Inl e \<Rightarrow> (Inl e, w1) | Inr None \<Rightarrow> (Inr (c\<lparr>rec_busy := rec_busy c + 1\<rparr>), w1)
       | Inr (Some l) \<Rightarrow> seq (expire_shutdown x l) (ret (c\<lparr>rec_expired := rec_expired c + 1\<rparr>)) w1)"
      using assms(4,5) claim x by (auto simp: recover_run_def deadline_expired_def bnd_def utc_now_def ret_def split: sum.splits option.splits)
    have kept: "on (ok (\<lambda>_. True) (w_db w)) w1" "find_run t r (w_db w1) = Some x" "w_threads w1 = w_threads w"
      using claim_kept [OF claim] ok assms(3) quietD [OF quiet_claim claim] by simp_all
    show ?thesis
    proof (cases "\<exists>l. res = Inr (Some l)")
      case True
      then obtain l where l: "res = Inr (Some l)" by blast
      obtain u w2 where run: "expire_shutdown x l w1 = (u, w2)" by (cases "expire_shutdown x l w1")
      have "names t r x" "requested t r (w_db w)" using x req assms(3) by (auto simp: names_def requested_def)
      from hoare_expire_unknown [OF this, of l] kept(1) run have "in_state t r S_UNKNOWN (w_db w2)"
        by (cases u) (auto dest: hoareD_Inr hoareD_Inl)
      moreover have "w_threads w2 = w_threads w" using quietD [OF quiet_expire run] kept(3) by simp
      moreover have "snd (recover_run cp asynchronous x c w) = w2"
        using rec l run by (cases u) (simp_all add: seq_def bnd_def ret_def)
      ultimately show ?thesis using claim l by (auto simp: in_state_def split: prod.splits)
    next
      case False
      then have "snd (recover_run cp asynchronous x c w) = w1" using rec by (auto split: sum.splits option.splits)
      then show ?thesis using claim False kept by (auto split: prod.splits)
    qed
  qed
qed

lemma late_moment: "dl \<le> 1000000 * int n \<Longrightarrow> late dl (moment n k ts d)"
  by (auto simp: late_def)

text \<open>The thread of the expired shutdown gets its turn: it claims the work and ends the run.\<close>

lemma claim_expired0: "claim_shutdown_work hasty_plane ''t'' ''1'' (moment 6 5 ts (db3 4000000)) =
   (Inr (Some ''worker:5''), moment 8 6 ts ((db3 4000000)\<lparr>shutdown_works :=
      [take_lease ''worker:5'' 37000000 6000000 (new_work ''1'' ''t'' 3000000)]\<rparr>))"
  by (simp add: claim_shutdown_work_def m_defs db3_sel insert_or_ignore_work_def claimable_def new_work_def take_lease_def
      plus_seconds_def plus_us_def example_plane_def hasty_plane_def min_instant_def max_instant_def sql_update_def decs Let_def)

theorem expired_shutdown_is_not_verified_witness:
  "\<exists>w' y. orchestrate hasty_plane ''t'' ''1'' ''responder'' (cp_adapter hasty_plane) True None expired0 = (Inr (), w') \<and>
     find_run ''t'' ''1'' (w_db w') = Some y \<and> rn_state y \<in> {S_UNKNOWN, FAILED}"
proof -
  have "\<forall>i \<ge> w_ticks expired0. 4000000 \<le> w_clock expired0 i" by (simp add: expired0_def)
  from expired_shutdown_is_not_verified [OF example_adapter(2) reachable_expired0 [of example_publisher] _ _ this example_adapter(2),
      where t = "''t''" and r = "''1''" and x = "run1 4000000" and actor = "''responder''" and recovering = True and lease_owner = None,
      THEN conjunct1]
  show ?thesis
    using claim_expired0 [of "[thread0]"] by (fastforce simp: find_run1 expired0_def split: prod.splits if_splits)
qed

section \<open>No way back\<close>

text \<open>
  C5. A shutdown that has ended without verification stays so: whatever is called afterwards,
  in any order and number, its state is terminal and not \<open>VERIFIED\<close>.
\<close>

theorem failure_is_never_upgraded:
  assumes "shutdown_adapter (cp_adapter cp)" and "reachable cp pu w" and "find_run t r (w_db w) = Some x"
    and "terminal (rn_state x)" and "rn_state x \<noteq> VERIFIED"
  shows "\<exists>y. find_run t r (w_db (after_all cp pu cs w)) = Some y \<and> terminal (rn_state y) \<and> rn_state y \<noteq> VERIFIED"
proof -
  have "run_le (w_db w) (w_db (after_all cp pu cs w))" by (rule run_le_after_all [OF assms(1,2)])
  then obtain y where y: "find_run t r (w_db (after_all cp pu cs w)) = Some y" "edge\<^sup>*\<^sup>* (rn_state x) (rn_state y)"
    using assms(3) unfolding run_le_def row_le_def by blast
  from edges_terminal [OF y(2) assms(4)] have "terminal (rn_state y) \<and> rn_state y \<noteq> VERIFIED"
    using assms(4,5) by auto
  with y(1) show ?thesis by blast
qed

lemma ended0: "\<exists>y. find_run ''t'' ''1'' (w_db (after hasty_plane pu (Run_Thread 0) expired0)) = Some y \<and>
     (rn_state y = S_UNKNOWN \<or> rn_state y = FAILED)"
proof -
  let ?w = "moment 8 6 [] ((db3 4000000)\<lparr>shutdown_works := [take_lease ''worker:5'' 37000000 6000000 (new_work ''1'' ''t'' 3000000)]\<rparr>)"
  have "on (ok (\<lambda>_. True) (db3 4000000)) expired0"
    using ok_anything [OF example_adapter(2) reachable_expired0] by simp
  then have ok: "on (ok (\<lambda>_. True) (db3 4000000)) ?w" by (simp add: expired0_def anything.ok_works) (simp add: ok_def)
  have late: "late 4000000 ?w" by (rule late_moment) simp
  have "rn_shutdown_requested_at (run1 4000000) \<noteq> None" by simp
  from late_orchestration [OF example_adapter(2) ok late find_run1 this]
  obtain w' y where "orchestrate hasty_plane ''t'' ''1'' ''responder'' (cp_adapter hasty_plane) False (Some ''worker:5'') ?w = (Inr (), w')"
      "find_run ''t'' ''1'' (w_db w') = Some y" "rn_state y = S_UNKNOWN \<or> rn_state y = FAILED" by fastforce
  then show ?thesis
    by (simp add: after_def run_thread_def expired0_def thread0_def resolve_adapter_def orchestrate_def m_defs claim_expired0)
qed

theorem failure_is_never_upgraded_witness:
  "\<exists>y. find_run ''t'' ''1'' (w_db (after_all hasty_plane example_publisher [Recover_Incomplete False, Run_Thread 0]
       (after hasty_plane example_publisher (Run_Thread 0) expired0))) = Some y \<and> terminal (rn_state y) \<and> rn_state y \<noteq> VERIFIED"
proof -
  let ?w = "after hasty_plane example_publisher (Run_Thread 0) expired0"
  obtain y where y: "find_run ''t'' ''1'' (w_db ?w) = Some y" "rn_state y = S_UNKNOWN \<or> rn_state y = FAILED"
    using ended0 by blast
  have r: "reachable hasty_plane example_publisher ?w" by (rule reachable.call [OF reachable_expired0])
  show ?thesis by (rule failure_is_never_upgraded [OF example_adapter(2) r y(1)]) (use y(2) in auto)
qed

section \<open>Recovery\<close>

lemma quiet_lease [keeps_rules]: "quiet (renew_shutdown_lease cp r l)" "quiet (fail_shutdown_work r l e)"
  by (auto simp: renew_shutdown_lease_def fail_shutdown_work_def intro!: keeps_rules)

lemma quiet_reads [keeps_rules]: "quiet (get_run t r)" "quiet (adapter_run_of t r)" "quiet (deadline_expired run)"
  unfolding adapter_run_of_def get_run_def get_agent_def deadline_expired_def by (intro keeps_rules)+

lemma quiet_json [keeps_rules]:
  "quiet a \<Longrightarrow> (\<And>x. quiet (b x)) \<Longrightarrow> (\<And>x. quiet (c x)) \<Longrightarrow> (\<And>x. quiet (f x)) \<Longrightarrow> (\<And>x. quiet (g x)) \<Longrightarrow> (\<And>x. quiet (h x)) \<Longrightarrow>
     quiet (case v of JNull \<Rightarrow> a | JBool x \<Rightarrow> b x | JInt x \<Rightarrow> c x | JStr x \<Rightarrow> f x | JArr x \<Rightarrow> g x | JObj x \<Rightarrow> h x)"
  by (cases v) simp_all

lemma quiet_writes [keeps_rules]: "quiet (save_probe run ob ty ac)" "quiet (save_delegated_jobs run v)" "quiet (recovery_adapter t r)"
  unfolding save_probe_def save_delegated_jobs_def save_job_def recovery_adapter_def by (intro keeps_rules quiet_append)+

lemma quiet_phases [keeps_rules]:
  "quiet (phase_fence cp ad t r actor lease s)" "quiet (phase_stop cp ad t r actor lease s)"
  "quiet (phase_discover cp ad t r actor lease s)" "quiet (phase_probing t r actor s)"
  unfolding phase_fence_def phase_stop_def phase_discover_def phase_probing_def
  by (cases s; simp; intro conjI impI keeps_rules quiet_transition)+

lemma quiet_probe_loop [keeps_rules]: "quiet (probe_loop cp ad r lease run kinds ex)"
  by (induction kinds arbitrary: ex) (auto intro!: keeps_rules quiet_expire)

lemma quiet_orchestrate: "quiet (orchestrate cp t r actor ad recovering lease)"
proof -
  have "quiet (run_probes cp ad t r actor l s)" for l s
    unfolding run_probes_def complete_shutdown_def
    by (cases s; simp; intro conjI impI keeps_rules quiet_transition quiet_finish)
  then show ?thesis
    unfolding orchestrate_def orchestrate_body_def orchestrate_failed_def
    by (intro keeps_rules quiet_claim quiet_append quiet_expire quiet_transition)
qed

text \<open>A thread that works on the run and has its lease is queued.\<close>

definition leased :: "string \<Rightarrow> string \<Rightarrow> thread list \<Rightarrow> bool" where
  "leased t r ts \<longleftrightarrow> (\<exists>th \<in> set ts. th_tenant_id th = t \<and> th_run_id th = r \<and> th_lease_owner th \<noteq> None)"

lemma keeps_quiet: "quiet m \<Longrightarrow> keeps (\<lambda>d ts. P ts) m"
  by (simp add: keeps_iff quiet_def)

lemma keeps_leased: "keeps (\<lambda>d ts. leased t r ts) (recover_run cp asynchronous x c)"
proof -
  have start: "keeps (\<lambda>d ts. leased t r ts) (start_thread th)" for th
    by (rule keeps_start_thread) (auto simp: leased_def)
  show ?thesis unfolding recover_run_def
    by (intro keeps_bnd keeps_seq keeps_case_option keeps_if keeps_ret start
        keeps_quiet [OF quiet_reads(3)] keeps_quiet [OF quiet_claim] keeps_quiet [OF quiet_expire]
        keeps_quiet [OF quiet_writes(3)] keeps_quiet [OF quiet_orchestrate])
qed

lemma recover_run_serves:
  assumes ad: "shutdown_adapter (cp_adapter cp)" and req: "requested (rn_tenant_id x) (rn_run_id x) d0"
  shows "hoare (on (ok (\<lambda>_. True) d0)) (recover_run cp asynchronous x c)
     (\<lambda>c' w. on (ok (\<lambda>_. True) d0) w \<and> rec_busy c \<le> rec_busy c' \<and>
        (rec_busy c' = rec_busy c \<longrightarrow> over (rn_tenant_id x) (rn_run_id x) (w_db w) \<or>
           asynchronous \<and> leased (rn_tenant_id x) (rn_run_id x) (w_threads w)))
     (\<lambda>_. on (ok (\<lambda>_. True) d0))"
proof -
  let ?t = "rn_tenant_id x" and ?r = "rn_run_id x"
  let ?V = "on (ok (\<lambda>_. True) d0)"
  let ?O = "\<lambda>w. ?V w \<and> (over ?t ?r (w_db w) \<or> asynchronous \<and> leased ?t ?r (w_threads w))"
  let ?Q = "\<lambda>c' w. ?V w \<and> rec_busy c \<le> rec_busy c' \<and>
      (rec_busy c' = rec_busy c \<longrightarrow> over ?t ?r (w_db w) \<or> asynchronous \<and> leased ?t ?r (w_threads w))"
  have count: "hoare ?O (ret (f c)) ?Q E" if "rec_busy (f c) = rec_busy c" for f E
    using that by (simp add: hoare_def ret_def)
  have expire: "hoare ?V (expire_shutdown x l) (\<lambda>_. ?O) (\<lambda>_. ?V)" for l
    by (rule hoare_weaken [OF hoare_expire_unknown [OF _ req]]) (auto simp: names_def intro: overI)
  let ?th = "\<lambda>a l. \<lparr>th_tenant_id = ?t, th_run_id = ?r, th_actor = ''recovery-worker'', th_adapter = a, th_recovering = True,
                    th_lease_owner = Some l\<rparr>"
  have resume: "hoare ?V (if asynchronous then start_thread (?th a l)
      else orchestrate cp ?t ?r ''recovery-worker'' (resolve_adapter cp a) True (Some l)) (\<lambda>_. ?O) (\<lambda>_. ?V)" for a l
  proof (cases asynchronous)
    case True
    have "requested ?t ?r d" if "ok (\<lambda>_. True) d0 d ts" for d ts using ok_requested [OF that req] .
    then have "ok (\<lambda>_. True) d0 d (ts @ [?th a l])" if "ok (\<lambda>_. True) d0 d ts" for d ts
      using that by (auto simp: ok_def)
    then show ?thesis using True by (auto simp: hoare_def start_thread_def leased_def)
  next
    case False
    then show ?thesis
      by (simp only: if_False) (rule hoare_weaken [OF anything.hoare_orchestrate [OF resolve_adapter_ok [OF ad] req]], auto)
  qed
  have claimed: "hoare ?V (case lease of None \<Rightarrow> ret (c\<lparr>rec_busy := rec_busy c + 1\<rparr>) | Some l \<Rightarrow>
         if expired then seq (expire_shutdown x l) (ret (c\<lparr>rec_expired := rec_expired c + 1\<rparr>))
         else
           bnd (recovery_adapter ?t ?r) (\<lambda>adapter.
           seq (if asynchronous then start_thread (?th adapter l)
                else orchestrate cp ?t ?r ''recovery-worker'' (resolve_adapter cp adapter) True (Some l))
               (ret (c\<lparr>rec_resumed := rec_resumed c + 1\<rparr>)))) ?Q (\<lambda>_. ?V)" for lease expired
  proof (cases lease)
    case (Some l)
    have late: "hoare ?V (seq (expire_shutdown x l) (ret (c\<lparr>rec_expired := rec_expired c + 1\<rparr>))) ?Q (\<lambda>_. ?V)"
      by (rule hoare_seq [OF count expire]) simp
    have "hoare ?V (seq (if asynchronous then start_thread (?th a l)
         else orchestrate cp ?t ?r ''recovery-worker'' (resolve_adapter cp a) True (Some l))
         (ret (c\<lparr>rec_resumed := rec_resumed c + 1\<rparr>))) ?Q (\<lambda>_. ?V)" for a
      by (rule hoare_seq [OF count resume]) simp
    then have "hoare ?V (bnd (recovery_adapter ?t ?r) (\<lambda>adapter.
           seq (if asynchronous then start_thread (?th adapter l)
                else orchestrate cp ?t ?r ''recovery-worker'' (resolve_adapter cp adapter) True (Some l))
               (ret (c\<lparr>rec_resumed := rec_resumed c + 1\<rparr>)))) ?Q (\<lambda>_. ?V)"
      by (rule hoare_after_bnd [OF anything.keeps_recovery_adapter]) auto
    with late show ?thesis by (simp only: Some option.case split: if_split) simp
  qed (simp add: hoare_def ret_def)
  show ?thesis unfolding recover_run_def
    by (intro hoare_after_bnd [OF anything.keeps_deadline]
        hoare_after_bnd [OF anything.keeps_true [OF anything.keeps_claim]] claimed)
qed

lemma recover_runs_serve:
  assumes ad: "shutdown_adapter (cp_adapter cp)"
  shows "on (ok (\<lambda>_. True) d0) w \<Longrightarrow> \<forall>x \<in> set rows. requested (rn_tenant_id x) (rn_run_id x) d0 \<Longrightarrow>
    recover_runs cp asynchronous rows c w = (Inr c', w') \<Longrightarrow>
    run_le (w_db w) (w_db w') \<and> (\<forall>t r. leased t r (w_threads w) \<longrightarrow> leased t r (w_threads w')) \<and> rec_busy c \<le> rec_busy c' \<and>
    (rec_busy c' = rec_busy c \<longrightarrow> (\<forall>x \<in> set rows. over (rn_tenant_id x) (rn_run_id x) (w_db w') \<or>
       asynchronous \<and> leased (rn_tenant_id x) (rn_run_id x) (w_threads w')))"
proof (induction rows arbitrary: c w d0)
  case Nil
  then show ?case by (simp add: ret_def)
next
  case (Cons x rows)
  let ?done = "\<lambda>x v. over (rn_tenant_id x) (rn_run_id x) (w_db v) \<or> asynchronous \<and> leased (rn_tenant_id x) (rn_run_id x) (w_threads v)"
  from Cons.prems(3) obtain c1 w1 where first: "recover_run cp asynchronous x c w = (Inr c1, w1)"
    and rest: "recover_runs cp asynchronous rows c1 w1 = (Inr c', w')" by (auto simp: bnd_Inr)
  have ok: "on (ok (\<lambda>_. True) (w_db w)) w" using Cons.prems(1) by (rule ok_self)
  have req: "\<forall>x \<in> set (x # rows). requested (rn_tenant_id x) (rn_run_id x) (w_db w)"
    using Cons.prems(1,2) ok_requested by blast
  have 1: "on (ok (\<lambda>_. True) (w_db w)) w1" "rec_busy c \<le> rec_busy c1" "rec_busy c1 = rec_busy c \<longrightarrow> ?done x w1"
    using hoareD_Inr [OF recover_run_serves [OF ad, of x "w_db w"] ok first] req by auto
  have 2: "run_le (w_db w1) (w_db w')" "\<forall>t r. leased t r (w_threads w1) \<longrightarrow> leased t r (w_threads w')" "rec_busy c1 \<le> rec_busy c'"
      "rec_busy c' = rec_busy c1 \<longrightarrow> (\<forall>x \<in> set rows. ?done x w')"
    using Cons.IH [OF 1(1) _ rest] req by auto
  have "run_le (w_db w) (w_db w1)" using okD [OF 1(1)] by blast
  then have le: "run_le (w_db w) (w_db w')" using 2(1) run_le_trans by blast
  have threads: "\<forall>t r. leased t r (w_threads w) \<longrightarrow> leased t r (w_threads w')"
    using keepsD [OF keeps_leased, of _ _ w cp asynchronous x c] first 2(2) by auto
  have "\<forall>y \<in> set (x # rows). ?done y w'" if busy: "rec_busy c' = rec_busy c"
  proof -
    have eq: "rec_busy c1 = rec_busy c" "rec_busy c' = rec_busy c1" using busy 1(2) 2(3) by simp_all
    have "?done x w1" using 1(3) eq(1) by blast
    then have "?done x w'" using 2(2) over_le [OF _ 2(1)] by blast
    then show ?thesis using 2(4) eq(2) by simp
  qed
  then show ?case using le threads 1(2) 2(3) by simp
qed

text \<open>When the queued threads have run, a shutdown that one of them has the lease of is over.\<close>

lemma threads_end:
  assumes ad: "shutdown_adapter (cp_adapter cp)"
  shows "reachable cp pu w \<Longrightarrow> over t r (w_db w) \<or> leased t r (w_threads w) \<Longrightarrow>
    over t r (w_db (after_all cp pu (replicate (length (w_threads w)) (Run_Thread 0)) w))"
proof (induction "length (w_threads w)" arbitrary: w)
  case 0
  then show ?case by (simp add: leased_def)
next
  case (Suc n)
  then obtain th ts where ts: "w_threads w = th # ts" by (cases "w_threads w") auto
  let ?t = "th_tenant_id th" and ?r = "th_run_id th"
  let ?o = "orchestrate cp ?t ?r (th_actor th) (resolve_adapter cp (th_adapter th)) (th_recovering th) (th_lease_owner th)"
  let ?w = "after cp pu (Run_Thread 0) w"
  have run: "?w = snd (?o (w\<lparr>w_threads := ts\<rparr>))" by (simp add: after_def run_thread_def ts)
  then have left: "w_threads ?w = ts" using quiet_orchestrate by (simp add: quiet_def)
  have ok: "on (ok (\<lambda>_. True) (w_db w)) w" by (rule ok_anything [OF ad Suc.prems(1)])
  have le: "run_le (w_db w) (w_db ?w)" by (rule run_le_after [OF ad Suc.prems(1)])
  have own: "over ?t ?r (w_db ?w)" if l: "th_lease_owner th = Some l" for l
  proof -
    have "requested ?t ?r (w_db w)" "on (ok (\<lambda>_. True) (w_db w)) (w\<lparr>w_threads := ts\<rparr>)" using ok by (simp_all add: ok_def ts)
    from hoare_total [OF anything.hoare_orchestrate [OF resolve_adapter_ok [OF ad] this(1)] this(2)] l run
    show ?thesis by (metis snd_conv)
  qed
  have "over t r (w_db ?w) \<or> leased t r (w_threads ?w)"
    using Suc.prems(2) over_le [OF _ le] own unfolding left ts leased_def by auto
  moreover have "n = length (w_threads ?w)" using Suc.hyps(2) by (simp add: left ts)
  ultimately have "over t r (w_db (after_all cp pu (replicate (length (w_threads ?w)) (Run_Thread 0)) ?w))"
    using Suc.hyps(1) reachable.call [OF Suc.prems(1)] by blast
  then show ?case by (simp add: left ts)
qed

text \<open>
  C6. A pass of the recovery worker that returns without meeting a busy lease leaves no
  shutdown unattended: every run whose shutdown was requested before is in a terminal state, or,
  when the pass is asynchronous, a thread that has the lease of the run is queued; and when the
  queued threads have run, it is in a terminal state in any case.
\<close>

theorem recovery_leaves_nothing_unfinished:
  assumes "shutdown_adapter (cp_adapter cp)" and "reachable cp pu w"
    and "recover_incomplete_shutdowns cp asynchronous w = (Inr c, w')" and "rec_busy c = 0"
    and "find_run t r (w_db w) = Some x" and "rn_shutdown_requested_at x \<noteq> None"
  shows "(\<exists>y. find_run t r (w_db w') = Some y \<and>
       (terminal (rn_state y) \<or> asynchronous \<and>
          (\<exists>th \<in> set (w_threads w'). th_tenant_id th = t \<and> th_run_id th = r \<and> th_lease_owner th \<noteq> None))) \<and>
    (\<exists>y. find_run t r (w_db (after_all cp pu (replicate (length (w_threads w')) (Run_Thread 0)) w')) = Some y \<and>
       terminal (rn_state y))"
proof -
  have ok: "on (ok (\<lambda>_. True) (w_db w)) w" by (rule ok_anything [OF assms(1,2)])
  have wf: "wf_db (w_db w)" by (rule wf_reachable [OF assms(1,2)])
  let ?c = "\<lparr>rec_resumed = 0, rec_expired = 0, rec_busy = 0\<rparr>"
  have run: "recover_runs cp asynchronous (incomplete_runs (w_db w)) ?c w = (Inr c, w')"
    using assms(3) by (simp add: recover_incomplete_shutdowns_def m_exec)
  have "\<forall>x \<in> set (incomplete_runs (w_db w)). requested (rn_tenant_id x) (rn_run_id x) (w_db w)"
    using wf by (auto simp: incomplete_runs_def requested_def dest: find_run_member)
  from recover_runs_serve [OF assms(1) ok this run] assms(4)
  have fin: "run_le (w_db w) (w_db w')" "\<forall>x \<in> set (incomplete_runs (w_db w)). over (rn_tenant_id x) (rn_run_id x) (w_db w') \<or>
      asynchronous \<and> leased (rn_tenant_id x) (rn_run_id x) (w_threads w')"
    by auto
  have x: "x \<in> set (runs (w_db w))" "rn_tenant_id x = t" "rn_run_id x = r" using find_run_Some [OF assms(5)] by simp_all
  have served: "over t r (w_db w') \<or> asynchronous \<and> leased t r (w_threads w')"
  proof (cases "terminal (rn_state x)")
    case True
    then have "over t r (w_db w)" using assms(5) by (auto simp: over_def in_state_def)
    then show ?thesis using fin(1) by (blast intro: over_le)
  next
    case False
    then have "x \<in> set (incomplete_runs (w_db w))" using x(1) assms(6) by (simp add: incomplete_runs_def)
    then show ?thesis using fin(2) x by blast
  qed
  have "after cp pu (Recover_Incomplete asynchronous) w = w'"
    using assms(3) by (simp add: after_def snd_forget)
  then have "reachable cp pu w'" using reachable.call [OF assms(2)] by metis
  then have "over t r (w_db (after_all cp pu (replicate (length (w_threads w')) (Run_Thread 0)) w'))"
    using served by (intro threads_end [OF assms(1)]) auto
  moreover obtain y where "find_run t r (w_db w') = Some y" using fin(1) assms(5) unfolding run_le_def by blast
  ultimately show ?thesis using served by (auto simp: over_def in_state_def leased_def)
qed

definition leased_work :: work_row where
  "leased_work = take_lease ''worker:5'' 38000000 7000000 (new_work ''1'' ''t'' 3000000)"

lemma claim0: "claim_shutdown_work example_plane ''t'' ''1'' (moment 7 5 [thread0] (db3 64000000)) =
   (Inr (Some ''worker:5''), moment 9 6 [thread0] ((db3 64000000)\<lparr>shutdown_works := [leased_work]\<rparr>))"
  by (simp add: claim_shutdown_work_def m_defs db3_sel insert_or_ignore_work_def claimable_def new_work_def take_lease_def
      leased_work_def plus_seconds_def plus_us_def example_plane_def min_instant_def max_instant_def sql_update_def decs Let_def)

definition recovering0 :: thread where
  "recovering0 = \<lparr>th_tenant_id = ''t'', th_run_id = ''1'', th_actor = ''recovery-worker'', th_adapter = ConfiguredAdapter,
     th_recovering = True, th_lease_owner = Some ''worker:5''\<rparr>"

lemma recover0: "recover_incomplete_shutdowns example_plane True requested0 =
   (Inr \<lparr>rec_resumed = 1, rec_expired = 0, rec_busy = 0\<rparr>,
    moment 9 6 [thread0, recovering0] ((db3 64000000)\<lparr>shutdown_works := [leased_work]\<rparr>))"
proof -
  have "incomplete_runs (db3 64000000) = [run1 64000000]" by (simp add: incomplete_runs_def db3_sel)
  moreover have "drills (db3 64000000) = []" by (simp add: db3_def db2_def db1_def new_store_def append_rows_def)
  ultimately show ?thesis
    by (simp add: recover_incomplete_shutdowns_def requested0_def recover_run_def deadline_expired_def run1_sel m_defs
        claim0 [simplified] recovery_adapter_def recovering0_def)
qed

theorem recovery_leaves_nothing_unfinished_witness:
  "\<exists>w' y. recover_incomplete_shutdowns example_plane True requested0 =
       (Inr \<lparr>rec_resumed = 1, rec_expired = 0, rec_busy = 0\<rparr>, w') \<and> length (w_threads w') = 2 \<and>
     find_run ''t'' ''1'' (w_db (after_all example_plane example_publisher [Run_Thread 0, Run_Thread 0] w')) = Some y \<and>
     terminal (rn_state y)"
proof -
  have "(1 :: nat) + 1 = 2" by simp
  from recovery_leaves_nothing_unfinished [OF example_adapter(1) reachable_requested0 [of example_publisher] recover0,
      where t = "''t''" and r = "''1''" and x = "run1 64000000", THEN conjunct2]
  show ?thesis using recover0 by (simp add: find_run1 numeral_2_eq_2)
qed

end
