(* ===== verification/Success.thy ===== *)
theory Success
  imports Liveness
begin

text \<open>
  The way to \<open>VERIFIED\<close>: with an adapter that accepts every request and passes every probe,
  new ids and a clock before the deadline, \<open>_orchestrate\<close> takes a requested run, from whatever
  state a crash left it in, to \<open>VERIFIED\<close>; the example crashes in every phase and is resumed.
\<close>

section \<open>What the orchestrator needs\<close>

text \<open>An adapter that accepts, finds no children, and passes every probe.\<close>

definition willing :: "adapter \<Rightarrow> bool" where
  "willing ad \<longleftrightarrow> (\<forall>run x.
     (\<exists>v. fst (ad_fence ad run x) = Inr v) \<and> (\<exists>v. fst (ad_stop_process ad run x) = Inr v) \<and>
     (\<exists>v. fst (ad_discover_children ad run x) = Inr v \<and> dict_get v ''children'' \<in> {None, Some (JArr [])}) \<and>
     (\<forall>k \<in> set PROBE_KINDS. \<exists>ob. fst (ad_probe ad k run x) = Inr ob \<and> obs_kind ob = k \<and> obs_result ob = PASS))"

text \<open>The ids to come are new, and the next \<open>n\<close> readings of the clock are before the deadline.\<close>

definition fresh_ids :: "world \<Rightarrow> bool" where
  "fresh_ids w \<longleftrightarrow> (\<forall>i \<ge> w_uuids w.
     (\<forall>e \<in> set (evidences (w_db w)). ev_evidence_id e \<noteq> w_uuid_src w i) \<and> \<not> has_event (w_uuid_src w i) (w_db w) \<and>
     (\<forall>p \<in> set (probes (w_db w)). pb_probe_id p \<noteq> w_uuid_src w i) \<and>
     (\<forall>j > i. w_uuid_src w j \<noteq> w_uuid_src w i))"

definition timely :: "control_plane \<Rightarrow> instant \<Rightarrow> nat \<Rightarrow> world \<Rightarrow> bool" where
  "timely cp deadline n w \<longleftrightarrow> (\<forall>i < n. w_clock w (w_ticks w + i) < deadline \<and>
     (\<exists>u. plus_seconds (w_clock w (w_ticks w + i)) (cp_recovery_lease_seconds cp) = Inr u))"

text \<open>The stored rows: the run with its readable agent, its evidence, and no probe of it but passed ones.\<close>

definition on_course :: "string \<Rightarrow> string \<Rightarrow> instant \<Rightarrow> shutdown_state \<Rightarrow> db \<Rightarrow> bool" where
  "on_course t r deadline st d \<longleftrightarrow>
     (\<exists>x a a'. find_run t r d = Some x \<and> rn_state x = st \<and> rn_deadline_at x = Some deadline \<and>
        find_agent t (rn_agent_id x) d = Some a \<and> load_agent a = Inr a') \<and>
     ledger_inv d \<and> (\<forall>e \<in> set (evidences d). ev_run_id e = r \<longrightarrow> ev_tenant_id e = t) \<and> wf_db d \<and>
     (\<forall>p \<in> set (probes d). pb_tenant_id p = t \<longrightarrow> pb_run_id p = r \<longrightarrow> pb_result p = PASS)"

abbreviation live :: "control_plane \<Rightarrow> string \<Rightarrow> string \<Rightarrow> instant \<Rightarrow> shutdown_state \<Rightarrow> nat \<Rightarrow> world \<Rightarrow> bool" where
  "live cp t r deadline st n w \<equiv> on_course t r deadline st (w_db w) \<and> fresh_ids w \<and> timely cp deadline n w"

text \<open>An operation that succeeds.\<close>

abbreviation sure :: "(world \<Rightarrow> bool) \<Rightarrow> 'a m \<Rightarrow> ('a \<Rightarrow> world \<Rightarrow> bool) \<Rightarrow> bool" where
  "sure P m Q \<equiv> hoare P m Q (\<lambda>_ _. False)"

lemma sureI: "(\<And>w. P w \<Longrightarrow> \<exists>x w'. m w = (Inr x, w') \<and> Q x w') \<Longrightarrow> sure P m Q"
  by (force simp: hoare_def)

lemma sure_bnd: "sure P m R \<Longrightarrow> (\<And>x. sure (R x) (f x) Q) \<Longrightarrow> sure P (bnd m f) Q"
  by (rule hoare_bnd)

lemma sure_seq: "sure P m (\<lambda>_. R) \<Longrightarrow> sure R k Q \<Longrightarrow> sure P (seq m k) Q"
  by (rule hoare_seq)

lemma sure_know: "(\<And>w. P w \<Longrightarrow> b) \<Longrightarrow> (b \<Longrightarrow> sure P m Q) \<Longrightarrow> sure P m Q"
  by (auto simp: hoare_def)

lemma sure_unless: "sure P m Q \<Longrightarrow> sure (\<lambda>w. P w \<and> \<not> b) (if b then m' else m) Q"
  by (simp add: hoare_def)

lemma timelyD:
  assumes "timely cp dl (Suc n) w"
  shows "w_clock w (w_ticks w) < dl" and "\<exists>u. plus_seconds (w_clock w (w_ticks w)) (cp_recovery_lease_seconds cp) = Inr u"
    and "timely cp dl n (w\<lparr>w_ticks := Suc (w_ticks w)\<rparr>)"
  using assms unfolding timely_def by (force dest: spec [where x = 0], force dest: spec [where x = 0], force)

lemma timely_cong [simp]:
  "timely cp dl n (w\<lparr>w_db := d\<rparr>) = timely cp dl n w" "timely cp dl n (w\<lparr>w_uuids := u\<rparr>) = timely cp dl n w"
  "timely cp dl n (w\<lparr>w_ext := x\<rparr>) = timely cp dl n w"
  by (simp_all add: timely_def)

lemma fresh_cong [simp]:
  "fresh_ids (w\<lparr>w_ticks := n\<rparr>) = fresh_ids w" "fresh_ids (w\<lparr>w_ext := x\<rparr>) = fresh_ids w"
  by (simp_all add: fresh_ids_def)

lemma fresh_db:
  "evidences d = evidences (w_db w) \<Longrightarrow> event_outbox d = event_outbox (w_db w) \<Longrightarrow> probes d = probes (w_db w) \<Longrightarrow>
     fresh_ids (w\<lparr>w_db := d\<rparr>) = fresh_ids w"
  by (simp add: fresh_ids_def has_event_def)

lemma fresh_next: "fresh_ids w \<Longrightarrow> fresh_ids (w\<lparr>w_uuids := Suc (w_uuids w)\<rparr>)"
  by (simp add: fresh_ids_def)

lemma fresh_other: "fresh_ids w \<Longrightarrow> Suc (w_uuids w) \<le> i \<Longrightarrow> w_uuid_src w (w_uuids w) \<noteq> w_uuid_src w i"
  unfolding fresh_ids_def by (metis Suc_le_eq order_refl)

section \<open>Single steps\<close>

lemma on_course_works: "on_course t r dl st (d\<lparr>shutdown_works := ws\<rparr>) = on_course t r dl st d"
  by (simp add: on_course_def find_run_def find_agent_def wf_db_def ledger_inv_def)

lemma sure_renew: "sure (live cp t r dl st (n + 2)) (renew_shutdown_lease cp r' lease) (\<lambda>_. live cp t r dl st n)"
proof (rule sureI)
  fix w assume l: "live cp t r dl st (n + 2) w"
  then have t1: "timely cp dl (Suc (Suc n)) w" by simp
  obtain u where u: "plus_seconds (w_clock w (w_ticks w)) (cp_recovery_lease_seconds cp) = Inr u"
    using timelyD(2) [OF t1] by blast
  show "\<exists>x w'. renew_shutdown_lease cp r' lease w = (Inr x, w') \<and> live cp t r dl st n w'"
    using l u timelyD(3) [OF timelyD(3) [OF t1]]
    by (simp add: renew_shutdown_lease_def m_defs on_course_works fresh_db)
qed

lemma sure_finish: "sure (live cp t r dl st (n + 1)) (finish_shutdown_work r' lease) (\<lambda>_. live cp t r dl st n)"
proof (rule sureI)
  fix w assume l: "live cp t r dl st (n + 1) w"
  then have t1: "timely cp dl (Suc n) w" by simp
  show "\<exists>x w'. finish_shutdown_work r' lease w = (Inr x, w') \<and> live cp t r dl st n w'"
    using l timelyD(3) [OF t1] by (simp add: finish_shutdown_work_def m_defs on_course_works fresh_db)
qed

lemma sure_ext:
  assumes "\<And>x. \<exists>v. fst (f x) = Inr v \<and> good v"
  shows "sure (live cp t r dl st n) (lift_ext f) (\<lambda>v w. live cp t r dl st n w \<and> good v)"
proof (rule sureI)
  fix w assume l: "live cp t r dl st n w"
  obtain v x where "f (w_ext w) = (Inr v, x)" "good v" using assms [of "w_ext w"] by (metis prod.collapse)
  then show "\<exists>y w'. lift_ext f w = (Inr y, w') \<and> live cp t r dl st n w' \<and> good y"
    using l by (simp add: lift_ext_def)
qed

lemma sure_expired:
  assumes "rn_deadline_at run = Some dl"
  shows "sure (live cp t r dl st (n + 1)) (deadline_expired run) (\<lambda>b w. live cp t r dl st n w \<and> \<not> b)"
proof (rule sureI)
  fix w assume l: "live cp t r dl st (n + 1) w"
  then have t1: "timely cp dl (Suc n) w" by simp
  show "\<exists>b w'. deadline_expired run w = (Inr b, w') \<and> live cp t r dl st n w' \<and> \<not> b"
    using l assms timelyD(1,3) [OF t1] by (auto simp: deadline_expired_def m_defs)
qed

lemma chained_below: "chained n prev rs \<Longrightarrow> e \<in> set rs \<Longrightarrow> ev_sequence_no e < n + int (length rs)"
  by (induction rs arbitrary: n prev) fastforce+

lemma on_course_append:
  assumes "on_course t r dl st d" and "appendable rec x d" and "ev_tenant_id rec = t"
  shows "on_course t r dl st (append_rows rec x d)"
proof -
  have "ledger_inv (append_rows rec x d)" using ledger_inv_append assms(1,2) by (simp add: on_course_def)
  moreover have "\<not> has_event (ev_evidence_id rec) d" using assms(2) by (simp add: appendable_def)
  then have "wf_db (append_rows rec x d)"
    using assms(1) by (auto simp: on_course_def wf_db_def append_rows_def outbox_event_def has_event_def)
  ultimately show ?thesis
    using assms(1,3) by (simp add: on_course_def append_rows_def find_run_def find_agent_def)
qed

text \<open>The next record of a run goes in: its number is above those of the run, its id is new.\<close>

lemma sure_append:
  assumes "rn_tenant_id run = t" and "rn_run_id run = r"
  shows "sure (live cp t r dl st (n + 1)) (append_event run ty pl ac) (\<lambda>_. live cp t r dl st n)"
proof (rule sureI)
  fix w assume l: "live cp t r dl st (n + 1) w"
  then have t1: "timely cp dl (Suc n) w" by simp
  let ?d = "w_db w"
  define rec where "rec = new_record (last_evidence t r ?d) (w_uuid_src w (w_uuids w)) (w_clock w (w_ticks w)) t r ty pl ac
     (rn_policy_version run) (rn_correlation_id run)"
  obtain x where x: "find_run t r ?d = Some x" using l by (auto simp: on_course_def)
  have inv: "ledger_inv ?d" and own: "\<forall>e \<in> set (evidences ?d). ev_run_id e = r \<longrightarrow> ev_tenant_id e = t"
    using l by (simp_all add: on_course_def)
  have id: "ev_evidence_id rec = w_uuid_src w (w_uuids w)" "ev_tenant_id rec = t" "ev_run_id rec = r"
    by (simp_all add: rec_def)
  have new: "\<forall>e \<in> set (evidences ?d). ev_evidence_id e \<noteq> ev_evidence_id rec" "\<not> has_event (ev_evidence_id rec) ?d"
    using l by (auto simp: id fresh_ids_def)
  have app: "appendable rec x ?d"
    using x new unfolding appendable_def id by (simp add: rec_def)
  have ch: "chained 1 GENESIS_HASH (filter (of_run t r) (evidences ?d) @ [stored rec])"
    using appendable_next [OF inv app] by (simp add: id)
  have "ev_sequence_no e \<noteq> ev_sequence_no rec" if e: "e \<in> set (evidences ?d)" "ev_run_id e = r" for e
  proof -
    have "e \<in> set (filter (of_run t r) (evidences ?d))" using e own by (simp add: of_run_def)
    then show ?thesis using chained_below [OF ch [unfolded chained_snoc, THEN conjunct1]] ch [unfolded chained_snoc] by fastforce
  qed
  then have run: "ledger_append t r ty pl ac (rn_policy_version run) (rn_correlation_id run) w =
     (Inr rec, w\<lparr>w_db := append_rows rec x ?d, w_ticks := Suc (w_ticks w), w_uuids := Suc (w_uuids w)\<rparr>)"
    using ledger_append_runs [OF x rec_def new(1) _ new(2)] by (simp add: append_rows_def)
  have "on_course t r dl st (append_rows rec x ?d)"
    using l id(2) by (intro on_course_append [OF _ app]) auto
  moreover have "fresh_ids (w\<lparr>w_db := append_rows rec x ?d, w_uuids := Suc (w_uuids w)\<rparr>)"
    using l fresh_other [of w] id(1) by (fastforce simp: fresh_ids_def append_rows_def has_event_def outbox_event_def stored_def)
  ultimately show "\<exists>y w'. append_event run ty pl ac w = (Inr y, w') \<and> live cp t r dl st n w'"
    using run assms timelyD(3) [OF t1] by (simp add: append_event_def bnd_def ret_def fresh_ids_def timely_def)
qed

lemma on_course_set_state:
  assumes "on_course t r dl st d" and "edge st st'" and "st \<noteq> RUNNING" and "terminal st' \<longleftrightarrow> stop \<noteq> None"
  shows "on_course t r dl st' (set_state t r st' stop d)"
proof -
  let ?f = "\<lambda>x. x\<lparr>rn_state := st', rn_stopped_at := (case stop of None \<Rightarrow> rn_stopped_at x | Some t \<Rightarrow> Some t)\<rparr>"
  have "set_state t r st' stop d = update_run t r ?f d" by (simp add: set_state_def update_run_def)
  then have "find_run t r (set_state t r st' stop d) = map_option ?f (find_run t r d)"
    by (simp add: find_update_run)
  moreover have "wf_db (set_state t r st' stop d)"
    using assms by (intro le_set_state [THEN conjunct1]) (auto simp: on_course_def in_state_def)
  ultimately show ?thesis
    using assms(1) by (auto simp: on_course_def find_agent_def ledger_inv_def set_state_def)
qed

lemma sure_set_state:
  assumes "edge st st'" and "st \<noteq> RUNNING" and "terminal st' \<longleftrightarrow> stop \<noteq> None"
  shows "sure (live cp t r dl st n) (transaction (exec (set_state t r st' stop))) (\<lambda>_. live cp t r dl st' n)"
proof (rule sureI)
  fix w assume "live cp t r dl st n w"
  then show "\<exists>x w'. transaction (exec (set_state t r st' stop)) w = (Inr x, w') \<and> live cp t r dl st' n w'"
    using on_course_set_state [OF _ assms] fresh_db [of "set_state t r st' stop (w_db w)" w]
    by (simp add: transaction_def exec_def set_state_def)
qed

lemma sure_transition:
  assumes "edge st st'" and "st \<noteq> RUNNING" and "terminal st' \<longleftrightarrow> stopped" and "rn_tenant_id run = t" and "rn_run_id run = r"
  shows "sure (live cp t r dl st (n + 2)) (transition run st' ty pl ac stopped) (\<lambda>_. live cp t r dl st' n)"
proof -
  have stop: "sure (live cp t r dl st (n + 2)) (if stopped then bnd utc_now (\<lambda>t. ret (Some t)) else ret None)
     (\<lambda>s w. live cp t r dl st (n + 1) w \<and> (stopped \<longleftrightarrow> s \<noteq> None))"
  proof (rule sureI)
    fix w assume l: "live cp t r dl st (n + 2) w"
    then have "timely cp dl (Suc (n + 1)) w" and "timely cp dl (n + 1) w" by (simp_all add: timely_def)
    then show "\<exists>s w'. (if stopped then bnd utc_now (\<lambda>t. ret (Some t)) else ret None) w = (Inr s, w') \<and>
       live cp t r dl st (n + 1) w' \<and> (stopped \<longleftrightarrow> s \<noteq> None)"
      using l timelyD(3) by (auto simp: m_defs)
  qed
  show ?thesis unfolding transition_def
  proof (rule sure_bnd [OF stop])
    fix s
    show "sure (\<lambda>w. live cp t r dl st (n + 1) w \<and> (stopped \<longleftrightarrow> s \<noteq> None))
       (seq (transaction (exec (set_state (rn_tenant_id run) (rn_run_id run) st' s)))
         (append_event run ty (dict_merge [(''state'', JStr (state_value st'))] pl) ac)) (\<lambda>_. live cp t r dl st' n)"
      unfolding assms(4,5)
      by (rule sure_know [where b = "stopped \<longleftrightarrow> s \<noteq> None"], blast,
          rule sure_seq [OF hoare_pre [OF sure_set_state [OF assms(1,2)]] sure_append [OF assms(4,5)]])
         (use assms(3) in auto)
  qed
qed

text \<open>The run as the adapter sees it.\<close>

definition seen :: "string \<Rightarrow> string \<Rightarrow> instant \<Rightarrow> shutdown_state \<Rightarrow> 'a run_view_scheme \<Rightarrow> bool" where
  "seen t r dl st run \<longleftrightarrow> rn_tenant_id run = t \<and> rn_run_id run = r \<and> rn_deadline_at run = Some dl \<and> rn_state run = st \<and>
     (\<forall>p \<in> set (rv_probes run). pb_result p = PASS)"

lemma collect_every: "(\<And>x. x \<in> set xs \<Longrightarrow> \<exists>y. f x = Inr y \<and> good y) \<Longrightarrow> \<exists>ys. collect f xs = Inr ys \<and> (\<forall>y \<in> set ys. good y)"
  by (induction xs) fastforce+

lemma sure_get_run: "sure (live cp t r dl st n) (get_run t r) (\<lambda>run w. live cp t r dl st n w \<and> seen t r dl st run)"
proof (rule sureI)
  fix w assume l: "live cp t r dl st n w"
  obtain x where x: "find_run t r (w_db w) = Some x" "rn_state x = st" "rn_deadline_at x = Some dl"
    using l by (auto simp: on_course_def)
  have "\<exists>ps. collect load_probe (select_probes t r (w_db w)) = Inr ps \<and> (\<forall>p \<in> set ps. pb_result p = PASS)"
  proof (rule collect_every)
    fix p assume "p \<in> set (select_probes t r (w_db w))"
    then have "pb_result p = PASS" "loads (pb_observed p) \<noteq> None"
      using l by (auto simp: select_probes_def on_course_def wf_db_def)
    then show "\<exists>q. load_probe p = Inr q \<and> pb_result q = PASS" by (auto simp: load_probe_def py_loads_def)
  qed
  then obtain ps where "collect load_probe (select_probes t r (w_db w)) = Inr ps" "\<forall>p \<in> set ps. pb_result p = PASS"
    by blast
  then show "\<exists>run w'. get_run t r w = (Inr run, w') \<and> live cp t r dl st n w' \<and> seen t r dl st run"
    using l x find_run_Some [OF x(1)] by (simp add: get_run_def m_exec lift_def seen_def)
qed

lemma sure_adapter_run:
  "sure (live cp t r dl st n) (adapter_run_of t r) (\<lambda>run w. live cp t r dl st n w \<and> seen t r dl st run)"
proof (rule sureI)
  fix w assume l: "live cp t r dl st n w"
  obtain run where run: "get_run t r w = (Inr run, w)" "seen t r dl st run"
    using hoare_total [OF sure_get_run l] get_run_Inr(1) by metis
  obtain x a a' where x: "find_run t r (w_db w) = Some x" "find_agent t (rn_agent_id x) (w_db w) = Some a" "load_agent a = Inr a'"
    using l by (auto simp: on_course_def)
  have "rn_agent_id run = rn_agent_id x" using get_run_Inr(2) [OF run(1)] x(1) by auto
  then show "\<exists>run w'. adapter_run_of t r w = (Inr run, w') \<and> live cp t r dl st n w' \<and> seen t r dl st run"
    using l run x by (simp add: adapter_run_of_def bnd_def ret_def get_agent_def m_exec lift_def seen_def)
qed

section \<open>The phases\<close>

definition stages :: "shutdown_state list" where
  "stages = [REQUESTED, FENCING, PROCESS_STOP_SENT, CHILD_DISCOVERY, PROBING]"

text \<open>The run in hand is the stored one, in one of the states from the \<open>k\<close>-th on.\<close>

definition staged :: "control_plane \<Rightarrow> string \<Rightarrow> string \<Rightarrow> instant \<Rightarrow> nat \<Rightarrow> nat \<Rightarrow> adapter_run \<times> shutdown_state \<Rightarrow> world \<Rightarrow> bool" where
  "staged cp t r dl k n s w \<longleftrightarrow>
     live cp t r dl (snd s) n w \<and> seen t r dl (snd s) (fst s) \<and> snd s \<in> set (drop k stages)"

lemma timely_less: "timely cp dl n w \<Longrightarrow> m \<le> n \<Longrightarrow> timely cp dl m w"
  by (simp add: timely_def)

lemma staged_skip:
  "snd s \<noteq> stages ! k \<Longrightarrow> k < 5 \<Longrightarrow> staged cp t r dl k (n + m) s w \<Longrightarrow> staged cp t r dl (Suc k) n s w"
  using timely_less [of cp dl "n + m" w n] Cons_nth_drop_Suc [of k stages, symmetric]
  by (auto simp: staged_def stages_def)

text \<open>Moving on: the transition is stored and the run read back.\<close>

lemma sure_advance:
  assumes "edge st st'" and "st \<noteq> RUNNING" and "\<not> terminal st'" and "st' \<in> set (drop k stages)" and "seen t r dl st run"
  shows "sure (live cp t r dl st (n + 2))
     (seq (transition run st' ty pl ac False) (bnd (adapter_run_of t r) (\<lambda>run'. ret (run', st')))) (staged cp t r dl k n)"
  by (rule sure_seq [OF sure_transition sure_bnd [OF sure_adapter_run]])
     (use assms in \<open>auto simp: seen_def staged_def hoare_def ret_def\<close>)

lemma sure_staged:
  assumes "k < 5" and "\<And>run. seen t r dl (stages ! k) run \<Longrightarrow>
      sure (live cp t r dl (stages ! k) (n + m)) (f (run, stages ! k)) (staged cp t r dl (Suc k) n)"
    and "\<And>run st. st \<noteq> stages ! k \<Longrightarrow> f (run, st) = ret (run, st)"
  shows "sure (staged cp t r dl k (n + m) s) (f s) (staged cp t r dl (Suc k) n)"
proof (cases "snd s = stages ! k")
  case True
  show ?thesis
  proof (rule sure_know [where b = "seen t r dl (stages ! k) (fst s)"])
    show "seen t r dl (stages ! k) (fst s)" if "staged cp t r dl k (n + m) s w" for w
      using that True by (simp add: staged_def)
  next
    assume "seen t r dl (stages ! k) (fst s)"
    then have "sure (live cp t r dl (stages ! k) (n + m)) (f s) (staged cp t r dl (Suc k) n)"
      using assms(2) True by (metis prod.collapse)
    then show "sure (staged cp t r dl k (n + m) s) (f s) (staged cp t r dl (Suc k) n)"
      by (rule hoare_pre) (use True in \<open>simp add: staged_def\<close>)
  qed
next
  case False
  then have "f s = ret s" using assms(3) by (metis prod.collapse)
  then show ?thesis
    using staged_skip [OF False assms(1)] by (auto simp: hoare_def ret_def)
qed

lemma sure_phase_fence:
  assumes "willing ad"
  shows "sure (staged cp t r dl 0 (n + 4) s) (phase_fence cp ad t r actor lease s) (staged cp t r dl 1 n)"
  unfolding One_nat_def
proof (rule sure_staged)
  fix run :: adapter_run assume seen: "seen t r dl (stages ! 0) run"
  have go: "sure (live cp t r dl REQUESTED (n + 2 + 2))
     (seq (renew_shutdown_lease cp r lease) (bnd (lift_ext (ad_fence ad run)) (\<lambda>result.
       seq (transition run FENCING ''shutdown.fenced'' result actor False)
      (bnd (adapter_run_of t r) (\<lambda>run'. ret (run', FENCING)))))) (staged cp t r dl (Suc 0) n)"
    by (rule sure_seq [OF sure_renew sure_bnd [OF sure_ext [where good = "\<lambda>_. True"] hoare_pre [OF sure_advance]]])
       (use assms seen in \<open>auto simp: willing_def stages_def terminal_iff intro: edge.intros\<close>)
  then show "sure (live cp t r dl (stages ! 0) (n + 4)) (phase_fence cp ad t r actor lease (run, stages ! 0))
      (staged cp t r dl (Suc 0) n)"
    by (simp add: phase_fence_def stages_def numeral_eq_Suc)
qed (auto simp: phase_fence_def stages_def)

lemma sure_phase_stop:
  assumes "willing ad"
  shows "sure (staged cp t r dl 1 (n + 4) s) (phase_stop cp ad t r actor lease s) (staged cp t r dl 2 n)"
  unfolding One_nat_def numeral_2_eq_2
proof (rule sure_staged)
  fix run :: adapter_run assume seen: "seen t r dl (stages ! Suc 0) run"
  have "sure (live cp t r dl FENCING (n + 2 + 2))
     (seq (renew_shutdown_lease cp r lease) (bnd (lift_ext (ad_stop_process ad run)) (\<lambda>result.
       seq (transition run PROCESS_STOP_SENT ''shutdown.process.stop.sent'' result actor False)
      (bnd (adapter_run_of t r) (\<lambda>run'. ret (run', PROCESS_STOP_SENT)))))) (staged cp t r dl (Suc (Suc 0)) n)"
    by (rule sure_seq [OF sure_renew sure_bnd [OF sure_ext [where good = "\<lambda>_. True"] hoare_pre [OF sure_advance]]])
       (use assms seen in \<open>auto simp: willing_def stages_def terminal_iff intro: edge.intros\<close>)
  then show "sure (live cp t r dl (stages ! Suc 0) (n + 4)) (phase_stop cp ad t r actor lease (run, stages ! Suc 0))
      (staged cp t r dl (Suc (Suc 0)) n)"
    by (simp add: phase_stop_def stages_def numeral_eq_Suc)
qed (auto simp: phase_stop_def stages_def)

lemma save_no_jobs: "save_delegated_jobs run (JArr []) = ret ()"
  by (simp add: save_delegated_jobs_def fun_eq_iff m_exec lift_def transaction_def bnd_def ret_def)

lemma seq_ret: "seq (ret u) k = k"
  by (simp add: fun_eq_iff m_exec)

lemma sure_phase_discover:
  assumes "willing ad"
  shows "sure (staged cp t r dl 2 (n + 4) s) (phase_discover cp ad t r actor lease s) (staged cp t r dl 3 n)"
  unfolding numeral_2_eq_2 numeral_3_eq_3
proof (rule sure_staged)
  fix run :: adapter_run assume seen: "seen t r dl (stages ! Suc (Suc 0)) run"
  let ?good = "\<lambda>v. (case dict_get v ''children'' of None \<Rightarrow> JArr [] | Some c \<Rightarrow> c) = JArr []"
  have go: "sure (\<lambda>w. live cp t r dl PROCESS_STOP_SENT (n + 2) w \<and> ?good v)
     (seq (save_delegated_jobs run (case dict_get v ''children'' of None \<Rightarrow> JArr [] | Some c \<Rightarrow> c))
       (seq (transition run CHILD_DISCOVERY ''agent.child.discovered'' v actor False)
         (bnd (adapter_run_of t r) (\<lambda>run'. ret (run', CHILD_DISCOVERY))))) (staged cp t r dl (Suc (Suc (Suc 0))) n)" for v
    by (rule sure_know [where b = "?good v"], blast, simp add: save_no_jobs seq_ret, rule hoare_pre [OF sure_advance])
       (use seen in \<open>auto simp: stages_def terminal_iff intro: edge.intros\<close>)
  have "sure (live cp t r dl PROCESS_STOP_SENT (n + 2 + 2))
     (seq (renew_shutdown_lease cp r lease) (bnd (lift_ext (ad_discover_children ad run)) (\<lambda>v.
       seq (save_delegated_jobs run (case dict_get v ''children'' of None \<Rightarrow> JArr [] | Some c \<Rightarrow> c))
       (seq (transition run CHILD_DISCOVERY ''agent.child.discovered'' v actor False)
         (bnd (adapter_run_of t r) (\<lambda>run'. ret (run', CHILD_DISCOVERY))))))) (staged cp t r dl (Suc (Suc (Suc 0))) n)"
    by (rule sure_seq [OF sure_renew sure_bnd [OF sure_ext [where good = ?good] go]])
       (use assms in \<open>force simp: willing_def\<close>)
  then show "sure (live cp t r dl (stages ! Suc (Suc 0)) (n + 4)) (phase_discover cp ad t r actor lease (run, stages ! Suc (Suc 0)))
      (staged cp t r dl (Suc (Suc (Suc 0))) n)"
    by (simp add: phase_discover_def stages_def numeral_eq_Suc)
qed (auto simp: phase_discover_def stages_def)

lemma four: "(4 :: nat) = Suc (Suc (Suc (Suc 0)))"
  by simp

lemma sure_phase_probing:
  "sure (staged cp t r dl 3 (n + 2) s) (phase_probing t r actor s) (staged cp t r dl 4 n)"
  unfolding numeral_3_eq_3 four
proof (rule sure_staged)
  fix run :: adapter_run assume "seen t r dl (stages ! Suc (Suc (Suc 0))) run"
  then have "sure (live cp t r dl CHILD_DISCOVERY (n + 2))
      (seq (transition run PROBING ''shutdown.probe.requested'' [(''kinds'', JArr (map JStr PROBE_KINDS))] actor False)
      (bnd (adapter_run_of t r) (\<lambda>run'. ret (run', PROBING)))) (staged cp t r dl 4 n)"
    by (intro sure_advance) (auto simp: stages_def terminal_iff intro: edge.intros)
  then show "sure (live cp t r dl (stages ! Suc (Suc (Suc 0))) (n + 2))
      (phase_probing t r actor (run, stages ! Suc (Suc (Suc 0)))) (staged cp t r dl (Suc (Suc (Suc (Suc 0)))) n)"
    by (simp add: phase_probing_def stages_def numeral_eq_Suc)
qed (auto simp: phase_probing_def stages_def)

section \<open>The probes\<close>

lemma sure_insert_probe:
  assumes "rn_tenant_id run = t" and "rn_run_id run = r" and "obs_result ob = PASS"
  shows "sure (live cp t r dl st (n + 1)) (transaction (bnd uuid4 (\<lambda>probe_id. bnd utc_now (\<lambda>completed_at.
      exec_checked (insert_probe
        \<lparr>pb_probe_id = probe_id, pb_tenant_id = rn_tenant_id run, pb_run_id = rn_run_id run,
         pb_kind = obs_kind ob, pb_target = target, pb_requested_at = requested_at, pb_completed_at = completed_at,
         pb_result = obs_result ob, pb_observed = dumps True '' '' v,
         pb_authority = obs_authority ob, pb_confidence = obs_confidence ob\<rparr>))))) (\<lambda>_. live cp t r dl st n)"
    (is "sure _ ?m _")
proof (rule sureI)
  fix w assume l: "live cp t r dl st (n + 1) w"
  let ?p = "\<lparr>pb_probe_id = w_uuid_src w (w_uuids w), pb_tenant_id = t, pb_run_id = r,
         pb_kind = obs_kind ob, pb_target = target, pb_requested_at = requested_at, pb_completed_at = w_clock w (w_ticks w),
         pb_result = PASS, pb_observed = dumps True '' '' v,
         pb_authority = obs_authority ob, pb_confidence = obs_confidence ob\<rparr>"
  let ?d = "(w_db w)\<lparr>probes := probes (w_db w) @ [?p]\<rparr>"
  have "has_run r (w_db w)" using l by (auto simp: on_course_def has_run_def dest!: find_run_Some)
  moreover have "\<forall>p \<in> set (probes (w_db w)). pb_probe_id p \<noteq> w_uuid_src w (w_uuids w)"
    using l by (simp add: fresh_ids_def)
  ultimately have ins: "insert_probe ?p (w_db w) = Inr ?d" by (auto simp: insert_probe_def)
  have "on_course t r dl st ?d"
    using l by (auto simp: on_course_def find_run_def find_agent_def wf_db_def ledger_inv_def)
  moreover have "fresh_ids (w\<lparr>w_db := ?d, w_uuids := Suc (w_uuids w)\<rparr>)"
    using l fresh_other [of w] by (fastforce simp: fresh_ids_def has_event_def)
  moreover have "timely cp dl n (w\<lparr>w_ticks := Suc (w_ticks w)\<rparr>)" by (rule timelyD(3)) (use l in simp)
  ultimately show "\<exists>x w'. ?m w = (Inr x, w') \<and> live cp t r dl st n w'"
    using ins assms by (simp add: transaction_def bnd_def uuid4_def utc_now_def exec_checked_def fresh_ids_def timely_def)
qed

lemma sure_now: "sure (live cp t r dl st (n + 1)) utc_now (\<lambda>_. live cp t r dl st n)"
  by (rule sureI) (use timelyD(3) in \<open>auto simp: utc_now_def\<close>)

lemma sure_save_probe:
  assumes "seen t r dl st run" and "obs_result ob = PASS"
  shows "sure (live cp t r dl st (n + 3)) (save_probe run ob ty ac) (\<lambda>_. live cp t r dl st n)"
proof -
  have n: "n + 3 = n + 1 + 1 + 1" by simp
  show ?thesis
    unfolding save_probe_def n
    by (rule sure_bnd [OF sure_now sure_seq [OF sure_insert_probe sure_append]])
       (use assms in \<open>simp_all add: seen_def\<close>)
qed

definition passing :: "probe_result dict \<Rightarrow> bool" where
  "passing ex \<longleftrightarrow> distinct (map fst ex) \<and> (\<forall>k v. dict_get ex k = Some v \<longrightarrow> v = PASS)"

lemma passing_update: "passing ex \<Longrightarrow> passing (AList.update k PASS ex)"
  by (auto simp: passing_def dict_get_update distinct_update)

lemma sure_probe_loop:
  assumes "willing ad" and "set kinds \<subseteq> set PROBE_KINDS" and "seen t r dl PROBING run" and "passing ex"
  shows "sure (live cp t r dl PROBING (n + 6 * length kinds)) (probe_loop cp ad r lease run kinds ex)
     (\<lambda>out w. live cp t r dl PROBING n w \<and> (\<exists>ex'. out = Some ex' \<and> passing ex' \<and>
        (\<forall>k. k \<in> set kinds \<or> dict_get ex k \<noteq> None \<longrightarrow> dict_get ex' k \<noteq> None)))"
  using assms(2,4)
proof (induction kinds arbitrary: ex)
  case Nil
  then show ?case by (auto simp: hoare_def ret_def)
next
  case (Cons k kinds)
  let ?Q = "\<lambda>ks ex out w. live cp t r dl PROBING n w \<and> (\<exists>ex'. out = Some ex' \<and> passing ex' \<and>
        (\<forall>k. k \<in> set ks \<or> dict_get ex k \<noteq> None \<longrightarrow> dict_get ex' k \<noteq> None))"
  show ?case
  proof (cases "dict_get ex k = None")
    case False
    have "sure (live cp t r dl PROBING (n + 6 * length kinds)) (probe_loop cp ad r lease run kinds ex) (?Q kinds ex)"
      by (rule Cons.IH) (use Cons.prems in auto)
    then have "sure (live cp t r dl PROBING (n + 6 * length (k # kinds))) (probe_loop cp ad r lease run kinds ex) (?Q (k # kinds) ex)"
      by (rule hoare_weaken) (use False in \<open>auto intro: timely_less\<close>)
    then show ?thesis using False by simp
  next
    case True
    have n: "n + 6 * length (k # kinds) = n + 6 * length kinds + 3 + 2 + 1" by simp
    have dl: "rn_deadline_at run = Some dl" using assms(3) by (simp add: seen_def)
    have upd: "dict_get (AList.update k PASS ex) j = (if j = k then Some PASS else dict_get ex j)" for j
      using Cons.prems(2) by (simp add: passing_def dict_get_update)
    have step: "sure (\<lambda>w. live cp t r dl PROBING (n + 6 * length kinds + 3) w \<and> obs_result ob = PASS)
        (seq (save_probe run ob ''shutdown.probe.result'' ''probe-runner'')
           (probe_loop cp ad r lease run kinds (AList.update k (obs_result ob) ex))) (?Q (k # kinds) ex)" for ob
    proof (rule sure_know [where b = "obs_result ob = PASS"], blast)
      assume pass: "obs_result ob = PASS"
      have "sure (live cp t r dl PROBING (n + 6 * length kinds)) (probe_loop cp ad r lease run kinds (AList.update k PASS ex))
          (?Q kinds (AList.update k PASS ex))"
        by (rule Cons.IH) (use Cons.prems passing_update in auto)
      then have rest: "sure (live cp t r dl PROBING (n + 6 * length kinds)) (probe_loop cp ad r lease run kinds (AList.update k PASS ex))
          (?Q (k # kinds) ex)"
        by (rule hoare_weaken) (auto simp: upd)
      show "sure (\<lambda>w. live cp t r dl PROBING (n + 6 * length kinds + 3) w \<and> obs_result ob = PASS)
        (seq (save_probe run ob ''shutdown.probe.result'' ''probe-runner'')
           (probe_loop cp ad r lease run kinds (AList.update k (obs_result ob) ex))) (?Q (k # kinds) ex)"
        unfolding pass by (rule sure_seq [OF hoare_pre [OF sure_save_probe [OF assms(3) pass]] rest]) simp
    qed
    have probe: "\<exists>ob. fst (ad_probe ad k run x) = Inr ob \<and> obs_result ob = PASS" for x
      using assms(1) Cons.prems(1) by (force simp: willing_def)
    have go: "sure (live cp t r dl PROBING (n + 6 * length kinds + 3 + 2))
        (seq (renew_shutdown_lease cp r lease) (bnd (lift_ext (ad_probe ad k run)) (\<lambda>ob.
          seq (save_probe run ob ''shutdown.probe.result'' ''probe-runner'')
             (probe_loop cp ad r lease run kinds (AList.update k (obs_result ob) ex))))) (?Q (k # kinds) ex)"
      by (rule sure_seq [OF sure_renew sure_bnd [OF sure_ext [OF probe] step]])
    show ?thesis
      unfolding n probe_loop.simps using True
      by (simp only: if_False not_True_eq_False simp_thms, intro sure_bnd [OF sure_expired [OF dl]] sure_unless go)
  qed
qed

lemma sure_complete:
  assumes "passing ex" and "\<forall>k \<in> set PROBE_KINDS. dict_get ex k \<noteq> None"
  shows "sure (live cp t r dl PROBING (n + 3)) (complete_shutdown t r actor lease ex) (\<lambda>_. live cp t r dl VERIFIED n)"
proof -
  have "\<forall>k \<in> set PROBE_KINDS. dict_get ex k = Some PASS" using assms by (force simp: passing_def)
  then have "final_results ex = map (\<lambda>_. PASS) PROBE_KINDS" by (simp add: final_results_def)
  then have agg: "aggregate_probe_results (final_results ex) = VERIFIED"
    by (simp add: aggregate_verified_iff PROBE_KINDS_def)
  have n: "n + 3 = n + 1 + 2" by simp
  have "sure (\<lambda>w. live cp t r dl PROBING (n + 1 + 2) w \<and> seen t r dl PROBING run)
      (seq (transition run VERIFIED ''shutdown.completed'' pl actor True) (finish_shutdown_work r lease))
      (\<lambda>_. live cp t r dl VERIFIED n)" for run :: run_view and pl
    by (rule sure_know [where b = "seen t r dl PROBING run"], blast,
        rule sure_seq [OF hoare_pre [OF sure_transition] sure_finish])
       (auto simp: seen_def terminal_iff intro: edge.intros)
  then show ?thesis
    unfolding complete_shutdown_def Let_def agg n by (rule sure_bnd [OF sure_get_run])
qed

lemma passing_existing:
  assumes "seen t r dl st run"
  shows "passing (existing_results run)"
proof -
  have "v = PASS" if "dict_get (existing_results run) k = Some v" for k v
  proof -
    have "(k, v) \<in> set (map (\<lambda>p. (pb_kind p, pb_result p)) (rv_probes run))"
      using that by (intro dict_get_Some) (simp add: existing_results_def dict_get_def)
    then show ?thesis using assms by (auto simp: seen_def)
  qed
  then show ?thesis by (simp add: passing_def existing_results_def)
qed

lemma sure_run_probes:
  assumes "willing ad"
  shows "sure (staged cp t r dl 4 (n + 33) s) (run_probes cp ad t r actor lease s) (\<lambda>_. live cp t r dl VERIFIED n)"
proof -
  obtain run st where s: "s = (run, st)" by (cases s)
  have len: "n + 33 = n + 3 + 6 * length PROBE_KINDS" by (simp add: PROBE_KINDS_def)
  show ?thesis
  proof (rule sure_know [where b = "st = PROBING \<and> seen t r dl PROBING run"])
    show "st = PROBING \<and> seen t r dl PROBING run" if "staged cp t r dl 4 (n + 33) s w" for w
      using that by (auto simp: s staged_def stages_def)
  next
    assume st: "st = PROBING \<and> seen t r dl PROBING run"
    let ?Q = "\<lambda>out w. live cp t r dl PROBING (n + 3) w \<and> (\<exists>ex'. out = Some ex' \<and> passing ex' \<and>
        (\<forall>k. k \<in> set PROBE_KINDS \<or> dict_get (existing_results run) k \<noteq> None \<longrightarrow> dict_get ex' k \<noteq> None))"
    have loop: "sure (live cp t r dl PROBING (n + 33)) (probe_loop cp ad r lease run PROBE_KINDS (existing_results run)) ?Q"
      unfolding len by (rule sure_probe_loop) (use assms st passing_existing in auto)
    have rest: "sure (?Q out) (case out of None \<Rightarrow> ret () | Some ex \<Rightarrow> complete_shutdown t r actor lease ex)
        (\<lambda>_. live cp t r dl VERIFIED n)" for out
    proof (rule sure_know [where b = "\<exists>ex. out = Some ex \<and> passing ex \<and> (\<forall>k \<in> set PROBE_KINDS. dict_get ex k \<noteq> None)"])
      assume "\<exists>ex. out = Some ex \<and> passing ex \<and> (\<forall>k \<in> set PROBE_KINDS. dict_get ex k \<noteq> None)"
      then obtain ex where ex: "out = Some ex" "passing ex" "\<forall>k \<in> set PROBE_KINDS. dict_get ex k \<noteq> None" by blast
      show "sure (?Q out) (case out of None \<Rightarrow> ret () | Some ex \<Rightarrow> complete_shutdown t r actor lease ex)
        (\<lambda>_. live cp t r dl VERIFIED n)"
        unfolding ex(1) option.case by (rule hoare_pre [OF sure_complete [OF ex(2,3)]]) blast
    qed blast
    have "sure (live cp t r dl PROBING (n + 33)) (run_probes cp ad t r actor lease s) (\<lambda>_. live cp t r dl VERIFIED n)"
      using sure_bnd [OF loop rest] st by (simp add: s run_probes_def)
    then show "sure (staged cp t r dl 4 (n + 33) s) (run_probes cp ad t r actor lease s) (\<lambda>_. live cp t r dl VERIFIED n)"
      by (rule hoare_pre) (use st in \<open>simp add: s staged_def\<close>)
  qed
qed

section \<open>The whole shutdown\<close>

lemma sure_orchestrate_body:
  assumes "willing ad" and "st \<in> set stages"
  shows "sure (live cp t r dl st (n + 49)) (orchestrate_body cp t r actor ad recovering lease) (\<lambda>_. live cp t r dl VERIFIED n)"
proof -
  let ?k = "n + 33 + 2 + 4 + 4 + 4"
  have k: "n + 49 = ?k + 1 + 1" by simp
  have resumed: "sure (live cp t r dl st (?k + 1 + 1)) (if recovering then append_event run ty pl ac else ret ())
      (\<lambda>_. live cp t r dl st (?k + 1))" if "seen t r dl st run" for run :: adapter_run and ty pl ac
  proof (cases recovering)
    case True
    then show ?thesis using that sure_append [where run = run and t = t and r = r and n = "?k + 1"] by (simp add: seen_def)
  next
    case False
    then show ?thesis using timely_less by (auto simp: hoare_def ret_def)
  qed
  have phases: "sure (live cp t r dl st ?k)
      (bnd (phase_fence cp ad t r actor lease (run, rn_state run)) (\<lambda>s1.
       bnd (phase_stop cp ad t r actor lease s1) (\<lambda>s2.
       bnd (phase_discover cp ad t r actor lease s2) (\<lambda>s3.
       bnd (phase_probing t r actor s3) (\<lambda>s4.
       run_probes cp ad t r actor lease s4))))) (\<lambda>_. live cp t r dl VERIFIED n)" if "seen t r dl st run" for run
    by (rule hoare_pre [OF sure_bnd [OF sure_phase_fence [OF assms(1)] sure_bnd [OF sure_phase_stop [OF assms(1)]
          sure_bnd [OF sure_phase_discover [OF assms(1)] sure_bnd [OF sure_phase_probing sure_run_probes [OF assms(1)]]]]]])
       (use that assms(2) in \<open>simp add: staged_def seen_def\<close>)
  show ?thesis
    unfolding orchestrate_body_def k
  proof (rule sure_bnd [OF sure_adapter_run])
    fix run
    show "sure (\<lambda>w. live cp t r dl st (?k + 1 + 1) w \<and> seen t r dl st run)
     (seq (if recovering then
            append_event run ''shutdown.recovery.resumed''
              [(''state'', JStr (state_value (rn_state run))), (''worker_id'', JStr (cp_worker_id cp))]
              ''recovery-worker''
          else ret ())
    (bnd (deadline_expired run) (\<lambda>expired.
     if expired then expire_shutdown run lease
     else
       bnd (phase_fence cp ad t r actor lease (run, rn_state run)) (\<lambda>s1.
       bnd (phase_stop cp ad t r actor lease s1) (\<lambda>s2.
       bnd (phase_discover cp ad t r actor lease s2) (\<lambda>s3.
       bnd (phase_probing t r actor s3) (\<lambda>s4.
       run_probes cp ad t r actor lease s4))))))) (\<lambda>_. live cp t r dl VERIFIED n)"
    proof (rule sure_know [where b = "seen t r dl st run"], blast)
      assume seen: "seen t r dl st run"
      then have dl: "rn_deadline_at run = Some dl" by (simp add: seen_def)
      show ?thesis
        by (rule hoare_pre [OF sure_seq [OF resumed [OF seen] sure_bnd [OF sure_expired [OF dl] sure_unless [OF phases [OF seen]]]]])
           simp
    qed
  qed
qed

lemma sure_orchestrate:
  assumes "willing ad" and "st \<in> set stages"
  shows "sure (live cp t r dl st (n + 49)) (orchestrate cp t r actor ad recovering (Some lease)) (\<lambda>_. live cp t r dl VERIFIED n)"
proof -
  have "sure (live cp t r dl st (n + 49)) (catch (orchestrate_body cp t r actor ad recovering lease) h) (\<lambda>_. live cp t r dl VERIFIED n)" for h
    by (rule hoare_catch [OF _ sure_orchestrate_body [OF assms]]) (simp add: hoare_def)
  then show ?thesis by (simp add: orchestrate_def m_exec hoare_def)
qed

lemma on_course_reachable:
  assumes "shutdown_adapter (cp_adapter cp)" and "reachable cp pu w" and "find_run t r (w_db w) = Some x"
    and "rn_state x = st" and "rn_deadline_at x = Some dl"
    and "\<forall>p \<in> set (probes (w_db w)). pb_tenant_id p = t \<longrightarrow> pb_run_id p = r \<longrightarrow> pb_result p = PASS"
    and "get_agent t (rn_agent_id x) w = (Inr a, w)"
  shows "on_course t r dl st (w_db w)"
proof -
  have wf: "wf_db (w_db w)" by (rule wf_reachable [OF assms(1,2)])
  have led: "ledger_inv (w_db w)" "list_all2 (mirrors (w_db w)) (evidences (w_db w)) (event_outbox (w_db w))"
    using chain_reachable [OF assms(1,2)] by (simp_all add: ledger_ok_def)
  have "ev_tenant_id e = t" if e: "e \<in> set (evidences (w_db w))" "ev_run_id e = r" for e
  proof -
    obtain i where "i < length (evidences (w_db w))" "e = evidences (w_db w) ! i" using e(1) by (metis in_set_conv_nth)
    then have "mirrors (w_db w) e (event_outbox (w_db w) ! i)" using list_all2_nthD [OF led(2)] by simp
    then obtain run where run: "find_run (ev_tenant_id e) (ev_run_id e) (w_db w) = Some run"
      by (auto simp: mirrors_def)
    then have "run \<in> set (runs (w_db w))" "rn_run_id run = r" "rn_tenant_id run = ev_tenant_id e"
      using e(2) by (auto dest: find_run_Some)
    moreover have "rn_tenant_id x = t" using assms(3) by (auto dest: find_run_Some)
    ultimately show ?thesis using wf_unique [OF wf assms(3), of run] by simp
  qed
  moreover obtain a0 where "find_agent t (rn_agent_id x) (w_db w) = Some a0" "load_agent a0 = Inr a"
    using assms(7) by (auto simp: get_agent_def m_exec throw_def lift_def split: option.splits)
  ultimately show ?thesis using assms(3-6) wf led(1) by (auto simp: on_course_def)
qed

text \<open>
  C4. A shutdown that can succeed does: from every reachable state in which a run was requested
  and is not over, whatever phase a crash left it in, if its agent can be read, its stored probes
  passed, the adapter accepts every request, finds no children and passes every probe, the ids
  to come are new, and the next 49 readings of the clock (as many as a shutdown takes) are
  before the deadline, then \<open>_orchestrate\<close> returns with the run \<open>VERIFIED\<close>.
\<close>

theorem passing_shutdown_is_verified:
  assumes "shutdown_adapter (cp_adapter cp)" and "reachable cp pu w" and "find_run t r (w_db w) = Some x"
    and "rn_state x \<in> set stages" and "rn_deadline_at x = Some dl"
    and "\<forall>p \<in> set (probes (w_db w)). pb_tenant_id p = t \<longrightarrow> pb_run_id p = r \<longrightarrow> pb_result p = PASS"
    and "get_agent t (rn_agent_id x) w = (Inr a, w)"
    and "willing ad" and "fresh_ids w" and "timely cp dl 49 w"
  shows "\<exists>w' y. orchestrate cp t r actor ad recovering (Some lease) w = (Inr (), w') \<and>
    find_run t r (w_db w') = Some y \<and> rn_state y = VERIFIED"
proof -
  have "live cp t r dl (rn_state x) (0 + 49) w"
    using on_course_reachable [OF assms(1-3) refl assms(5-7)] assms(9,10) by simp
  from hoare_total [OF sure_orchestrate [OF assms(8,4)] this] show ?thesis
    unfolding on_course_def by fastforce
qed

section \<open>The example\<close>

lemma willing_example: "willing (cp_adapter example_plane)"
  by (simp add: willing_def example_plane_def PROBE_KINDS_def adapter_defs dict_get_def Let_def)

lemma nat_dec_eq: "nat_dec i = nat_dec j \<longleftrightarrow> i = j"
  by (metis dec_nat_nat_dec)

lemma fresh_requested:
  assumes "5 \<le> k" and "evidences d = evidences (db3 dl)" and "event_outbox d = event_outbox (db3 dl)" and "probes d = []"
  shows "fresh_ids (moment n k ts d)"
proof -
  have ids: "ev_evidence_id event0 = ''3''" "ev_evidence_id (event1 dl) = ''4''"
    by (simp_all add: event0_def event1_def)
  have new: "nat_dec i \<noteq> ''3''" "nat_dec i \<noteq> ''4''" if "k \<le> i" for i
    using nat_dec_eq [of i 3, unfolded decs] nat_dec_eq [of i 4, unfolded decs] that assms(1) by simp_all
  have "\<forall>e \<in> set (evidences d). ev_evidence_id e \<in> {''3'', ''4''}" "\<forall>x \<in> set (event_outbox d). ob_event_id x \<in> {''3'', ''4''}"
    using assms(2,3) ids by (simp_all add: db3_sel outbox_event_def)
  then show ?thesis
    using new assms(4) unfolding fresh_ids_def has_event_def moment_simps nat_dec_eq by fastforce
qed

lemma timely_example: "n \<le> 15 \<Longrightarrow> timely example_plane 64000000 49 (moment n k ts d)"
  by (auto simp: timely_def example_plane_def plus_seconds_def plus_us_def min_instant_def max_instant_def)

lemma get_agent_run1: "get_agent ''t'' (rn_agent_id (run1 dl)) (moment n k ts (db3 dl)) = (Inr agent0, moment n k ts (db3 dl))"
  by (simp add: get_agent_def m_defs db3_sel find_agent_def encode_agent_def agent0_def load_agent_def py_loads_def norm_json.simps
      run1_def run0_def mark_requested_def)

section \<open>A crashed shutdown\<close>

text \<open>
  A process that dies after \<open>k\<close> steps of an undisturbed shutdown leaves the run in the state
  of its last transition, and everything the next orchestrator needs.
\<close>

definition at_stage :: "control_plane \<Rightarrow> string \<Rightarrow> string \<Rightarrow> instant \<Rightarrow> nat \<Rightarrow> nat \<Rightarrow> adapter_run \<times> shutdown_state \<Rightarrow> world \<Rightarrow> bool" where
  "at_stage cp t r dl k n s w \<longleftrightarrow>
     live cp t r dl (snd s) n w \<and> seen t r dl (snd s) (fst s) \<and> snd s = stages ! k"

lemma at_stage_staged: "k < 5 \<Longrightarrow> at_stage cp t r dl k n s w \<Longrightarrow> staged cp t r dl k n s w"
  by (auto simp: at_stage_def staged_def stages_def less_Suc_eq numeral_eq_Suc)

lemma at_stage_less: "at_stage cp t r dl k (n + m) s w \<Longrightarrow> at_stage cp t r dl k n s w"
  by (auto simp: at_stage_def timely_def)

lemma sure_cut:
  assumes "j < 4" and "sure (staged cp t r dl j (n + m) s) (f s) (staged cp t r dl (Suc j) n)"
    and "\<And>run w s' w'. f (run, stages ! j) w = (Inr s', w') \<Longrightarrow> snd s' = stages ! Suc j"
  shows "sure (at_stage cp t r dl (min k j) (n + m) s) (cut (j < k) f s) (at_stage cp t r dl (min k (Suc j)) n)"
proof (rule sureI)
  fix w assume P: "at_stage cp t r dl (min k j) (n + m) s w"
  show "\<exists>x w'. cut (j < k) f s w = (Inr x, w') \<and> at_stage cp t r dl (min k (Suc j)) n x w'"
  proof (cases "j < k")
    case True
    then have at: "at_stage cp t r dl j (n + m) s w" "min k (Suc j) = Suc j" using P by simp_all
    obtain x w' where x: "f s w = (Inr x, w')" "staged cp t r dl (Suc j) n x w'"
      using hoare_total [OF assms(2) at_stage_staged [OF _ at(1)]] assms(1) by fastforce
    have "s = (fst s, stages ! j)" using at(1) by (simp add: at_stage_def prod_eq_iff)
    then have "snd x = stages ! Suc j" using x(1) assms(3) by metis
    then show ?thesis using True x at(2) by (auto simp: cut_def staged_def at_stage_def)
  next
    case False
    then have "min k (Suc j) = min k j" by simp
    then show ?thesis using False at_stage_less [OF P] by (simp add: cut_def ret_def)
  qed
qed

lemma phase_ends:
  "phase_fence cp ad t r actor lease (run, stages ! 0) w = (Inr s, w') \<Longrightarrow> snd s = stages ! Suc 0"
  "phase_stop cp ad t r actor lease (run, stages ! 1) w = (Inr s, w') \<Longrightarrow> snd s = stages ! Suc 1"
  "phase_discover cp ad t r actor lease (run, stages ! 2) w = (Inr s, w') \<Longrightarrow> snd s = stages ! Suc 2"
  "phase_probing t r actor (run, stages ! 3) w = (Inr s, w') \<Longrightarrow> snd s = stages ! Suc 3"
  by (auto simp: stages_def phase_fence_def phase_stop_def phase_discover_def phase_probing_def seq_def bnd_Inr ret_def)

lemma sure_cut_probes:
  assumes "willing ad" and "k \<le> 4"
  shows "sure (at_stage cp t r dl k (n + 30) s)
     (if snd s = PROBING then
        bnd (probe_loop cp ad r lease (fst s) (take j PROBE_KINDS) (existing_results (fst s))) (\<lambda>_. ret ())
      else ret ()) (\<lambda>_. live cp t r dl (stages ! k) n)"
proof (rule sure_know [where b = "snd s = stages ! k \<and> seen t r dl (stages ! k) (fst s)"])
  assume s: "snd s = stages ! k \<and> seen t r dl (stages ! k) (fst s)"
  show ?thesis
  proof (cases "snd s = PROBING")
    case True
    let ?ks = "take j PROBE_KINDS"
    have "sure (live cp t r dl PROBING (n + 6 * length ?ks)) (probe_loop cp ad r lease (fst s) ?ks (existing_results (fst s)))
        (\<lambda>_. live cp t r dl PROBING n)"
      by (rule hoare_weaken [OF sure_probe_loop [OF assms(1)]])
         (use s True passing_existing in \<open>auto dest: in_set_takeD\<close>)
    then have "sure (live cp t r dl PROBING (n + 6 * length ?ks))
        (bnd (probe_loop cp ad r lease (fst s) ?ks (existing_results (fst s))) (\<lambda>_. ret ())) (\<lambda>_. live cp t r dl PROBING n)"
      by (rule sure_bnd) (simp add: hoare_def ret_def)
    moreover have "n + 6 * length ?ks \<le> n + 30" by (simp add: PROBE_KINDS_def)
    ultimately have "sure (at_stage cp t r dl k (n + 30) s)
        (bnd (probe_loop cp ad r lease (fst s) ?ks (existing_results (fst s))) (\<lambda>_. ret ())) (\<lambda>_. live cp t r dl PROBING n)"
      using True by (elim hoare_pre) (auto simp: at_stage_def timely_def)
    then show ?thesis using True s by simp
  next
    case False
    then show ?thesis using s by (auto simp: hoare_def ret_def at_stage_def timely_def)
  qed
qed (auto simp: at_stage_def)

lemma sure_orchestrate_cut:
  assumes "willing ad"
  shows "sure (live cp t r dl REQUESTED (n + 45)) (orchestrate_cut cp t r actor ad False k lease)
     (\<lambda>_. live cp t r dl (stages ! min k 4) n)"
proof -
  let ?k = "n + 30 + 2 + 4 + 4 + 4"
  have k: "n + 45 = ?k + 1" by simp
  have f: "sure (at_stage cp t r dl (min k 0) (m + 4) s) (cut (0 < k) (phase_fence cp ad t r actor lease) s) (at_stage cp t r dl (min k 1) m)" for m s
    unfolding One_nat_def
    by (rule sure_cut) (use sure_phase_fence [OF assms] phase_ends(1) in \<open>auto\<close>)
  have p: "sure (at_stage cp t r dl (min k 1) (m + 4) s) (cut (1 < k) (phase_stop cp ad t r actor lease) s) (at_stage cp t r dl (min k 2) m)" for m s
    unfolding Suc_1 [symmetric]
    by (rule sure_cut) (use sure_phase_stop [OF assms] phase_ends(2) in \<open>auto simp: numeral_eq_Suc\<close>)
  have d: "sure (at_stage cp t r dl (min k 2) (m + 4) s) (cut (2 < k) (phase_discover cp ad t r actor lease) s) (at_stage cp t r dl (min k 3) m)" for m s
  proof -
    have 3: "(3 :: nat) = Suc 2" by simp
    show ?thesis unfolding 3
      by (rule sure_cut) (use sure_phase_discover [OF assms] phase_ends(3) in \<open>auto simp: numeral_eq_Suc\<close>)
  qed
  have q: "sure (at_stage cp t r dl (min k 3) (m + 2) s) (cut (3 < k) (phase_probing t r actor) s) (at_stage cp t r dl (min k 4) m)" for m s
  proof -
    have 4: "(4 :: nat) = Suc 3" by simp
    show ?thesis unfolding 4
      by (rule sure_cut) (use sure_phase_probing phase_ends(4) in \<open>auto simp: numeral_eq_Suc\<close>)
  qed
  show ?thesis unfolding orchestrate_cut_def k
  proof (rule sure_bnd [OF sure_adapter_run])
    fix run
    let ?rest = "bnd (cut (0 < k) (phase_fence cp ad t r actor lease) (run, rn_state run)) (\<lambda>s1.
        bnd (cut (1 < k) (phase_stop cp ad t r actor lease) s1) (\<lambda>s2.
        bnd (cut (2 < k) (phase_discover cp ad t r actor lease) s2) (\<lambda>s3.
        bnd (cut (3 < k) (phase_probing t r actor) s3) (\<lambda>s4.
        if snd s4 = PROBING then
          bnd (probe_loop cp ad r lease (fst s4) (take (k - 4) PROBE_KINDS) (existing_results (fst s4))) (\<lambda>_. ret ())
        else ret ()))))"
    show "sure (\<lambda>w. live cp t r dl REQUESTED (?k + 1) w \<and> seen t r dl REQUESTED run)
     (seq (if False then append_event run ''shutdown.recovery.resumed''
              [(''state'', JStr (state_value (rn_state run))), (''worker_id'', JStr (cp_worker_id cp))]
              ''recovery-worker'' else ret ())
     (bnd (deadline_expired run) (\<lambda>expired. if expired then ret () else ?rest)))
     (\<lambda>_. live cp t r dl (stages ! min k 4) n)"
    proof (rule sure_know [where b = "seen t r dl REQUESTED run"], blast)
      assume seen: "seen t r dl REQUESTED run"
      then have dl: "rn_deadline_at run = Some dl" by (simp add: seen_def)
      have "sure (live cp t r dl REQUESTED ?k) ?rest (\<lambda>_. live cp t r dl (stages ! min k 4) n)"
        by (rule hoare_pre [OF sure_bnd [OF f sure_bnd [OF p sure_bnd [OF d sure_bnd [OF q sure_cut_probes [OF assms]]]]]])
           (use seen in \<open>auto simp: at_stage_def seen_def stages_def\<close>)
      then show ?thesis
        unfolding if_False seq_ret
        by (rule hoare_pre [OF sure_bnd [OF sure_expired [OF dl] sure_unless]]) simp
    qed
  qed
qed

text \<open>
  The example with ten minutes for the shutdown: the process dies after \<open>k\<close> steps of it.
\<close>

definition patient_plane :: control_plane where
  "patient_plane = example_plane\<lparr>cp_deadline_seconds := 600\<rparr>"

definition patient0 :: world where
  "patient0 = moment 6 5 [thread0] (db3 604000000)"

definition crashed :: "nat \<Rightarrow> world" where
  "crashed k = after patient_plane example_publisher (Crash 0 k) patient0"

lemma patient_adapter: "shutdown_adapter (cp_adapter patient_plane)" "willing (cp_adapter patient_plane)"
  using example_adapter(1) willing_example by (simp_all add: patient_plane_def)

lemma reachable_patient0: "reachable patient_plane example_publisher patient0"
proof -
  have "plus_seconds 4000000 (cp_deadline_seconds patient_plane) = Inr 604000000"
    by (simp add: patient_plane_def plus_seconds_def plus_us_def min_instant_def max_instant_def)
  then have "after patient_plane example_publisher (Request_Shutdown ''t'' ''1'' ''responder'' ''k'' True ConfiguredAdapter)
      (moment 3 4 [] db2) = patient0"
    by (simp add: after_def patient0_def snd_forget request0)
  then show ?thesis using reachable.call [OF reachable_created0] by metis
qed

lemma reachable_crashed: "reachable patient_plane example_publisher (crashed k)"
  unfolding crashed_def by (rule reachable.call [OF reachable_patient0])

lemma timely_patient: "n + m \<le> 600 \<Longrightarrow> timely patient_plane 604000000 m (moment n k ts d)"
  by (auto simp: timely_def patient_plane_def example_plane_def plus_seconds_def plus_us_def min_instant_def max_instant_def)

lemma claim_patient0: "claim_shutdown_work patient_plane ''t'' ''1'' patient0 =
   (Inr (Some ''worker:5''), moment 8 6 [thread0] ((db3 604000000)\<lparr>shutdown_works :=
      [take_lease ''worker:5'' 37000000 6000000 (new_work ''1'' ''t'' 3000000)]\<rparr>))"
  by (simp add: patient0_def claim_shutdown_work_def m_defs db3_sel insert_or_ignore_work_def claimable_def new_work_def take_lease_def
      plus_seconds_def plus_us_def example_plane_def patient_plane_def min_instant_def max_instant_def sql_update_def decs Let_def)

lemma live_crashed: "live patient_plane ''t'' ''1'' 604000000 (stages ! min k 4) 49 (crashed k)"
proof -
  let ?w = "moment 8 6 [thread0] ((db3 604000000)\<lparr>shutdown_works :=
      [take_lease ''worker:5'' 37000000 6000000 (new_work ''1'' ''t'' 3000000)]\<rparr>)"
  have "on_course ''t'' ''1'' 604000000 REQUESTED (w_db patient0)"
    by (rule on_course_reachable [OF patient_adapter(1) reachable_patient0, where x = "run1 604000000"])
       (simp_all add: patient0_def find_run1 db3_sel get_agent_run1)
  then have "live patient_plane ''t'' ''1'' 604000000 REQUESTED (49 + 45) ?w"
    by (simp add: patient0_def on_course_works fresh_requested timely_patient db3_sel)
  from hoare_total [OF sure_orchestrate_cut [OF patient_adapter(2)] this]
  obtain u w' where run: "orchestrate_cut patient_plane ''t'' ''1'' ''responder'' (cp_adapter patient_plane) False k ''worker:5'' ?w = (Inr u, w')"
      and fin: "live patient_plane ''t'' ''1'' 604000000 (stages ! min k 4) 49 w'" by blast
  have "crashed k = w'\<lparr>w_threads := []\<rparr>"
    using run claim_patient0
    by (simp add: crashed_def after_def crash_thread_def patient0_def thread0_def resolve_adapter_def m_defs)
  then show ?thesis using fin by (simp add: fresh_ids_def timely_def)
qed

theorem passing_shutdown_is_verified_witness:
  "\<forall>k. \<exists>x w' y. find_run ''t'' ''1'' (w_db (crashed k)) = Some x \<and> rn_state x = stages ! min k 4 \<and>
     orchestrate patient_plane ''t'' ''1'' ''someone'' (cp_adapter patient_plane) True (Some ''lease'') (crashed k) = (Inr (), w') \<and>
     find_run ''t'' ''1'' (w_db w') = Some y \<and> rn_state y = VERIFIED"
proof
  fix k
  from live_crashed obtain x a a' where x: "find_run ''t'' ''1'' (w_db (crashed k)) = Some x" "rn_state x = stages ! min k 4"
      "rn_deadline_at x = Some 604000000" "find_agent ''t'' (rn_agent_id x) (w_db (crashed k)) = Some a" "load_agent a = Inr a'"
    unfolding on_course_def by blast
  have stage: "rn_state x \<in> set stages" unfolding x(2) by (rule nth_mem) (simp add: stages_def)
  have agent: "get_agent ''t'' (rn_agent_id x) (crashed k) = (Inr a', crashed k)"
    using x(4,5) by (simp add: get_agent_def m_exec lift_def)
  have "\<exists>w' y. orchestrate patient_plane ''t'' ''1'' ''someone'' (cp_adapter patient_plane) True (Some ''lease'') (crashed k) = (Inr (), w') \<and>
     find_run ''t'' ''1'' (w_db w') = Some y \<and> rn_state y = VERIFIED"
    by (rule passing_shutdown_is_verified [OF patient_adapter(1) reachable_crashed x(1) stage x(3) _ agent patient_adapter(2)])
       (use live_crashed in \<open>auto simp: on_course_def\<close>)
  with x(1,2) show "\<exists>x w' y. find_run ''t'' ''1'' (w_db (crashed k)) = Some x \<and> rn_state x = stages ! min k 4 \<and>
     orchestrate patient_plane ''t'' ''1'' ''someone'' (cp_adapter patient_plane) True (Some ''lease'') (crashed k) = (Inr (), w') \<and>
     find_run ''t'' ''1'' (w_db w') = Some y \<and> rn_state y = VERIFIED" by blast
qed

section \<open>A recovered run\<close>

definition verified0 :: world where
  "verified0 = after example_plane example_publisher (Recover_Incomplete False) requested0"

lemma reachable_verified0: "reachable example_plane example_publisher verified0"
  unfolding verified0_def by (rule reachable.call [OF reachable_requested0])

lemma verified0: "\<exists>y. find_run ''t'' ''1'' (w_db verified0) = Some y \<and> rn_state y = VERIFIED"
proof -
  let ?w = "moment 9 6 [thread0] ((db3 64000000)\<lparr>shutdown_works := [leased_work]\<rparr>)"
  have "on_course ''t'' ''1'' 64000000 REQUESTED (w_db requested0)"
    by (rule on_course_reachable [OF example_adapter(1) reachable_requested0 [of example_publisher], where x = "run1 64000000"])
       (simp_all add: find_run1 db3_sel requested0_def get_agent_run1)
  then have "live example_plane ''t'' ''1'' 64000000 REQUESTED (0 + 49) ?w"
    by (simp add: requested0_def on_course_works fresh_requested timely_example db3_sel)
  from hoare_total [OF sure_orchestrate [OF willing_example] this]
  obtain u w' where run: "orchestrate example_plane ''t'' ''1'' ''recovery-worker''
      (resolve_adapter example_plane ConfiguredAdapter) True (Some ''worker:5'') ?w = (Inr u, w')"
      and fin: "on_course ''t'' ''1'' 64000000 VERIFIED (w_db w')"
    by (force simp: stages_def resolve_adapter_def)
  have "incomplete_runs (db3 64000000) = [run1 64000000]" by (simp add: incomplete_runs_def db3_sel)
  moreover have "drills (db3 64000000) = []" by (simp add: db3_def db2_def db1_def new_store_def append_rows_def)
  ultimately have "verified0 = w'"
    using run
    by (simp add: verified0_def after_def snd_forget recover_incomplete_shutdowns_def requested0_def recover_run_def
        deadline_expired_def run1_sel m_defs claim0 [simplified] recovery_adapter_def)
  then show ?thesis using fin by (auto simp: on_course_def)
qed

theorem verified_rests_on_five_passes_witness:
  "\<exists>p. filter (\<lambda>p. pb_tenant_id p = ''t'' \<and> pb_run_id p = ''1'' \<and> pb_kind p = ''kafka'') (probes (w_db verified0)) = [p] \<and> pb_result p = PASS"
proof -
  obtain y where "find_run ''t'' ''1'' (w_db verified0) = Some y" "rn_state y = VERIFIED" using verified0 by blast
  then show ?thesis
    by (rule verified_rests_on_five_passes [OF example_adapter(1) reachable_verified0]) (simp add: PROBE_KINDS_def)
qed

end
