(* ===== verification/Json_Reader.thy ===== *)
theory Json_Reader
  imports Json
begin

text \<open>
  The fuel of the JSON reader: a value, a list of elements or of members that is read with some
  fuel is read with as much as it has characters. So \<open>loads\<close>, which gives one more than the
  length of the document, never fails for want of fuel.
\<close>

section \<open>What the parts consume\<close>

lemma skip_ws_length: "length (skip_ws s) \<le> length s"
  by (simp add: skip_ws_def length_dropWhile_le)

lemma skip_ws_Cons_length: "skip_ws s = c # r \<Longrightarrow> length r < length s"
  using skip_ws_length [of s] by simp

lemma p_string_length: "p_string s = Some (k, r) \<Longrightarrow> length r < length s"
proof (induction "length s" arbitrary: s k r rule: less_induct)
  case less
  have ih: "p_string t = Some y \<Longrightarrow> length t < length s \<Longrightarrow> length (snd y) < length t" for t y
    using less.hyps [of t "fst y" "snd y"] by simp
  show ?case
    using less.prems
    by (cases s) (auto split: if_splits list.splits option.splits nat.splits dest!: ih)
qed

lemma p_number_length: "p_number s = Some (v, r) \<Longrightarrow> length r < length s"
proof -
  assume a: "p_number s = Some (v, r)"
  let ?t = "if starts_with s ''-'' then tl s else s"
  have ds: "int_digits ?t \<noteq> []" and r: "r = drop (length (int_digits ?t)) ?t"
    using a by (auto simp: p_number_def Let_def split: if_splits)
  have "int_digits [] = []" by (simp add: int_digits_def)
  then have "?t \<noteq> []" using ds by metis
  then have "0 < length ?t" by blast
  then have "length r < length ?t" using ds unfolding r by simp
  also have "\<dots> \<le> length s" by simp
  finally show ?thesis .
qed

section \<open>Enough fuel\<close>

definition enough :: "(nat \<Rightarrow> (json \<times> string) option) \<Rightarrow> nat \<Rightarrow> string \<Rightarrow> json \<times> string \<Rightarrow> bool" where
  "enough p k s x \<longleftrightarrow> length (snd x) + k \<le> length s \<and> (\<forall>m. length s - length (snd x) \<le> m \<longrightarrow> p m = Some x)"

lemma enough_now:
  "length (snd x) < length s \<Longrightarrow> (\<And>k. p (Suc k) = Some x) \<Longrightarrow> enough p 1 s x"
  unfolding enough_def
proof (intro conjI allI impI)
  fix m assume l: "length (snd x) < length s" and p: "\<And>k. p (Suc k) = Some x" and "length s - length (snd x) \<le> m"
  then obtain k where "m = Suc k" by (cases m) auto
  then show "p m = Some x" using p by simp
qed simp

lemma enough_step:
  assumes "enough q 2 t x" and "length t < length s" and "\<And>k. p (Suc k) = q k"
  shows "enough p 1 s x"
  unfolding enough_def
proof (intro conjI allI impI)
  show "length (snd x) + 1 \<le> length s" using assms(1,2) by (simp add: enough_def)
  fix m assume m: "length s - length (snd x) \<le> m"
  then obtain k where k: "m = Suc k" using assms(1,2) by (cases m) (auto simp: enough_def)
  then have "length t - length (snd x) \<le> k" using m assms(2) by simp
  then show "p m = Some x" using assms(1,3) k by (simp add: enough_def)
qed

lemma read_enough:
  "(\<forall>x. p_value n s = Some x \<longrightarrow> enough (\<lambda>m. p_value m s) 1 s x)"
  "(\<forall>x. p_elems n acc s = Some x \<longrightarrow> enough (\<lambda>m. p_elems m acc s) 2 s x)"
  "(\<forall>x. p_members n mem s = Some x \<longrightarrow> enough (\<lambda>m. p_members m mem s) 2 s x)"
proof (induction n s and n acc s and n mem s rule: p_value_p_elems_p_members.induct)
  case (2 n s)
  note ih = 2
  have num: "p_number s = Some x \<Longrightarrow> length (snd x) < length s" for x
    using p_number_length [of s "fst x" "snd x"] by simp
  have str: "p_string r = Some y \<Longrightarrow> length (snd y) < length r" for r y
    using p_string_length [of r "fst y" "snd y"] by simp
  show ?case
  proof (intro allI impI)
    fix x assume x: "p_value (Suc n) s = Some x"
    then obtain c r where s: "s = c # r" by (cases s) auto
    consider "c = quote" | "c \<noteq> quote" "c = CHR ''{''" | "c \<noteq> quote" "c = CHR ''[''"
      | "c \<noteq> quote" "c \<noteq> CHR ''{''" "c \<noteq> CHR ''[''" by blast
    then show "enough (\<lambda>m. p_value m s) 1 s x"
    proof cases
      case 1
      then show ?thesis using x s str [of r] by (intro enough_now) (auto intro: less_SucI)
    next
      case 2
      obtain d r' where d: "skip_ws r = d # r'" using x s 2 by (auto split: list.splits)
      show ?thesis
      proof (cases "d = CHR ''}''")
        case True
        then show ?thesis using x s 2 d skip_ws_Cons_length [OF d] by (intro enough_now) auto
      next
        case False
        then have "p_members n [] (d # r') = Some x" using x s 2 d by simp
        then have "enough (\<lambda>m. p_members m [] (d # r')) 2 (d # r') x" using ih(1) [OF s 2 d False] by simp
        then show ?thesis using skip_ws_Cons_length [OF d] 2 s d False by (intro enough_step) auto
      qed
    next
      case 3
      obtain d r' where d: "skip_ws r = d # r'" using x s 3 by (auto simp: quote_def split: list.splits)
      show ?thesis
      proof (cases "d = CHR '']''")
        case True
        then show ?thesis using x s 3 d skip_ws_Cons_length [OF d] by (intro enough_now) auto
      next
        case False
        then have "p_elems n [] (d # r') = Some x" using x s 3 d by simp
        then have "enough (\<lambda>m. p_elems m [] (d # r')) 2 (d # r') x" using ih(2) [OF s 3(1) _ 3(2) d False] 3 by simp
        then show ?thesis using skip_ws_Cons_length [OF d] 3 s d False by (intro enough_step) auto
      qed
    next
      case 4
      then show ?thesis using x s num by (intro enough_now) (auto split: if_splits)
    qed
  qed
next
  case (4 n acc s)
  show ?case
  proof (intro allI impI)
    fix x assume x: "p_elems (Suc n) acc s = Some x"
    then obtain v r c r' where v: "p_value n s = Some (v, r)" and c: "skip_ws r = c # r'"
      by (auto split: option.splits list.splits)
    have e: "length r < length s" "length s - length r \<le> m \<Longrightarrow> p_value m s = Some (v, r)" for m
      using 4(1) v by (auto simp: enough_def)
    have r': "length r' < length r" by (rule skip_ws_Cons_length [OF c])
    show "enough (\<lambda>m. p_elems m acc s) 2 s x"
    proof (cases "c = CHR '']''")
      case True
      then have x': "x = (JArr (acc @ [v]), r')" using x v c by simp
      have "p_elems m acc s = Some x" if m: "length s - length r' \<le> m" for m
      proof -
        obtain k where "m = Suc k" using m e(1) r' by (cases m) auto
        then show ?thesis using m e r' True c x' by simp
      qed
      then show ?thesis using e(1) r' x' by (simp add: enough_def)
    next
      case False
      then have c': "c = CHR '',''" and x': "p_elems n (acc @ [v]) (skip_ws r') = Some x"
        using x v c by (auto split: if_splits)
      then have i: "enough (\<lambda>m. p_elems m (acc @ [v]) (skip_ws r')) 2 (skip_ws r') x"
        using 4(2) [OF v] c False by (cases x) simp
      have l: "length (skip_ws r') \<le> length r'" by (rule skip_ws_length)
      have x2: "length (snd x) + 2 \<le> length r'" using i l by (simp add: enough_def)
      have "p_elems m acc s = Some x" if m: "length s - length (snd x) \<le> m" for m
      proof -
        obtain k where k: "m = Suc k" using m e(1) r' i l by (cases m) (auto simp: enough_def)
        have "length (skip_ws r') - length (snd x) \<le> k" using x2 l e(1) r' m k by linarith
        then have "p_elems k (acc @ [v]) (skip_ws r') = Some x" using i by (simp add: enough_def)
        moreover have "p_value k s = Some (v, r)"
          by (rule e(2)) (use x2 e(1) r' m k in linarith)
        ultimately show ?thesis using k c c' by simp
      qed
      then show ?thesis using e(1) r' i l by (simp add: enough_def)
    qed
  qed
next
  case (6 n acc s)
  show ?case
  proof (intro allI impI)
    fix x assume x: "p_members (Suc n) acc s = Some x"
    then obtain r k r1 c r2 v r3 d r4 where s: "s = quote # r" and k: "p_string r = Some (k, r1)"
      and c: "skip_ws r1 = CHR '':'' # r2" and v: "p_value n (skip_ws r2) = Some (v, r3)" and d: "skip_ws r3 = d # r4"
      by (cases s) (auto split: option.splits list.splits if_splits)
    have iv: "enough (\<lambda>m. p_value m (skip_ws r2)) 1 (skip_ws r2) (v, r3)"
      using 6(1) [OF s _ k refl c] v by simp
    have v3: "length r3 + 1 \<le> length (skip_ws r2)" using iv by (simp add: enough_def)
    note l = p_string_length [OF k] skip_ws_Cons_length [OF c] skip_ws_length [of r2] skip_ws_Cons_length [OF d]
      skip_ws_length [of r4]
    show "enough (\<lambda>m. p_members m acc s) 2 s x"
    proof (cases "d = CHR ''}''")
      case True
      then have x': "x = (JObj (AList.update k v acc), r4)" using x s k c v d by simp
      have "p_members m acc s = Some x" if m: "length s - length r4 \<le> m" for m
      proof -
        obtain j where j: "m = Suc j" using m l s iv by (cases m) (auto simp: enough_def)
        have "p_value j (skip_ws r2) = Some (v, r3)" using iv l s m j by (simp add: enough_def)
        then show ?thesis using j s k c d True x' by simp
      qed
      then show ?thesis using l s iv x' by (simp add: enough_def)
    next
      case False
      then have d': "d = CHR '',''" and x': "p_members n (AList.update k v acc) (skip_ws r4) = Some x"
        using x s k c v d by (auto split: if_splits)
      have i: "enough (\<lambda>m. p_members m (AList.update k v acc) (skip_ws r4)) 2 (skip_ws r4) x"
        using 6(2) x' s k c v d d' by (cases x) auto
      have x4: "length (snd x) + 2 \<le> length (skip_ws r4)" using i by (simp add: enough_def)
      have "p_members m acc s = Some x" if m: "length s - length (snd x) \<le> m" for m
      proof -
        obtain j where j: "m = Suc j" using m l s iv i by (cases m) (auto simp: enough_def)
        have "length (skip_ws r2) - length r3 \<le> j" "length (skip_ws r4) - length (snd x) \<le> j"
          using v3 x4 l m j unfolding s length_Cons by linarith+
        then have "p_value j (skip_ws r2) = Some (v, r3)" "p_members j (AList.update k v acc) (skip_ws r4) = Some x"
          using iv i by (simp_all add: enough_def)
        then show ?thesis using j s k c d d' by simp
      qed
      then show ?thesis using l s iv i by (simp add: enough_def)
    qed
  qed
qed simp_all

lemma value_enough: "p_value n s = Some (v, r) \<Longrightarrow> length s \<le> m \<Longrightarrow> p_value m s = Some (v, r)"
  using read_enough(1) [of n s] by (auto simp: enough_def)

lemma loads_iff_fuel: "loads s = Some v \<longleftrightarrow> (\<exists>n r. p_value n (skip_ws s) = Some (v, r) \<and> skip_ws r = [])"
proof
  assume "loads s = Some v"
  then show "\<exists>n r. p_value n (skip_ws s) = Some (v, r) \<and> skip_ws r = []"
    unfolding loads_def by (auto simp del: p_value.simps split: option.splits if_splits intro!: exI)
next
  assume "\<exists>n r. p_value n (skip_ws s) = Some (v, r) \<and> skip_ws r = []"
  then obtain n r where r: "p_value n (skip_ws s) = Some (v, r)" "skip_ws r = []" by blast
  have "p_value (Suc (length s)) (skip_ws s) = Some (v, r)"
    by (rule value_enough [OF r(1)]) (use skip_ws_length [of s] in simp)
  then show "loads s = Some v" using r(2) by (simp add: loads_def del: p_value.simps)
qed

end
