(* ===== verification/Promises.thy ===== *)
theory Promises
  imports Liveness Json_Reader
begin

text \<open>
  What the records promise in every reachable state (the ledger and its copy in the outbox, who
  approved a drill), what one turn of an event in the publisher records, and what operations are
  meant to do: a repeated request, and the lease of a run through whatever follows its claim.
\<close>

section \<open>Every reachable state\<close>

lemma mirrored_ids: "list_all2 (mirrors d) es xs \<Longrightarrow> map ob_event_id xs = map ev_evidence_id es"
  by (induction rule: list_all2_induct) (auto simp: mirrors_def outbox_key_def)

text \<open>
  C14. In every reachable state the evidence of every run, read back, passes the verification of
  its chain, and the outbox is its copy: the events are the records in the same order, and the
  payload of each is the canonical envelope of its record and run.
\<close>

theorem evidence_is_chained_and_mirrored:
  assumes "shutdown_adapter (cp_adapter cp)" and "reachable cp pu w"
  shows "(\<exists>recs. ledger_records t r w = (Inr recs, w) \<and> verify_chain recs = Inr (True, None)) \<and>
    map ob_event_id (event_outbox (w_db w)) = map ev_evidence_id (evidences (w_db w)) \<and>
    list_all2 (\<lambda>e x. \<exists>rec run. e = stored rec \<and> find_run (ev_tenant_id e) (ev_run_id e) (w_db w) = Some run \<and>
        ob_payload x = canonical_json (JObj (event_envelope rec run)))
      (evidences (w_db w)) (event_outbox (w_db w))"
proof -
  have ok: "ledger_inv (w_db w)" "list_all2 (mirrors (w_db w)) (evidences (w_db w)) (event_outbox (w_db w))"
    using chain_reachable [OF assms] by (simp_all add: ledger_ok_def)
  obtain recs where "ledger_records t r w = (Inr recs, w)" "verify_chain recs = Inr (True, None)"
    using ledger_records_ok [OF ok(1)] by blast
  moreover have "map ob_event_id (event_outbox (w_db w)) = map ev_evidence_id (evidences (w_db w))"
    by (rule mirrored_ids [OF ok(2)])
  moreover have "mirrors d e x \<Longrightarrow> \<exists>rec run. e = stored rec \<and> find_run (ev_tenant_id e) (ev_run_id e) d = Some run \<and>
      ob_payload x = canonical_json (JObj (event_envelope rec run))" for d e x
    by (auto simp: mirrors_def outbox_key_def)
  then have "list_all2 (\<lambda>e x. \<exists>rec run. e = stored rec \<and> find_run (ev_tenant_id e) (ev_run_id e) (w_db w) = Some run \<and>
      ob_payload x = canonical_json (JObj (event_envelope rec run))) (evidences (w_db w)) (event_outbox (w_db w))"
    by (rule list_all2_mono [OF ok(2)])
  ultimately show ?thesis by blast
qed

theorem evidence_is_chained_and_mirrored_witness:
  "\<exists>recs. ledger_records ''t'' ''1'' requested0 = (Inr recs, requested0) \<and> verify_chain recs = Inr (True, None)"
  using evidence_is_chained_and_mirrored [OF example_adapter(1) reachable_requested0 [of example_publisher], of "''t''" "''1''"]
  by (rule conjunct1)

text \<open>
  C16. Two people for every drill: in every reachable state the ids of the drills are distinct, a
  drill that was approved, started or failed names an approver who is not its author, a rejected
  one a reviewer who is not its author, and no drill was both approved and rejected.
\<close>

theorem drills_need_two_people:
  assumes "shutdown_adapter (cp_adapter cp)" and "reachable cp pu w" and "z \<in> set (drills (w_db w))"
  shows "distinct (map dr_drill_id (drills (w_db w))) \<and>
    (dr_status z \<in> {D_APPROVED, D_STARTED, D_FAILED} \<longrightarrow> (\<exists>a. dr_approved_by z = Some a \<and> a \<noteq> dr_requested_by z)) \<and>
    (dr_status z = D_REJECTED \<longrightarrow> (\<exists>a. dr_rejected_by z = Some a \<and> a \<noteq> dr_requested_by z)) \<and>
    (dr_approved_by z = None \<or> dr_rejected_by z = None)"
proof -
  have "distinct (map dr_drill_id (drills (w_db w)))" "drill_ok z"
    using duties_reachable [OF assms(1,2)] assms(3) by (simp_all add: drills_ok_def)
  then show ?thesis by (auto simp: drill_ok_def split: drill_status.splits)
qed

definition drill_request :: "json dict" where
  "drill_request = [(''tenant_id'', JStr ''t''), (''agent_id'', JStr ''0'')]"

definition drill0 :: "string drill_row" where
  "drill0 =
     \<lparr>dr_drill_id = ''1'', dr_tenant_id = ''t'', dr_agent_id = ''0'', dr_requested_by = ''author'', dr_requested_at = 1000000,
      dr_approved_by = None, dr_approved_at = None, dr_rejected_by = Some ''reviewer'', dr_rejected_at = Some 2000000,
      dr_rejection_reason = Some ''no'', dr_status = D_REJECTED,
      dr_request_payload = canonical_json (JObj (drill_request @ [(''policy_version'', JInt 1)])), dr_run_id = Some ''2''\<rparr>"

definition drilled0 :: world where
  "drilled0 = after example_plane example_publisher (Reject_Drill ''t'' ''1'' ''reviewer'' ''no'')
     (after example_plane example_publisher (Request_Drill drill_request ''author'') (moment 1 1 [] db1))"

lemma reachable_drilled0: "reachable example_plane example_publisher drilled0"
  unfolding drilled0_def using reachable.call [OF reachable_start0] after_example(1)
  by (metis reachable.call)

definition drill1 :: "string drill_row" where
  "drill1 = drill0\<lparr>dr_rejected_by := None, dr_rejected_at := None, dr_rejection_reason := None, dr_status := D_PENDING_APPROVAL\<rparr>"

lemma get_agent0: "get_agent ''t'' ''0'' (moment 1 1 [] db1) = (Inr agent0, moment 1 1 [] db1)"
  by (simp add: get_agent_def m_defs db1_sel find_agent_def encode_agent_def agent0_def load_agent_def py_loads_def norm_json.simps)

lemma request_drill0: "snd (request_drill drill_request ''author'' (moment 1 1 [] db1)) =
   moment 2 3 [] (db1\<lparr>drills := [drill1]\<rparr>)"
proof -
  have "drills db1 = []" by (simp add: db1_def new_store_def)
  then show ?thesis
    using get_agent0
    by (simp add: request_drill_def validate_drill_request_def drill_request_def get_simps m_defs agent0_def attr_get_def
      check_outcomes_def policy_of_def insert_drill_def Let_def decs drill1_def drill0_def numeral_eq_Suc)
qed

lemma reject_drill0: "w_db (snd (reject_drill ''t'' ''1'' ''reviewer'' ''no'' (moment 2 3 [] (db1\<lparr>drills := [drill1]\<rparr>)))) =
   db1\<lparr>drills := [drill0]\<rparr>"
  by (simp add: reject_drill_def get_drill_def m_defs drill1_def drill0_def drill_key_def load_drill_def py_loads_def
    py_strip_def is_space_def update_drills_def sql_update_def mark_rejected_def)

lemma drills_drilled0: "drills (w_db drilled0) = [drill0]"
  by (simp add: drilled0_def after_def snd_forget request_drill0 [unfolded One_nat_def] reject_drill0)

theorem drills_need_two_people_witness: "dr_rejected_by drill0 \<noteq> Some (dr_requested_by drill0)"
  using drills_need_two_people [OF example_adapter(1) reachable_drilled0, of drill0]
  by (auto simp: drills_drilled0 drill0_def)

lemma outbox_payload:
  assumes "shutdown_adapter (cp_adapter cp)" and "reachable cp pu w" and "x \<in> set (event_outbox (w_db w))"
  shows "\<exists>event. py_loads (ob_payload x) = Inr event"
proof -
  have m: "list_all2 (mirrors (w_db w)) (evidences (w_db w)) (event_outbox (w_db w))"
    using chain_reachable [OF assms(1,2)] by (simp add: ledger_ok_def)
  obtain i where i: "i < length (event_outbox (w_db w))" "x = event_outbox (w_db w) ! i" using assms(3) by (metis in_set_conv_nth)
  then have "mirrors (w_db w) (evidences (w_db w) ! i) x" using m by (simp add: list_all2_conv_all_nth)
  then show ?thesis by (auto simp: mirrors_def outbox_key_def py_loads_def canonical_json_def)
qed

text \<open>What the publisher has recorded of an event.\<close>

definition recorded :: "string \<Rightarrow> outbox_status \<Rightarrow> int \<Rightarrow> db \<Rightarrow> bool" where
  "recorded e st n d \<longleftrightarrow> (\<exists>y \<in> set (event_outbox d). ob_event_id y = e \<and> ob_status y = st \<and> ob_attempts y = n)"

lemma recorded_update:
  "x \<in> set (event_outbox d) \<Longrightarrow> ob_event_id x = e \<Longrightarrow> ob_event_id (f x) = e \<Longrightarrow> ob_status (f x) = st \<Longrightarrow> ob_attempts (f x) = n \<Longrightarrow>
     recorded e st n (update_outbox e f d)"
  by (force simp: recorded_def update_outbox_def set_sql_update)

lemma delivered_run:
  assumes "x \<in> set (event_outbox (w_db w))"
  shows "\<exists>w'. record_delivered (ob_event_id x) w = (Inr (), w') \<and> w_ext w' = w_ext w \<and>
    recorded (ob_event_id x) O_DELIVERED (ob_attempts x + 1) (w_db w')"
proof -
  have "recorded (ob_event_id x) O_DELIVERED (ob_attempts x + 1) (delivered_rows (ob_event_id x) now (w_db w))" for now
    using recorded_update [OF assms refl, of "\<lambda>x. x\<lparr>ob_status := O_DELIVERED, ob_attempts := ob_attempts x + 1, ob_last_error := None,
        ob_delivered_at := Some now\<rparr>"]
    by (simp add: delivered_rows_def recorded_def)
  then show ?thesis by (simp add: record_delivered_def m_defs)
qed

lemma upsert_delivery_runs:
  assumes "has_event (dl_event_id r) d"
  shows "\<exists>d'. upsert_delivery r d = Inr d' \<and> event_outbox d' = event_outbox d \<and>
    (\<exists>y. find_delivery (dl_event_id r) d' = Some y \<and> dl_next_attempt_at y = dl_next_attempt_at r)"
proof -
  have found: "\<exists>y. find P (sql_upsert P f r xs) = Some y \<and> dl_next_attempt_at y = t"
    if "\<And>z. P z \<Longrightarrow> P (f z)" "\<And>z. dl_next_attempt_at (f z) = t" "P r" "dl_next_attempt_at r = t" for P f t and xs :: "delivery_row list"
    using that by (induction xs) (auto simp: sql_upsert_def sql_update_def)
  show ?thesis
    using assms by (auto simp: upsert_delivery_def find_delivery_def intro!: found)
qed

lemma has_update: "has_event e (update_outbox e' f d) = has_event e d" if "\<And>y. ob_event_id (f y) = ob_event_id y"
  using that by (auto simp: has_event_def update_outbox_def set_sql_update)

lemma dead_letter_run:
  assumes "x \<in> set (event_outbox (w_db w))"
  shows "\<exists>w'. record_dead_letter (ob_event_id x) n msg now w = (Inr (), w') \<and> w_ext w' = w_ext w \<and>
    recorded (ob_event_id x) O_DEAD_LETTER n (w_db w')"
proof -
  let ?e = "ob_event_id x"
  let ?d = "update_outbox ?e (\<lambda>x. x\<lparr>ob_status := O_DEAD_LETTER, ob_attempts := n, ob_last_error := Some msg\<rparr>) (w_db w)"
  have "has_event ?e ?d" using assms by (subst has_update) (auto simp: has_event_def)
  then obtain d' where d': "upsert_delivery \<lparr>dl_event_id = ?e, dl_next_attempt_at = None, dl_dead_lettered_at = Some now\<rparr> ?d = Inr d'"
      "event_outbox d' = event_outbox ?d"
    using upsert_delivery_runs [of "\<lparr>dl_event_id = ?e, dl_next_attempt_at = None, dl_dead_lettered_at = Some now\<rparr>" ?d] by auto
  moreover have "recorded ?e O_DEAD_LETTER n ?d" using assms by (auto intro!: recorded_update [where x = x])
  ultimately show ?thesis by (simp add: record_dead_letter_def m_defs recorded_def)
qed

lemma retry_run:
  assumes "x \<in> set (event_outbox (w_db w))" and "ob_status x = O_PENDING"
  shows "case delay of Inl err \<Rightarrow> record_retry (ob_event_id x) n msg delay now w = (Inl err, w)
    | Inr us \<Rightarrow> if min_instant \<le> now + us \<and> now + us \<le> max_instant then
         \<exists>w'. record_retry (ob_event_id x) n msg delay now w = (Inr (), w') \<and> w_ext w' = w_ext w \<and>
           recorded (ob_event_id x) O_PENDING n (w_db w') \<and>
           (\<exists>y. find_delivery (ob_event_id x) (w_db w') = Some y \<and> dl_next_attempt_at y = Some (now + us))
       else \<exists>err. record_retry (ob_event_id x) n msg delay now w = (Inl err, w)"
proof (cases delay)
  case (Inr us)
  let ?e = "ob_event_id x"
  let ?d = "update_outbox ?e (\<lambda>x. x\<lparr>ob_attempts := n, ob_last_error := Some msg\<rparr>) (w_db w)"
  let ?r = "\<lparr>dl_event_id = ?e, dl_next_attempt_at = Some (now + us), dl_dead_lettered_at = None\<rparr>"
  have "has_event ?e ?d" using assms by (subst has_update) (auto simp: has_event_def)
  then obtain d' where d': "upsert_delivery ?r ?d = Inr d'" "event_outbox d' = event_outbox ?d"
      "\<exists>y. find_delivery ?e d' = Some y \<and> dl_next_attempt_at y = Some (now + us)"
    using upsert_delivery_runs [of ?r ?d] by auto
  moreover have "recorded ?e O_PENDING n ?d" using assms by (auto intro!: recorded_update [where x = x])
  ultimately show ?thesis using Inr by (auto simp: record_retry_def m_defs recorded_def plus_us_def)
qed (simp add: record_retry_def m_defs)

text \<open>
  C17. Every attempt to send is counted. In a reachable state a pending event has fewer than
  \<open>max_attempts\<close> recorded attempts since it was created or requeued. When its turn comes, the
  publisher calls the sender once and records one attempt more: the event is delivered when the
  sender returns; when it raises, the event is a dead letter after the last attempt, and before
  that stays pending with a next attempt after \<open>min(max, base * 2 ** (n - 1))\<close> seconds. The one
  exception: when this delay has no date (the power overflows a float, or the date is beyond the
  year 9999) the turn raises and nothing of the attempt is recorded. The backoff settings are
  finite numbers here.
\<close>

theorem sends_are_counted:
  assumes "shutdown_adapter (cp_adapter cp)" and "reachable cp pu w" and "1 \<le> pu_max_attempts pu"
    and "x \<in> set (event_outbox (w_db w))" and "ob_status x = O_PENDING"
    and "pu_base_backoff pu = Finite base" and "pu_max_backoff pu = Finite most"
  shows "let e = ob_event_id x; sent = ob_attempts x - baseline_of e (w_db w);
             next = now + round_half_even (1000000 * min most (base * 2 ^ nat sent))
    in 0 \<le> sent \<and> sent < pu_max_attempts pu \<and>
      (\<exists>event. loads (ob_payload x) = Some event \<and>
        (case publish_row pu now (x, baseline_of e (w_db w)) c w of (res, w') \<Rightarrow>
           w_ext w' = snd (pu_sender pu event (w_ext w)) \<and>
           (case fst (pu_sender pu event (w_ext w)) of
              Inr _ \<Rightarrow> (\<exists>c'. res = Inr c') \<and> recorded e O_DELIVERED (ob_attempts x + 1) (w_db w')
            | Inl _ \<Rightarrow>
                if sent + 1 = pu_max_attempts pu then
                  (\<exists>c'. res = Inr c') \<and> recorded e O_DEAD_LETTER (ob_attempts x + 1) (w_db w')
                else if sent < 1024 \<and> min_instant \<le> next \<and> next \<le> max_instant then
                  (\<exists>c'. res = Inr c') \<and> recorded e O_PENDING (ob_attempts x + 1) (w_db w') \<and>
                  (\<exists>y. find_delivery e (w_db w') = Some y \<and> dl_next_attempt_at y = Some next)
                else (\<exists>err. res = Inl err) \<and> w_db w' = w_db w)))"
proof -
  let ?e = "ob_event_id x"
  define sent where "sent = ob_attempts x - baseline_of ?e (w_db w)"
  have "event_ok (pu_max_attempts pu) (w_db w) x"
    using delivery_reachable [OF assms(1-3)] assms(4) by (simp add: delivery_ok_def)
  then have count: "0 \<le> sent" "sent < pu_max_attempts pu" using assms(5) by (simp_all add: event_ok_def Let_def sent_def)
  have has: "has_event ?e (w_db w)" using assms(4) by (auto simp: has_event_def)
  obtain event where event: "py_loads (ob_payload x) = Inr event" "loads (ob_payload x) = Some event"
    using outbox_payload [OF assms(1,2,4)] by (auto simp: py_loads_def split: option.splits)
  obtain r ext where send: "pu_sender pu event (w_ext w) = (r, ext)" by (cases "pu_sender pu event (w_ext w)")
  have try': "try_send pu x w = (Inr (case r of Inl err \<Rightarrow> Some err | Inr _ \<Rightarrow> None), w\<lparr>w_ext := ext\<rparr>)"
    using event(1) send by (cases r) (simp_all add: try_send_def catch_def bnd_def lift_def lift_ext_def ret_def)
  let ?next = "now + round_half_even (1000000 * min most (base * 2 ^ nat sent))"
  let ?w = "w\<lparr>w_ext := ext\<rparr>"
  have x: "x \<in> set (event_outbox (w_db ?w))" using assms(4) by simp
  have "case publish_row pu now (x, baseline_of ?e (w_db w)) c w of (res, w') \<Rightarrow> w_ext w' = ext \<and>
      (case r of Inr _ \<Rightarrow> (\<exists>c'. res = Inr c') \<and> recorded ?e O_DELIVERED (ob_attempts x + 1) (w_db w')
       | Inl _ \<Rightarrow> if sent + 1 = pu_max_attempts pu then (\<exists>c'. res = Inr c') \<and> recorded ?e O_DEAD_LETTER (ob_attempts x + 1) (w_db w')
           else if sent < 1024 \<and> min_instant \<le> ?next \<and> ?next \<le> max_instant then
             (\<exists>c'. res = Inr c') \<and> recorded ?e O_PENDING (ob_attempts x + 1) (w_db w') \<and>
             (\<exists>y. find_delivery ?e (w_db w') = Some y \<and> dl_next_attempt_at y = Some ?next)
           else (\<exists>err. res = Inl err) \<and> w_db w' = w_db w)"
  proof (cases r)
    case (Inr u)
    then show ?thesis using try' delivered_run [OF x] by (auto simp: publish_row_def bnd_def seq_def ret_def)
  next
    case (Inl err)
    let ?msg = "take 1000 (exn_message err)" and ?n = "ob_attempts x + 1"
    have cycle: "?n - baseline_of ?e (w_db w) = sent + 1" by (simp add: sent_def)
    show ?thesis
    proof (cases "sent + 1 = pu_max_attempts pu")
      case True
      then show ?thesis
        using Inl try' dead_letter_run [OF x, of ?n ?msg now]
        by (auto simp: publish_row_def bnd_def seq_def ret_def Let_def cycle)
    next
      case False
      have delay: "backoff pu (sent + 1) = (if sent < 1024 then Inr (round_half_even (1000000 * min most (base * 2 ^ nat sent)))
          else Inl (Exn OverflowError ''int too large to convert to float''))"
        using count(1) assms(6,7) by (auto simp: backoff_def float_min_def min_def mult.commute)
      have "publish_row pu now (x, baseline_of ?e (w_db w)) c w =
          seq (record_retry ?e ?n ?msg (backoff pu (sent + 1)) now) (ret (c\<lparr>pc_failed := pc_failed c + 1\<rparr>)) ?w"
        using Inl try' False count(2) by (simp add: publish_row_def bnd_def Let_def cycle)
      then show ?thesis
        using Inl False retry_run [OF x assms(5), where delay = "backoff pu (sent + 1)" and n = ?n and msg = ?msg and now = now] unfolding delay
        by (auto simp: seq_def bnd_def ret_def split: if_splits)
    qed
  qed
  then show ?thesis unfolding Let_def sent_def [symmetric] using count event(2) send by auto
qed

text \<open>A publisher whose SIEM is down tries the first event of the example.\<close>

definition failing_publisher :: publisher where
  "failing_publisher = example_publisher\<lparr>pu_sender := \<lambda>event. ext_throw (Exn RuntimeError ''down'')\<rparr>"

theorem sends_are_counted_witness:
  "\<forall>c. case publish_row failing_publisher 7000000 (outbox_event event0 run0, 0) c requested0 of (res, w') \<Rightarrow>
     (\<exists>c'. res = Inr c') \<and> recorded ''3'' O_PENDING 1 (w_db w') \<and>
     (\<exists>y. find_delivery ''3'' (w_db w') = Some y \<and> dl_next_attempt_at y = Some 8000000)"
proof
  fix c
  have x: "outbox_event event0 run0 \<in> set (event_outbox (w_db requested0))" by (simp add: db3_sel)
  have sel: "ob_status (outbox_event event0 run0) = O_PENDING" "ob_attempts (outbox_event event0 run0) = 0"
      "ob_event_id (outbox_event event0 run0) = ''3''" "baseline_of ''3'' (db3 64000000) = 0"
    by (simp_all add: outbox_event_def event0_def baseline_of_def db3_def db2_def db1_def new_store_def append_rows_def)
  have pu: "1 \<le> pu_max_attempts failing_publisher" "pu_base_backoff failing_publisher = Finite 1"
      "pu_max_backoff failing_publisher = Finite 300" "pu_max_attempts failing_publisher = 2"
      "fst (pu_sender failing_publisher event ext) = Inl (Exn RuntimeError ''down'')" for event ext
    by (simp_all add: failing_publisher_def example_publisher_def ext_throw_def)
  have delay: "round_half_even (1000000 * min 300 (1 * 2 ^ nat 0)) = 1000000" using round_half_even_int [of 1000000] by simp
  from sends_are_counted [OF example_adapter(1) reachable_requested0 pu(1) x sel(1) pu(2,3), of 7000000 c]
  show "case publish_row failing_publisher 7000000 (outbox_event event0 run0, 0) c requested0 of (res, w') \<Rightarrow>
     (\<exists>c'. res = Inr c') \<and> recorded ''3'' O_PENDING 1 (w_db w') \<and>
     (\<exists>y. find_delivery ''3'' (w_db w') = Some y \<and> dl_next_attempt_at y = Some 8000000)"
    unfolding Let_def sel world_db using delay
    by (auto simp: pu sel min_instant_def max_instant_def split: prod.splits)
qed

section \<open>Requests and leases\<close>

text \<open>
  C40. A shutdown is requested once: asking again with the key of the first request returns the
  receipt of the run as it is now and changes nothing, not even the clock; with another key it is
  a conflict and changes nothing.
\<close>

theorem repeated_requests_change_nothing:
  assumes "find_run t r (w_db w) = Some run" and "rn_shutdown_requested_at run \<noteq> None" and "actor \<noteq> []" and "key \<noteq> []"
  shows "request_shutdown cp t r actor key asynchronous adapter w =
    (if rn_shutdown_idempotency_key run = Some key then (Inr (shutdown_receipt run), w)
     else (Inl (Exn ConflictError ''shutdown already requested with a different idempotency key''), w))"
  using assms by (simp add: request_shutdown_def record_request_def m_defs)

theorem repeated_requests_change_nothing_witness:
  "request_shutdown example_plane ''t'' ''1'' ''someone'' ''k'' True ConfiguredAdapter requested0 =
     (Inr (shutdown_receipt (run1 64000000)), requested0)"
  using repeated_requests_change_nothing [of "''t''" "''1''" requested0 "run1 64000000" "''someone''" "''k''" example_plane True ConfiguredAdapter]
  by (simp add: find_run1)

lemma insert_or_ignore_works:
  "insert_or_ignore_work x d = Inr d' \<Longrightarrow>
     shutdown_works d' = shutdown_works d \<and> (\<exists>y \<in> set (shutdown_works d). wk_run_id y = wk_run_id x) \<or>
     shutdown_works d' = shutdown_works d @ [x] \<and> \<not> (\<exists>y \<in> set (shutdown_works d). wk_run_id y = wk_run_id x)"
  by (auto simp: insert_or_ignore_work_def new_work_def split: if_splits)

lemma claim_Inr:
  assumes "claim_shutdown_work cp t r w = (Inr (Some owner), w1)"
  shows "\<exists>d. insert_or_ignore_work (new_work r t (w_clock w (w_ticks w))) (w_db w) = Inr d \<and>
    (\<exists>x \<in> set (shutdown_works d). claimable r (w_clock w (w_ticks w)) x) \<and>
    w_clock w1 = w_clock w \<and> w_ticks w1 = Suc (Suc (w_ticks w)) \<and>
    shutdown_works (w_db w1) = sql_update (claimable r (w_clock w (w_ticks w)))
      (take_lease owner (w_clock w (Suc (w_ticks w)) + 1000000 * cp_recovery_lease_seconds cp) (w_clock w (w_ticks w))) (shutdown_works d)"
proof -
  obtain until where until: "plus_seconds (w_clock w (Suc (w_ticks w))) (cp_recovery_lease_seconds cp) = Inr until"
    using assms
    by (cases "plus_seconds (w_clock w (Suc (w_ticks w))) (cp_recovery_lease_seconds cp)")
       (simp_all add: claim_shutdown_work_def m_defs)
  then have u: "until = w_clock w (Suc (w_ticks w)) + 1000000 * cp_recovery_lease_seconds cp"
    by (simp add: plus_seconds_def plus_us_Inr)
  obtain d where d: "insert_or_ignore_work (new_work r t (w_clock w (w_ticks w))) (w_db w) = Inr d"
    using assms until
    by (cases "insert_or_ignore_work (new_work r t (w_clock w (w_ticks w))) (w_db w)")
       (simp_all add: claim_shutdown_work_def m_defs Let_def)
  have "length (filter (claimable r (w_clock w (w_ticks w))) (shutdown_works d)) = 1"
    using assms until d by (auto simp: claim_shutdown_work_def m_defs Let_def split: if_splits)
  then have "filter (claimable r (w_clock w (w_ticks w))) (shutdown_works d) \<noteq> []" by auto
  then have "\<exists>x \<in> set (shutdown_works d). claimable r (w_clock w (w_ticks w)) x" by (auto simp: filter_empty_conv)
  moreover have "shutdown_works (w_db w1) = sql_update (claimable r (w_clock w (w_ticks w)))
      (take_lease owner until (w_clock w (w_ticks w))) (shutdown_works d)"
    using assms until d by (auto simp: claim_shutdown_work_def m_defs Let_def split: if_splits)
  moreover have "w_clock w1 = w_clock w \<and> w_ticks w1 = Suc (Suc (w_ticks w))"
    using assms until d by (auto simp: claim_shutdown_work_def m_defs Let_def)
  ultimately show ?thesis using d unfolding u by blast
qed

lemma claim_none:
  assumes "\<forall>y \<in> set (shutdown_works (w_db w)). \<not> claimable r (w_clock w (w_ticks w)) y"
    and "\<exists>y \<in> set (shutdown_works (w_db w)). wk_run_id y = r"
  shows "(\<forall>o'. fst (claim_shutdown_work cp t r w) \<noteq> Inr (Some o')) \<and>
    shutdown_works (w_db (snd (claim_shutdown_work cp t r w))) = shutdown_works (w_db w)"
proof -
  have "insert_or_ignore_work (new_work r t now) (w_db w) = Inr (w_db w)" for now
    using assms(2) by (simp add: insert_or_ignore_work_def new_work_def)
  moreover have "filter (claimable r (w_clock w (w_ticks w))) (shutdown_works (w_db w)) = []"
    using assms(1) by (simp add: filter_empty_conv)
  ultimately show ?thesis
    using sql_update_none [OF assms(1)]
    by (cases "plus_seconds (w_clock w (Suc (w_ticks w))) (cp_recovery_lease_seconds cp)")
       (simp_all add: claim_shutdown_work_def m_defs Let_def)
qed

text \<open>
  Everything the service does to the table of the work, one operation at a time: claims,
  renewals and ends of leases, by any worker, and requests of shutdowns.
\<close>

datatype lease_step =
    Claim control_plane string string
  | Renew control_plane string string
  | Finish string string
  | Fail string string exn
  | Request control_plane string string string string

fun lease_call :: "lease_step \<Rightarrow> unit m" where
  "lease_call (Claim cp t r) = forget (claim_shutdown_work cp t r)"
| "lease_call (Renew cp r owner) = renew_shutdown_lease cp r owner"
| "lease_call (Finish r owner) = finish_shutdown_work r owner"
| "lease_call (Fail r owner e) = fail_shutdown_work r owner e"
| "lease_call (Request cp t r actor key) = forget (request_shutdown cp t r actor key True ConfiguredAdapter)"

fun after_steps :: "lease_step list \<Rightarrow> world \<Rightarrow> world" where
  "after_steps [] w = w"
| "after_steps (s # ss) w = after_steps ss (snd (lease_call s w))"

text \<open>The run has a row, leased by the owner now least until then.\<close>

definition holds :: "string \<Rightarrow> string \<Rightarrow> instant \<Rightarrow> work_row \<Rightarrow> bool" where
  "holds r owner until x \<longleftrightarrow>
     wk_run_id x = r \<and> wk_lease_owner x = Some owner \<and> (\<exists>e. wk_lease_expires_at x = Some e \<and> until \<le> e)"

definition held :: "string \<Rightarrow> string \<Rightarrow> instant \<Rightarrow> work_row list \<Rightarrow> bool" where
  "held r owner until xs \<longleftrightarrow> distinct (map wk_run_id xs) \<and> (\<exists>x \<in> set xs. holds r owner until x)"

lemma held_update:
  assumes "held r owner until xs" and "\<And>x. wk_run_id (f x) = wk_run_id x"
    and "\<And>x. P x \<Longrightarrow> holds r owner until x \<Longrightarrow> holds r owner until (f x)"
  shows "held r owner until (sql_update P f xs)"
proof -
  have "map wk_run_id (sql_update P f xs) = map wk_run_id xs" using assms(2) by (auto simp: sql_update_def)
  moreover obtain x where x: "x \<in> set xs" "holds r owner until x" using assms(1) by (auto simp: held_def)
  then have "(if P x then f x else x) \<in> set (sql_update P f xs)" "holds r owner until (if P x then f x else x)"
    using assms(3) by (auto simp: set_sql_update)
  then have "\<exists>y \<in> set (sql_update P f xs). holds r owner until y" by blast
  ultimately show ?thesis using assms(1) by (simp add: held_def)
qed

lemma held_insert: "held r owner until xs \<Longrightarrow> \<not> (\<exists>y \<in> set xs. wk_run_id y = wk_run_id x) \<Longrightarrow> held r owner until (xs @ [x])"
  by (auto simp: held_def)

lemma held_ignore:
  "held r owner until (shutdown_works d) \<Longrightarrow> insert_or_ignore_work x d = Inr d' \<Longrightarrow> held r owner until (shutdown_works d')"
  using insert_or_ignore_works [of x d d'] held_insert by fastforce

lemma claim_keeps_held:
  assumes "held r owner until (shutdown_works (w_db w))" and "w_clock w (w_ticks w) < until"
  shows "held r owner until (shutdown_works (w_db (snd (claim_shutdown_work cp t r' w))))"
proof (cases "plus_seconds (w_clock w (Suc (w_ticks w))) (cp_recovery_lease_seconds cp)")
  case (Inr u)
  let ?now = "w_clock w (w_ticks w)"
  have taken: "held r owner until (sql_update (claimable r' ?now) (take_lease o' u ?now) xs)" if "held r owner until xs" for o' xs
    by (rule held_update [OF that]) (use assms(2) in \<open>auto simp: take_lease_def holds_def claimable_def\<close>)
  show ?thesis
  proof (cases "insert_or_ignore_work (new_work r' t ?now) (w_db w)")
    case Inr': (Inr d)
    then show ?thesis using Inr held_ignore [OF assms(1) Inr'] taken
      by (simp add: claim_shutdown_work_def m_defs Let_def)
  qed (use Inr assms(1) in \<open>simp add: claim_shutdown_work_def m_defs Let_def\<close>)
qed (use assms(1) in \<open>simp add: claim_shutdown_work_def m_defs\<close>)

lemma renew_keeps_held:
  assumes "held r owner until (shutdown_works (w_db w))"
    and "r' = r \<Longrightarrow> o' = owner \<Longrightarrow> until \<le> w_clock w (w_ticks w) + 1000000 * cp_recovery_lease_seconds cp"
  shows "held r owner until (shutdown_works (w_db (snd (renew_shutdown_lease cp r' o' w))))"
proof (cases "plus_seconds (w_clock w (w_ticks w)) (cp_recovery_lease_seconds cp)")
  case (Inr u)
  have "u = w_clock w (w_ticks w) + 1000000 * cp_recovery_lease_seconds cp"
    using Inr by (simp add: plus_seconds_def plus_us_Inr)
  then show ?thesis
    using Inr assms by (auto simp: renew_shutdown_lease_def m_defs leased_by_def holds_def intro!: held_update)
qed (use assms(1) in \<open>simp add: renew_shutdown_lease_def m_defs\<close>)

lemma end_keeps_held:
  assumes "held r owner until (shutdown_works (w_db w))" and "\<not> (r' = r \<and> o' = owner)"
  shows "held r owner until (shutdown_works (w_db (snd (finish_shutdown_work r' o' w))))"
    and "held r owner until (shutdown_works (w_db (snd (fail_shutdown_work r' o' e w))))"
  using assms
  by (auto simp: finish_shutdown_work_def fail_shutdown_work_def m_defs leased_by_def holds_def complete_work_def intro!: held_update)

lemma request_keeps_held: "keeps (\<lambda>d ts. held r owner until (shutdown_works d)) (request_shutdown cp t r' actor key True ad)"
proof -
  let ?V = "\<lambda>d ts. held r owner until (shutdown_works d)"
  have work: "held r owner until (shutdown_works d')" if "held r owner until (shutdown_works d)" "request_work t r' now d = Inr d'" for now d d'
  proof -
    have eq: "shutdown_works d' = sql_upsert (\<lambda>x. wk_run_id x = r') (\<lambda>x. x\<lparr>wk_status := W_PENDING, wk_updated_at := now\<rparr>)
        (new_work r' t now) (shutdown_works d)"
      using that(2) by (auto simp: request_work_def split: if_splits)
    show ?thesis
    proof (cases "\<exists>x \<in> set (shutdown_works d). wk_run_id x = r'")
      case True
      then have "shutdown_works d' = sql_update (\<lambda>x. wk_run_id x = r') (\<lambda>x. x\<lparr>wk_status := W_PENDING, wk_updated_at := now\<rparr>) (shutdown_works d)"
        by (auto simp: eq sql_upsert_def list_ex_iff)
      then show ?thesis using that(1) by (auto simp: holds_def intro!: held_update)
    next
      case False
      then show ?thesis using held_insert [OF that(1)] by (auto simp: eq sql_upsert_def list_ex_iff new_work_def)
    qed
  qed
  have append: "keeps ?V (append_event run ty pl ac)" for run :: run_row and ty pl ac
    unfolding append_event_def ledger_append_def insert_evidence_def insert_outbox_def
    by (intro keeps_rules keeps_exec_checked) (auto split: if_splits)
  have rr: "keeps ?V (record_request cp t r' key)"
    unfolding record_request_def
    by (intro keeps_rules keeps_exec keeps_exec_checked) (auto simp: request_run_def intro: work)
  show ?thesis unfolding request_shutdown_def
    by (intro keeps_rules rr append keeps_start_thread keeps_if) auto
qed

lemma onwards_request: "onwards (request_shutdown cp t r actor key True ad)"
proof -
  have start: "onwards (start_thread th)" for th by (simp add: onwards_def start_thread_def)
  have branch: "onwards m \<Longrightarrow> onwards n \<Longrightarrow> onwards (if b then m else n)" for b and m n :: "'a m" by simp
  have "onwards (record_request cp t r key)"
    unfolding record_request_def by (intro onwards_rules branch)
  note recorded = this
  have outcome: "onwards (case out of Inl receipt \<Rightarrow> ret receipt | Inr run \<Rightarrow> k run)" if "\<And>run. onwards (k run)"
    for out and k :: "run_row \<Rightarrow> receipt m"
    using that by (cases out) (simp_all add: onwards_basic)
  show ?thesis unfolding request_shutdown_def if_True
    by (intro onwards_rules branch start onwards_append recorded outcome)
qed

lemma onwards_lease_call: "onwards (lease_call s)"
  by (cases s) (auto simp: forget_def renew_shutdown_lease_def finish_shutdown_work_def fail_shutdown_work_def
      intro!: onwards_rules onwards_claim onwards_request)

lemma onwards_steps: "w_clock (after_steps ss w) = w_clock w \<and> w_ticks w \<le> w_ticks (after_steps ss w)"
proof (induction ss arbitrary: w)
  case (Cons s ss)
  then show ?case using onwards_lease_call [of s] unfolding onwards_def after_steps.simps by (metis order_trans)
qed simp

lemma steps_keep_held:
  assumes mono: "\<forall>i j. i \<le> j \<longrightarrow> w_clock w i \<le> w_clock w j"
    and ends: "\<forall>e. Finish r owner \<notin> set ss \<and> Fail r owner e \<notin> set ss"
    and renews: "\<forall>cp'. Renew cp' r owner \<in> set ss \<longrightarrow> secs \<le> cp_recovery_lease_seconds cp'"
  shows "held r owner until (shutdown_works (w_db v)) \<Longrightarrow> w_clock v = w_clock w \<Longrightarrow>
     until \<le> w_clock w (w_ticks v) + 1000000 * secs \<Longrightarrow>
     w_clock w (w_ticks (after_steps ss v)) < until \<Longrightarrow> held r owner until (shutdown_works (w_db (after_steps ss v)))"
  using ends renews
proof (induction ss arbitrary: v)
  case (Cons s ss)
  let ?v = "snd (lease_call s v)"
  have time: "w_clock ?v = w_clock w" "w_ticks v \<le> w_ticks ?v" "w_ticks v \<le> w_ticks (after_steps (s # ss) v)"
    using onwards_lease_call [of s] onwards_steps [of "s # ss" v] Cons.prems(2) unfolding onwards_def by auto
  have early: "w_clock v (w_ticks v) < until"
    using mono time(3) Cons.prems(2,4) by (metis le_less_trans)
  have ahead: "until \<le> w_clock w (w_ticks ?v) + 1000000 * secs"
    using mono time(2) Cons.prems(3) by (meson add_right_mono order_trans)
  have "held r owner until (shutdown_works (w_db ?v))"
  proof (cases s)
    case (Claim cp t r')
    then show ?thesis using claim_keeps_held [OF Cons.prems(1) early] by (simp add: snd_forget)
  next
    case (Renew cp r' o')
    then show ?thesis using Cons.prems(2,3,6) by (fastforce intro!: renew_keeps_held [OF Cons.prems(1)])
  next
    case (Request cp t r' actor key)
    then show ?thesis using keepsD [OF request_keeps_held, of r owner until v] Cons.prems(1) by (simp add: snd_forget)
  qed (use Cons.prems(5) end_keeps_held [OF Cons.prems(1)] in auto)
  then show ?case using Cons.IH [of ?v] time(1) ahead Cons.prems(4-6) by auto
qed simp

lemma claim_held:
  assumes "distinct (map wk_run_id (shutdown_works (w_db w)))" and "claim_shutdown_work cp t r w = (Inr (Some owner), w1)"
  shows "held r owner (w_clock w (Suc (w_ticks w)) + 1000000 * cp_recovery_lease_seconds cp) (shutdown_works (w_db w1))"
    and "w_clock w1 = w_clock w" and "w_ticks w1 = Suc (Suc (w_ticks w))"
proof -
  let ?now = "w_clock w (w_ticks w)" and ?until = "w_clock w (Suc (w_ticks w)) + 1000000 * cp_recovery_lease_seconds cp"
  obtain d x where ins: "insert_or_ignore_work (new_work r t ?now) (w_db w) = Inr d"
      and x: "x \<in> set (shutdown_works d)" "claimable r ?now x"
      and works: "shutdown_works (w_db w1) = sql_update (claimable r ?now) (take_lease owner ?until ?now) (shutdown_works d)"
      and time: "w_clock w1 = w_clock w" "w_ticks w1 = Suc (Suc (w_ticks w))"
    using claim_Inr [OF assms(2)] by blast
  have "distinct (map wk_run_id (shutdown_works d))"
    using insert_or_ignore_works [OF ins] assms(1) by (auto simp: new_work_def)
  moreover have "map wk_run_id (shutdown_works (w_db w1)) = map wk_run_id (shutdown_works d)"
    unfolding works by (simp add: sql_update_def take_lease_def)
  moreover have "take_lease owner ?until ?now x \<in> set (shutdown_works (w_db w1))"
    using x unfolding works set_sql_update by force
  moreover have "holds r owner ?until (take_lease owner ?until ?now x)"
    using x(2) by (simp add: holds_def take_lease_def claimable_def)
  ultimately show "held r owner ?until (shutdown_works (w_db w1))" by (auto simp: held_def)
qed (use claim_Inr [OF assms(2)] in blast)+

lemma held_not_claimable:
  assumes "held r owner until xs" and "now < until" and "y \<in> set xs"
  shows "\<not> claimable r now y"
proof
  assume c: "claimable r now y"
  obtain x where x: "x \<in> set xs" "holds r owner until x" "distinct (map wk_run_id xs)" using assms(1) by (auto simp: held_def)
  then have "y = x" using c assms(3) by (auto simp: claimable_def holds_def distinct_map dest: inj_onD)
  then show False using c x(2) assms(2) by (auto simp: claimable_def holds_def)
qed

text \<open>
  C15. Two workers never hold the lease of one run. After a claim that succeeded, let any
  operations on the work follow, of any workers and in any order: claims and requests of this
  and of other runs, renewals, and ends of leases, only not the end of this lease, which its
  owner alone asks for, and no renewal by the owner for a shorter time. As long as the time the
  lease was taken for has not come, no claim of the run succeeds, whoever makes it, and the
  owner still has the lease. The ids of the work are distinct, as the primary key of the table
  demands, and the clock does not go back.
\<close>

theorem leases_exclude_each_other:
  assumes "distinct (map wk_run_id (shutdown_works (w_db w)))"
    and "claim_shutdown_work cp t r w = (Inr (Some owner), w1)"
    and "\<forall>i j. i \<le> j \<longrightarrow> w_clock w i \<le> w_clock w j"
    and "\<forall>e. Finish r owner \<notin> set ss \<and> Fail r owner e \<notin> set ss"
    and "\<forall>cp'. Renew cp' r owner \<in> set ss \<longrightarrow> cp_recovery_lease_seconds cp \<le> cp_recovery_lease_seconds cp'"
    and "w_clock w (w_ticks (after_steps ss w1)) < w_clock w (Suc (w_ticks w)) + 1000000 * cp_recovery_lease_seconds cp"
  shows "(\<forall>cp' t' o'. fst (claim_shutdown_work cp' t' r (after_steps ss w1)) \<noteq> Inr (Some o')) \<and>
    (\<exists>x \<in> set (shutdown_works (w_db (after_steps ss w1))). wk_run_id x = r \<and> wk_lease_owner x = Some owner)"
proof -
  let ?until = "w_clock w (Suc (w_ticks w)) + 1000000 * cp_recovery_lease_seconds cp"
  note first = claim_held [OF assms(1,2)]
  have "?until \<le> w_clock w (w_ticks w1) + 1000000 * cp_recovery_lease_seconds cp"
    using assms(3) [rule_format, of "Suc (w_ticks w)" "w_ticks w1"] first(3) by simp
  from steps_keep_held [OF assms(3-5) first(1,2) this assms(6)]
  have held: "held r owner ?until (shutdown_works (w_db (after_steps ss w1)))" .
  have clock: "w_clock (after_steps ss w1) = w_clock w" using onwards_steps [of ss w1] first(2) by simp
  show ?thesis
  proof (intro conjI allI)
    have "\<not> claimable r (w_clock (after_steps ss w1) (w_ticks (after_steps ss w1))) y"
      if "y \<in> set (shutdown_works (w_db (after_steps ss w1)))" for y
      by (rule held_not_claimable [OF held _ that]) (use assms(6) clock in simp)
    moreover have "\<exists>y \<in> set (shutdown_works (w_db (after_steps ss w1))). wk_run_id y = r"
      using held by (auto simp: held_def holds_def)
    ultimately show "fst (claim_shutdown_work cp' t' r (after_steps ss w1)) \<noteq> Inr (Some o')" for cp' t' o'
      using claim_none by blast
    show "\<exists>x \<in> set (shutdown_works (w_db (after_steps ss w1))). wk_run_id x = r \<and> wk_lease_owner x = Some owner"
      using held by (auto simp: held_def holds_def)
  qed
qed

lemma ticks_step: "\<not> (\<exists>cp t r actor key. s = Request cp t r actor key) \<Longrightarrow> w_ticks (snd (lease_call s w)) \<le> w_ticks w + 2"
proof (cases s)
  case (Claim cp t r)
  then show ?thesis
    by (cases "plus_seconds (w_clock w (Suc (w_ticks w))) (cp_recovery_lease_seconds cp)";
        cases "insert_or_ignore_work (new_work r t (w_clock w (w_ticks w))) (w_db w)")
       (simp_all add: snd_forget claim_shutdown_work_def m_defs Let_def)
next
  case (Renew cp r o')
  then show ?thesis
    by (cases "plus_seconds (w_clock w (w_ticks w)) (cp_recovery_lease_seconds cp)")
       (simp_all add: renew_shutdown_lease_def m_defs)
qed (simp_all add: finish_shutdown_work_def fail_shutdown_work_def m_defs)

lemma ticks_steps: "\<forall>s \<in> set ss. \<not> (\<exists>cp t r actor key. s = Request cp t r actor key) \<Longrightarrow> w_ticks (after_steps ss w) \<le> w_ticks w + 2 * length ss"
proof (induction ss arbitrary: w)
  case (Cons s ss)
  have "w_ticks (after_steps ss (snd (lease_call s w))) \<le> w_ticks (snd (lease_call s w)) + 2 * length ss"
    by (rule Cons.IH) (use Cons.prems in auto)
  moreover have "w_ticks (snd (lease_call s w)) \<le> w_ticks w + 2"
    by (rule ticks_step) (use Cons.prems in auto)
  ultimately show ?case by simp
qed simp

definition busy_steps :: "lease_step list" where
  "busy_steps = [Claim hasty_plane ''t'' ''1'', Renew example_plane ''1'' ''worker:5'', Finish ''1'' ''other'', Claim example_plane ''t'' ''9'']"

theorem leases_exclude_each_other_witness:
  "fst (claim_shutdown_work hasty_plane ''t'' ''1'' (after_steps busy_steps
     (moment 9 6 [thread0] ((db3 64000000)\<lparr>shutdown_works := [leased_work]\<rparr>)))) \<noteq> Inr (Some ''other'')"
proof -
  let ?w = "moment 9 6 [thread0] ((db3 64000000)\<lparr>shutdown_works := [leased_work]\<rparr>)"
  have "w_ticks (after_steps busy_steps ?w) \<le> 17"
    using ticks_steps [of busy_steps ?w] by (simp add: busy_steps_def)
  then have "1000000 * int (w_ticks (after_steps busy_steps ?w)) < 38000000" by linarith
  then show ?thesis
    by (intro leases_exclude_each_other [OF _ claim0, of busy_steps, THEN conjunct1, rule_format])
       (auto simp: db3_sel new_work_def example_plane_def busy_steps_def)
qed

end
