(* ===== verification/Metrics.thy ===== *)
theory Metrics
  imports Safety
begin

text \<open>
  \<open>asv/metrics.py\<close>: the exporter. Every number is read in a transaction of its own from the
  rows of one tenant and printed in the text format of Prometheus. The queries are the
  aggregates SQL computes: the groups of \<open>GROUP BY\<close> in the order of their keys.
\<close>

section \<open>The queries\<close>

fun work_status_value :: "work_status \<Rightarrow> string" where
  "work_status_value W_PENDING = ''PENDING''"
| "work_status_value W_RUNNING = ''RUNNING''"
| "work_status_value W_COMPLETE = ''COMPLETE''"

fun outbox_status_value :: "outbox_status \<Rightarrow> string" where
  "outbox_status_value O_PENDING = ''PENDING''"
| "outbox_status_value O_DELIVERED = ''DELIVERED''"
| "outbox_status_value O_DEAD_LETTER = ''DEAD_LETTER''"

text \<open>\<open>SELECT column, COUNT(*) ... GROUP BY column\<close>, as the dictionary built from its rows.\<close>

definition group_count :: "('r \<Rightarrow> 'k::linorder) \<Rightarrow> 'r list \<Rightarrow> ('k \<times> int) list" where
  "group_count column rows =
     map (\<lambda>k. (k, int (length (filter (\<lambda>r. column r = k) rows)))) (sort (remdups (map column rows)))"

text \<open>\<open>values.get(label, 0)\<close>.\<close>

definition get_count :: "('k \<times> int) list \<Rightarrow> 'k \<Rightarrow> int" where
  "get_count values label = (case map_of values label of None \<Rightarrow> 0 | Some n \<Rightarrow> n)"

text \<open>The tables of a tenant with the column that is counted.\<close>

definition count_runs :: "string \<Rightarrow> (string \<times> int) list m" where
  "count_runs t = transaction (query (\<lambda>d.
     group_count (\<lambda>r. state_value (rn_state r)) (filter (\<lambda>r. rn_tenant_id r = t) (runs d))))"

definition count_jobs :: "string \<Rightarrow> (string \<times> int) list m" where
  "count_jobs t = transaction (query (\<lambda>d.
     group_count (\<lambda>r. job_state_value (jb_state r)) (filter (\<lambda>r. jb_tenant_id r = t) (delegated_jobs d))))"

definition count_work :: "string \<Rightarrow> (string \<times> int) list m" where
  "count_work t = transaction (query (\<lambda>d.
     group_count (\<lambda>r. work_status_value (wk_status r)) (filter (\<lambda>r. wk_tenant_id r = t) (shutdown_works d))))"

definition count_outbox :: "string \<Rightarrow> (string \<times> int) list m" where
  "count_outbox t = transaction (query (\<lambda>d.
     group_count (\<lambda>r. outbox_status_value (ob_status r)) (filter (\<lambda>r. ob_tenant_id r = t) (event_outbox d))))"

definition pair_count :: "string \<Rightarrow> ((string \<times> string) \<times> int) list m" where
  "pair_count t = transaction (query (\<lambda>d.
     group_count (\<lambda>r. (pb_kind r, result_value (pb_result r))) (filter (\<lambda>r. pb_tenant_id r = t) (probes d))))"

definition event_counts :: "string \<Rightarrow> (string \<times> int) list m" where
  "event_counts t = transaction (query (\<lambda>d.
     group_count ev_event_type (filter (\<lambda>r. ev_tenant_id r = t) (evidences d))))"

definition sum_attempts :: "string \<Rightarrow> int m" where
  "sum_attempts t = transaction (query (\<lambda>d.
     sum_list (map wk_attempts (filter (\<lambda>r. wk_tenant_id r = t) (shutdown_works d)))))"

definition sum_deliveries :: "string \<Rightarrow> int m" where
  "sum_deliveries t = transaction (query (\<lambda>d.
     sum_list (map ob_attempts (filter (\<lambda>r. ob_tenant_id r = t) (event_outbox d)))))"

section \<open>Chain failures\<close>

definition select_chains :: "string \<Rightarrow> db \<Rightarrow> string evidence_row list" where
  "select_chains t d = sort_key (\<lambda>r. (ev_run_id r, ev_sequence_no r)) (filter (\<lambda>r. ev_tenant_id r = t) (evidences d))"

text \<open>\<open>records_by_run\<close>: the records in the order they are read, the runs in the order they first occur.\<close>

definition records_by_run :: "json evidence_row list \<Rightarrow> json evidence_row list list" where
  "records_by_run records =
     map (\<lambda>r. filter (\<lambda>x. ev_run_id x = r) records) (map fst (dict_of (map (\<lambda>x. (ev_run_id x, ())) records)))"

definition evidence_chain_failures :: "string \<Rightarrow> int m" where
  "evidence_chain_failures t =
     bnd (transaction (query (select_chains t))) (\<lambda>rows.
     bnd (lift (collect load_evidence rows)) (\<lambda>records.
     bnd (lift (collect verify_chain (records_by_run records))) (\<lambda>verdicts.
     ret (sum_list (map (\<lambda>v. if fst v then 0 else 1) verdicts)))))"

section \<open>The lines\<close>

definition family_head :: "string \<Rightarrow> string \<Rightarrow> string \<Rightarrow> string list" where
  "family_head name help_text metric_type =
     [''# HELP '' @ name @ '' '' @ help_text, ''# TYPE '' @ name @ '' '' @ metric_type]"

definition sample_line :: "string \<Rightarrow> string \<Rightarrow> string \<Rightarrow> int \<Rightarrow> string" where
  "sample_line name label_name label n =
     name @ ''{'' @ label_name @ ''='' @ [quote] @ label @ [quote] @ ''} '' @ int_dec n"

definition family :: "string \<Rightarrow> string \<Rightarrow> string \<Rightarrow> (string \<times> int) list \<Rightarrow> string list \<Rightarrow> string \<Rightarrow> string list" where
  "family name help_text metric_type values labels label_name =
     family_head name help_text metric_type @
     map (\<lambda>label. sample_line name label_name label (get_count values label)) labels"

definition labeled_values :: "string \<Rightarrow> string \<Rightarrow> string \<Rightarrow> string \<Rightarrow> (string \<times> int) list \<Rightarrow> string list" where
  "labeled_values name help_text metric_type label_name values =
     family_head name help_text metric_type @ map (\<lambda>(label, n). sample_line name label_name label n) values"

definition scalar :: "string \<Rightarrow> string \<Rightarrow> string \<Rightarrow> int \<Rightarrow> string list" where
  "scalar name help_text metric_type n =
     family_head name help_text metric_type @ [name @ '' '' @ int_dec n]"

definition probe_line :: "string \<Rightarrow> probe_result \<Rightarrow> int \<Rightarrow> string" where
  "probe_line kind result n =
     ''asv_probe_results_total{kind='' @ [quote] @ kind @ [quote] @ '',result='' @ [quote] @ result_value result
       @ [quote] @ ''} '' @ int_dec n"

definition probe_lines :: "((string \<times> string) \<times> int) list \<Rightarrow> string list" where
  "probe_lines counts =
     [''# HELP asv_probe_results_total Durable probe observations by boundary and result.'',
      ''# TYPE asv_probe_results_total counter''] @
     concat (map (\<lambda>kind. map (\<lambda>result. probe_line kind result (get_count counts (kind, result_value result)))
       probe_results) (PROBE_KINDS @ [''restart'']))"

text \<open>\<open>"\n".join(lines) + "\n"\<close>.\<close>

definition exposition :: "string list \<Rightarrow> string" where
  "exposition lines = join [CHR 0x0A] lines @ [CHR 0x0A]"

definition render :: "string \<Rightarrow> string m" where
  "render t =
     bnd (count_runs t) (\<lambda>run_counts.
     bnd (pair_count t) (\<lambda>probe_counts.
     bnd (count_jobs t) (\<lambda>job_counts.
     bnd (count_work t) (\<lambda>work_counts.
     bnd (sum_attempts t) (\<lambda>attempts.
     bnd (event_counts t) (\<lambda>events.
     bnd (evidence_chain_failures t) (\<lambda>failures.
     bnd (count_outbox t) (\<lambda>outbox_counts.
     bnd (sum_deliveries t) (\<lambda>deliveries.
     ret (exposition
       (family ''asv_runs'' ''Current runs by shutdown state.'' ''gauge'' run_counts
          (map state_value shutdown_states) ''state'' @
        probe_lines probe_counts @
        family ''asv_delegated_jobs'' ''Discovered delegated jobs by last observed state.'' ''gauge'' job_counts
          [''ACTIVE'', ''INACTIVE'', ''UNKNOWN''] ''state'' @
        family ''asv_shutdown_work_items'' ''Persisted shutdown work items by worker status.'' ''gauge'' work_counts
          [''PENDING'', ''RUNNING'', ''COMPLETE''] ''status'' @
        scalar ''asv_orchestration_attempts_total'' ''Persisted shutdown orchestration attempts.'' ''counter'' attempts @
        labeled_values ''asv_shutdown_phase_events_total'' ''Durable shutdown phase events.'' ''counter'' ''phase''
          [(''fenced'', get_count events ''shutdown.fenced''),
           (''process_stop_sent'', get_count events ''shutdown.process.stop.sent''),
           (''completed'', get_count events ''shutdown.completed'')] @
        labeled_values ''asv_shutdown_recovery_events_total'' ''Durable shutdown recovery events.'' ''counter'' ''outcome''
          [(''resumed'', get_count events ''shutdown.recovery.resumed''),
           (''deadline_exceeded'', get_count events ''shutdown.recovery.deadline.exceeded'')] @
        scalar ''asv_evidence_chain_failures'' ''Runs whose current evidence hash chain fails verification.'' ''gauge''
          failures @
        family ''asv_siem_outbox_events'' ''SIEM outbox events by delivery status.'' ''gauge'' outbox_counts
          [''PENDING'', ''DELIVERED'', ''DEAD_LETTER''] ''status'' @
        scalar ''asv_siem_delivery_attempts_total'' ''Persisted SIEM delivery attempts.'' ''counter'' deliveries)))))))))))"

section \<open>What the queries count\<close>

lemma transaction_query [simp]: "transaction (query q) = query q"
  by (simp add: transaction_def query_def fun_eq_iff)

lemma get_count_group:
  "get_count (group_count column rows) k = int (length (filter (\<lambda>r. column r = k) rows))"
proof -
  have "map_of (map (\<lambda>k. (k, g k)) ks) k = (if k \<in> set ks then Some (g k) else None)" for g :: "_ \<Rightarrow> int" and ks
    by (induction ks) auto
  then show ?thesis
    by (auto simp: get_count_def group_count_def intro!: filter_False)
qed

lemma collect_filter:
  "collect f xs = Inr ys \<Longrightarrow> (\<And>x y. f x = Inr y \<Longrightarrow> Q y = P x) \<Longrightarrow> collect f (filter P xs) = Inr (filter Q ys)"
proof (induction xs arbitrary: ys)
  case (Cons x xs)
  from Cons.prems(1) obtain y ys' where y: "f x = Inr y" "collect f xs = Inr ys'" "ys = y # ys'"
    by (auto split: sum.splits)
  with Cons.IH [OF y(2) Cons.prems(2)] Cons.prems(2) [OF y(1)] show ?case by simp
qed simp

lemma collect_all: "\<forall>x \<in> set xs. \<exists>y. f x = Inr y \<Longrightarrow> \<exists>ys. collect f xs = Inr ys"
  by (induction xs) (auto split: sum.split)

lemma load_evidence_run: "load_evidence r = Inr rec \<Longrightarrow> ev_run_id rec = ev_run_id r"
  by (auto simp: load_evidence_def split: sum.splits)

lemma chain_of_run:
  assumes "ledger_inv d"
  shows "filter (\<lambda>x. ev_run_id x = r) (select_chains t d) = filter (of_run t r) (evidences d)"
proof -
  let ?rows = "filter (of_run t r) (evidences d)"
  have "filter (\<lambda>x. ev_run_id x = r) (select_chains t d) = sort_key (\<lambda>x. (ev_run_id x, ev_sequence_no x)) ?rows"
    by (simp add: select_chains_def filter_sort of_run_def conj_commute cong: filter_cong)
  also have "\<dots> = sort_key ev_sequence_no ?rows"
  proof -
    have "sort_key (\<lambda>x. (ev_run_id x, ev_sequence_no x)) xs = sort_key ev_sequence_no xs" if "\<forall>x \<in> set xs. ev_run_id x = r" for xs :: "string evidence_row list"
      using that
    proof (induction xs)
      case (Cons x xs)
      have "insort_key (\<lambda>x. (ev_run_id x, ev_sequence_no x)) x ys = insort_key ev_sequence_no x ys" if "\<forall>y \<in> set ys. ev_run_id y = r" for ys
        using that Cons.prems by (induction ys) auto
      with Cons show ?case by simp
    qed simp
    then show ?thesis by (simp add: of_run_def)
  qed
  also have "\<dots> = ?rows" using select_evidence_chained [OF assms] by (simp add: select_evidence_def)
  finally show ?thesis .
qed

lemma collect_verdicts:
  "\<forall>x \<in> set xs. verify_chain x = Inr (True, None) \<Longrightarrow> collect verify_chain xs = Inr (map (\<lambda>_. (True, None)) xs)"
  by (induction xs) auto

lemma no_chain_failures:
  assumes inv: "ledger_inv (w_db w)"
  shows "evidence_chain_failures t w = (Inr 0, w)"
proof -
  let ?rows = "select_chains t (w_db w)"
  have run: "\<exists>recs. collect load_evidence (filter (\<lambda>x. ev_run_id x = r) ?rows) = Inr recs \<and> verify_chain recs = Inr (True, None)" for r
    using collect_chained [of 1 GENESIS_HASH "filter (of_run t r) (evidences (w_db w))"] inv
    by (auto simp: chain_of_run [OF inv] ledger_inv_iff verify_chain_def)
  have "\<exists>rec. load_evidence x = Inr rec" if "x \<in> set ?rows" for x
  proof -
    have x: "x \<in> set (filter (\<lambda>y. ev_run_id y = ev_run_id x) ?rows)" using that by simp
    have "collect f xs = Inr ys \<Longrightarrow> y \<in> set xs \<Longrightarrow> \<exists>z. f y = Inr z" for f and xs :: "string evidence_row list" and ys :: "json evidence_row list" and y
      by (induction xs arbitrary: ys) (auto split: sum.splits)
    with run x show ?thesis by blast
  qed
  then have "\<forall>x \<in> set ?rows. \<exists>rec. load_evidence x = Inr rec" by simp
  from collect_all [OF this] obtain records where records: "collect load_evidence ?rows = Inr records" ..
  have "verify_chain (filter (\<lambda>x. ev_run_id x = r) records) = Inr (True, None)" for r
  proof -
    have "collect load_evidence (filter (\<lambda>x. ev_run_id x = r) ?rows) = Inr (filter (\<lambda>x. ev_run_id x = r) records)"
      by (rule collect_filter [OF records]) (simp add: load_evidence_run)
    with run [of r] show ?thesis by (metis sum.inject(2))
  qed
  then have "collect verify_chain (records_by_run records) = Inr (map (\<lambda>_. (True, None)) (records_by_run records))"
    by (intro collect_verdicts) (simp add: records_by_run_def)
  moreover have "sum_list (map (\<lambda>v. if fst v then 0 else 1) (map (\<lambda>_. (True, None :: string option)) xs)) = (0 :: int)" for xs :: "json evidence_row list list"
    by (induction xs) simp_all
  ultimately show ?thesis by (simp add: evidence_chain_failures_def m_defs records)
qed

section \<open>Properties\<close>

text \<open>
  The reference: what the page has to say of a tenant, each number counted by itself over the
  rows, with no groups, no dictionaries and no labels looked up.
\<close>

definition how_many :: "('r \<Rightarrow> bool) \<Rightarrow> 'r list \<Rightarrow> int" where
  "how_many P rows = int (length (filter P rows))"

definition tenant_metrics :: "string \<Rightarrow> db \<Rightarrow> string list" where
  "tenant_metrics t d =
     family_head ''asv_runs'' ''Current runs by shutdown state.'' ''gauge'' @
     map (\<lambda>s. sample_line ''asv_runs'' ''state'' (state_value s) (how_many (\<lambda>r. rn_tenant_id r = t \<and> rn_state r = s) (runs d)))
       shutdown_states @
     family_head ''asv_probe_results_total'' ''Durable probe observations by boundary and result.'' ''counter'' @
     concat (map (\<lambda>k. map (\<lambda>p. probe_line k p
         (how_many (\<lambda>r. pb_tenant_id r = t \<and> pb_kind r = k \<and> pb_result r = p) (probes d)))
       probe_results) (PROBE_KINDS @ [''restart''])) @
     family_head ''asv_delegated_jobs'' ''Discovered delegated jobs by last observed state.'' ''gauge'' @
     map (\<lambda>s. sample_line ''asv_delegated_jobs'' ''state'' (job_state_value s)
         (how_many (\<lambda>r. jb_tenant_id r = t \<and> jb_state r = s) (delegated_jobs d))) [J_ACTIVE, J_INACTIVE, J_UNKNOWN] @
     family_head ''asv_shutdown_work_items'' ''Persisted shutdown work items by worker status.'' ''gauge'' @
     map (\<lambda>s. sample_line ''asv_shutdown_work_items'' ''status'' (work_status_value s)
         (how_many (\<lambda>r. wk_tenant_id r = t \<and> wk_status r = s) (shutdown_works d))) [W_PENDING, W_RUNNING, W_COMPLETE] @
     scalar ''asv_orchestration_attempts_total'' ''Persisted shutdown orchestration attempts.'' ''counter''
       (\<Sum>r \<leftarrow> shutdown_works d. if wk_tenant_id r = t then wk_attempts r else 0) @
     family_head ''asv_shutdown_phase_events_total'' ''Durable shutdown phase events.'' ''counter'' @
     map (\<lambda>(label, e). sample_line ''asv_shutdown_phase_events_total'' ''phase'' label
         (how_many (\<lambda>r. ev_tenant_id r = t \<and> ev_event_type r = e) (evidences d)))
       [(''fenced'', ''shutdown.fenced''), (''process_stop_sent'', ''shutdown.process.stop.sent''),
        (''completed'', ''shutdown.completed'')] @
     family_head ''asv_shutdown_recovery_events_total'' ''Durable shutdown recovery events.'' ''counter'' @
     map (\<lambda>(label, e). sample_line ''asv_shutdown_recovery_events_total'' ''outcome'' label
         (how_many (\<lambda>r. ev_tenant_id r = t \<and> ev_event_type r = e) (evidences d)))
       [(''resumed'', ''shutdown.recovery.resumed''), (''deadline_exceeded'', ''shutdown.recovery.deadline.exceeded'')] @
     scalar ''asv_evidence_chain_failures'' ''Runs whose current evidence hash chain fails verification.'' ''gauge'' 0 @
     family_head ''asv_siem_outbox_events'' ''SIEM outbox events by delivery status.'' ''gauge'' @
     map (\<lambda>s. sample_line ''asv_siem_outbox_events'' ''status'' (outbox_status_value s)
         (how_many (\<lambda>r. ob_tenant_id r = t \<and> ob_status r = s) (event_outbox d))) [O_PENDING, O_DELIVERED, O_DEAD_LETTER] @
     scalar ''asv_siem_delivery_attempts_total'' ''Persisted SIEM delivery attempts.'' ''counter''
       (\<Sum>r \<leftarrow> event_outbox d. if ob_tenant_id r = t then ob_attempts r else 0)"

text \<open>The counts behind a family, one lemma for each table.\<close>

lemma job_state_inj: "job_state_value a = job_state_value b \<longleftrightarrow> a = b"
  by (cases a; cases b) simp_all

lemma work_status_inj: "work_status_value a = work_status_value b \<longleftrightarrow> a = b"
  by (cases a; cases b) simp_all

lemma outbox_status_inj: "outbox_status_value a = outbox_status_value b \<longleftrightarrow> a = b"
  by (cases a; cases b) simp_all

lemma result_value_inj: "result_value a = result_value b \<longleftrightarrow> a = b"
  by (cases a; cases b) simp_all

lemma count_where:
  "get_count (group_count (\<lambda>r. v (column r)) (filter P rows)) (v k) = how_many (\<lambda>r. P r \<and> column r = k) rows"
  if "\<And>a b. v a = v b \<longleftrightarrow> a = b"
  by (simp add: get_count_group how_many_def that conj_commute)

lemma sum_where: "sum_list (map f (filter P rows)) = (\<Sum>r \<leftarrow> rows. if P r then f r else (0::int))"
  by (induction rows) simp_all

lemma family_counts:
  assumes "\<And>a b. v a = v b \<longleftrightarrow> a = b"
  shows "family name help_text metric_type (group_count (\<lambda>r. v (column r)) (filter P rows)) (map v ks) label_name =
     family_head name help_text metric_type @
     map (\<lambda>k. sample_line name label_name (v k) (how_many (\<lambda>r. P r \<and> column r = k) rows)) ks"
  by (simp add: family_def count_where [of v, OF assms] del: map_eq_conv cong: map_cong)

lemma probe_counts:
  "probe_lines (group_count (\<lambda>r. (pb_kind r, result_value (pb_result r))) (filter (\<lambda>r. pb_tenant_id r = t) rows)) =
     family_head ''asv_probe_results_total'' ''Durable probe observations by boundary and result.'' ''counter'' @
     concat (map (\<lambda>k. map (\<lambda>p. probe_line k p (how_many (\<lambda>r. pb_tenant_id r = t \<and> pb_kind r = k \<and> pb_result r = p) rows))
       probe_results) (PROBE_KINDS @ [''restart'']))"
  unfolding probe_lines_def family_head_def get_count_group how_many_def
  by (simp only: prod.inject result_value_inj filter_filter conj_ac append.simps)

lemmas label_lists = family_counts [where v = state_value, OF state_value_inj]
  family_counts [where v = job_state_value and ks = "[J_ACTIVE, J_INACTIVE, J_UNKNOWN]", OF job_state_inj]
  family_counts [where v = work_status_value and ks = "[W_PENDING, W_RUNNING, W_COMPLETE]", OF work_status_inj]
  family_counts [where v = outbox_status_value and ks = "[O_PENDING, O_DELIVERED, O_DEAD_LETTER]", OF outbox_status_inj]

text \<open>
  C28. The page is right: in every reachable state \<open>render\<close> returns, for every tenant, the
  page of its counts, with no evidence chain failing, and changes nothing.
\<close>

theorem render_counts:
  assumes "shutdown_adapter (cp_adapter cp)" and "reachable cp pu w"
  shows "render t w = (Inr (exposition (tenant_metrics t (w_db w))), w)"
proof -
  have "ledger_inv (w_db w)" using chain_reachable [OF assms] by (simp add: ledger_ok_def)
  then have chains: "evidence_chain_failures t w = (Inr 0, w)" by (rule no_chain_failures)
  have events: "get_count (group_count ev_event_type (filter (\<lambda>r. ev_tenant_id r = t) rows)) e =
      how_many (\<lambda>r. ev_tenant_id r = t \<and> ev_event_type r = e) rows" for rows :: "string evidence_row list" and e
    by (simp add: get_count_group how_many_def conj_commute)
  note families = label_lists [simplified list.map job_state_value.simps work_status_value.simps outbox_status_value.simps]
  show ?thesis
    unfolding render_def count_runs_def count_jobs_def count_work_def count_outbox_def pair_count_def event_counts_def
      sum_attempts_def sum_deliveries_def transaction_query m_exec(7)
    by (simp only: bnd_def [of "evidence_chain_failures t"] chains prod.case sum.case m_exec(7) ret_def families probe_counts events sum_where
        tenant_metrics_def labeled_values_def list.map append_assoc job_state_value.simps work_status_value.simps
        outbox_status_value.simps)
qed

theorem render_counts_witness:
  "render ''t'' requested0 = (Inr (exposition (tenant_metrics ''t'' (w_db requested0))), requested0)"
  by (rule render_counts [OF example_adapter(1) reachable_requested0 [of example_publisher]])

text \<open>
  C29. The page of a tenant is a function of the tenant's own rows: two databases that agree on
  them give the same page, or the same error, whatever they hold of other tenants.
\<close>

definition tenant_rows ::
  "string \<Rightarrow> db \<Rightarrow> run_row list \<times> string probe_row list \<times> job_row list \<times> work_row list \<times> string evidence_row list \<times> outbox_row list" where
  "tenant_rows t d =
     (filter (\<lambda>r. rn_tenant_id r = t) (runs d), filter (\<lambda>r. pb_tenant_id r = t) (probes d),
      filter (\<lambda>r. jb_tenant_id r = t) (delegated_jobs d), filter (\<lambda>r. wk_tenant_id r = t) (shutdown_works d),
      filter (\<lambda>r. ev_tenant_id r = t) (evidences d), filter (\<lambda>r. ob_tenant_id r = t) (event_outbox d))"

theorem pages_are_tenant_scoped:
  assumes "tenant_rows t (w_db w) = tenant_rows t (w_db w')"
  shows "fst (render t w) = fst (render t w')"
  using assms
  by (simp add: tenant_rows_def render_def count_runs_def count_jobs_def count_work_def count_outbox_def pair_count_def
      event_counts_def sum_attempts_def sum_deliveries_def evidence_chain_failures_def select_chains_def bnd_def query_def
      lift_def ret_def split: sum.split)

theorem pages_are_tenant_scoped_witness:
  "fst (render ''t'' (requested0\<lparr>w_db := (w_db requested0)\<lparr>runs := runs (w_db requested0) @ [run0\<lparr>rn_tenant_id := ''u''\<rparr>]\<rparr>\<rparr>))
     = fst (render ''t'' requested0)"
  by (rule pages_are_tenant_scoped) (simp add: tenant_rows_def)

end
