(* ===== verification/Auth.thy ===== *)
theory Auth
  imports Registry
begin

text \<open>
  \<open>asv/auth.py\<close>: the service tokens. \<open>issue\<close> signs the claims of a principal,
  \<open>authenticate\<close> checks a header and returns the principal, \<open>require_role\<close> checks roles.
  The two functions of Python's \<open>base64\<close> are defined as \<open>binascii\<close> computes them: the
  decoder skips characters outside the alphabet. A payload in UTF-16 or UTF-32, which
  \<open>json.loads\<close> would detect, is outside the model, and so is a token with code points above 255.
\<close>

section \<open>\<open>base64\<close>\<close>

text \<open>The URL-safe alphabet.\<close>

definition b64_char :: "nat \<Rightarrow> char" where
  "b64_char n =
     (if n < 26 then char_of (65 + n) else if n < 52 then char_of (71 + n)
      else if n < 62 then char_of (n - 4) else if n = 62 then CHR ''-'' else CHR ''_'')"

text \<open>The decoding table after \<open>translate\<close>: \<open>-\<close> and \<open>+\<close>, \<open>_\<close> and \<open>/\<close> stand for the same.\<close>

definition b64_val :: "char \<Rightarrow> nat option" where
  "b64_val c =
     (let n = (of_char c :: nat) in
      if 65 \<le> n \<and> n \<le> 90 then Some (n - 65)
      else if 97 \<le> n \<and> n \<le> 122 then Some (n - 71)
      else if 48 \<le> n \<and> n \<le> 57 then Some (n + 4)
      else if n = 45 \<or> n = 43 then Some 62
      else if n = 95 \<or> n = 47 then Some 63
      else None)"

definition pad :: char where
  "pad = CHR ''=''"

fun urlsafe_b64encode :: "string \<Rightarrow> string" where
  "urlsafe_b64encode [] = []"
| "urlsafe_b64encode [a] =
     [b64_char (of_char a div 4), b64_char (of_char a mod 4 * 16), pad, pad]"
| "urlsafe_b64encode [a, b] =
     [b64_char (of_char a div 4), b64_char (of_char a mod 4 * 16 + of_char b div 16),
      b64_char (of_char b mod 16 * 4), pad]"
| "urlsafe_b64encode (a # b # c # r) =
     [b64_char (of_char a div 4), b64_char (of_char a mod 4 * 16 + of_char b div 16),
      b64_char (of_char b mod 16 * 4 + of_char c div 64), b64_char (of_char c mod 64)] @ urlsafe_b64encode r"

definition binascii_error :: "string \<Rightarrow> exn" where
  "binascii_error msg = Exn (OtherError ''Error'') msg"

text \<open>
  \<open>binascii.a2b_base64\<close>: the position in the current group of four, the bits left over, the
  padding seen since the last character, and the bytes so far.
\<close>

fun a2b :: "nat \<Rightarrow> nat \<Rightarrow> nat \<Rightarrow> string \<Rightarrow> string \<Rightarrow> exn + string" where
  "a2b quad left pads out [] =
     (if quad = 0 then Inr out
      else if quad = 1 then Inl (binascii_error
        (''Invalid base64-encoded string: number of data characters ('' @ nat_dec (length out div 3 * 4 + 1)
           @ '') cannot be 1 more than a multiple of 4''))
      else Inl (binascii_error ''Incorrect padding''))"
| "a2b quad left pads out (c # s) =
     (if c = pad then
        (if 2 \<le> quad \<and> 4 \<le> quad + Suc pads then Inr out
         else a2b quad left (if 2 \<le> quad then Suc pads else pads) out s)
      else (case b64_val c of
        None \<Rightarrow> a2b quad left pads out s
      | Some v \<Rightarrow>
          (if quad = 0 then a2b 1 v 0 out s
           else if quad = 1 then a2b 2 (v mod 16) 0 (out @ [byte_of (left * 4 + v div 16)]) s
           else if quad = 2 then a2b 3 (v mod 4) 0 (out @ [byte_of (left * 16 + v div 4)]) s
           else a2b 0 0 0 (out @ [byte_of (left * 64 + v)]) s)))"

definition urlsafe_b64decode :: "string \<Rightarrow> exn + string" where
  "urlsafe_b64decode s =
     (if is_ascii s then a2b 0 0 0 [] s
      else Inl (Exn ValueError ''string argument should contain only ASCII characters''))"

section \<open>\<open>_encode\<close>, \<open>_decode\<close>\<close>

definition rstrip_pad :: "string \<Rightarrow> string" where
  "rstrip_pad s = rev (dropWhile (\<lambda>c. c = pad) (rev s))"

definition token_encode :: "string \<Rightarrow> string" where
  "token_encode value = rstrip_pad (urlsafe_b64encode value)"

definition token_decode :: "string \<Rightarrow> exn + string" where
  "token_decode value = urlsafe_b64decode (value @ replicate (nat (- int (length value) mod 4)) pad)"

section \<open>\<open>json.loads\<close> of bytes, \<open>time.time\<close>, \<open>str.split\<close>\<close>

fun utf8_decode :: "string \<Rightarrow> string option" where
  "utf8_decode [] = Some []"
| "utf8_decode (c # s) =
     (if (of_char c :: nat) < 128 then map_option ((#) c) (utf8_decode s)
      else (case s of
        [] \<Rightarrow> None
      | d # r \<Rightarrow>
          if (of_char c = (194 :: nat) \<or> of_char c = (195 :: nat)) \<and> 128 \<le> (of_char d :: nat) \<and> (of_char d :: nat) < 192
          then map_option ((#) (char_of ((of_char c - 192) * 64 + (of_char d - 128) :: nat))) (utf8_decode r)
          else None))"

definition loads_bytes :: "string \<Rightarrow> exn + json" where
  "loads_bytes bs =
     (case utf8_decode bs of
        None \<Rightarrow> Inl (Exn (OtherError ''UnicodeDecodeError'') ''invalid UTF-8'')
      | Some s \<Rightarrow> py_loads s)"

text \<open>\<open>int(time.time())\<close> of a reading in microseconds.\<close>

definition int_seconds :: "instant \<Rightarrow> int" where
  "int_seconds t = (if t < 0 then - (- t div 1000000) else t div 1000000)"

text \<open>\<open>s.split(".", n)\<close>.\<close>

fun split_dot :: "nat \<Rightarrow> string \<Rightarrow> string list" where
  "split_dot 0 s = [s]"
| "split_dot (Suc n) s =
     (let a = takeWhile (\<lambda>c. c \<noteq> CHR ''.'') s; r = dropWhile (\<lambda>c. c \<noteq> CHR ''.'') s
      in if r = [] then [a] else a # split_dot n (tl r))"

section \<open>\<open>Principal\<close>, \<open>TokenAuthenticator\<close>\<close>

record principal =
  pr_tenant_id :: string
  pr_actor :: string
  pr_roles :: "string set"

definition new_authenticator :: "string \<Rightarrow> exn + string" where
  "new_authenticator secret =
     (if length secret < 32 then Inl (Exn ValueError ''ASV_AUTH_SECRET must contain at least 32 bytes'')
      else Inr secret)"

definition token_claims :: "principal \<Rightarrow> int \<Rightarrow> int \<Rightarrow> json dict" where
  "token_claims who now ttl_seconds =
     [(''tenant_id'', JStr (pr_tenant_id who)),
      (''actor'', JStr (pr_actor who)),
      (''roles'', JArr (map JStr (sorted_list_of_set (pr_roles who)))),
      (''iat'', JInt now),
      (''exp'', JInt (now + ttl_seconds))]"

definition token_text :: "string \<Rightarrow> json dict \<Rightarrow> string" where
  "token_text secret payload =
     (let encoded = token_encode (utf8 (canonical_json (JObj payload)));
          signature = hmac_hex secret (utf8 (''v1.'' @ encoded))
      in ''v1.'' @ encoded @ ''.'' @ signature)"

definition issue :: "string \<Rightarrow> principal \<Rightarrow> int \<Rightarrow> string m" where
  "issue secret who ttl_seconds =
     bnd utc_now (\<lambda>t. ret (token_text secret (token_claims who (int_seconds t) ttl_seconds)))"

text \<open>The classes the \<open>except\<close> clause catches, with the subclasses of \<open>ValueError\<close> raised here.\<close>

definition token_error :: "exn \<Rightarrow> bool" where
  "token_error e \<longleftrightarrow>
     exn_class e \<in> {ValueError, KeyError, OtherError ''JSONDecodeError'', OtherError ''Error'', OtherError ''UnicodeDecodeError''}"

text \<open>\<open>v.get(key)\<close>.\<close>

definition get_attr :: "json \<Rightarrow> string \<Rightarrow> exn + json" where
  "get_attr v key =
     (case v of
        JObj kvs \<Rightarrow> Inr (get_or_null kvs key)
      | _ \<Rightarrow> Inl (Exn AttributeError
          (apostrophe @ type_name v @ apostrophe @ '' object has no attribute '' @ apostrophe @ ''get'' @ apostrophe)))"

definition unpack_error :: "string list \<Rightarrow> exn" where
  "unpack_error parts = Exn ValueError
     (''not enough values to unpack (expected 3, got '' @ nat_dec (length parts) @ '')'')"

text \<open>The body of the \<open>try\<close>: the payload and its roles.\<close>

definition checked_claims :: "string \<Rightarrow> string \<Rightarrow> (json \<times> string list) m" where
  "checked_claims secret token =
     (case split_dot 2 token of
        [version, encoded, supplied_signature] \<Rightarrow>
          if version \<noteq> ''v1'' then throw (Exn ValueError ''unsupported token version'')
          else
            bnd (lift (compare_digest (hmac_hex secret (utf8 (version @ ''.'' @ encoded))) supplied_signature)) (\<lambda>same.
            if \<not> same then throw (Exn ValueError ''signature mismatch'')
            else
              bnd (lift (token_decode encoded)) (\<lambda>bytes.
              bnd (lift (loads_bytes bytes)) (\<lambda>payload.
              bnd (lift (subscript payload ''exp'')) (\<lambda>raw_exp.
              bnd (lift (py_int raw_exp)) (\<lambda>exp.
              bnd utc_now (\<lambda>t.
              if exp \<le> int_seconds t then throw (Exn ValueError ''token expired'')
              else
                bnd (lift (get_attr payload ''tenant_id'')) (\<lambda>tenant_id.
                bnd (lift (get_attr payload ''actor'')) (\<lambda>actor.
                if \<not> py_truthy tenant_id \<or> \<not> py_truthy actor then
                  throw (Exn ValueError ''token identity is incomplete'')
                else
                  bnd (lift (get_attr payload ''roles'')) (\<lambda>roles.
                  case roles of
                    JArr rs \<Rightarrow>
                      if list_all is_jstr rs then ret (payload, map py_str rs)
                      else throw (Exn ValueError ''roles claim is invalid'')
                  | _ \<Rightarrow> throw (Exn ValueError ''roles claim is invalid''))))))))))
      | parts \<Rightarrow> throw (unpack_error parts))"

definition principal_of :: "json \<Rightarrow> string list \<Rightarrow> exn + principal" where
  "principal_of payload roles =
     (case (subscript payload ''tenant_id'', subscript payload ''actor'') of
        (Inl e, _) \<Rightarrow> Inl e
      | (Inr t, Inl e) \<Rightarrow> Inl e
      | (Inr t, Inr a) \<Rightarrow> Inr \<lparr>pr_tenant_id = py_str t, pr_actor = py_str a, pr_roles = set roles\<rparr>)"

definition authenticate :: "string \<Rightarrow> string \<Rightarrow> principal m" where
  "authenticate secret authorization =
     (if \<not> starts_with authorization ''Bearer '' then
        throw (Exn AuthenticationError ''Bearer token is required'')
      else
        bnd (catch (checked_claims secret (py_strip (drop 7 authorization)))
               (\<lambda>e. if token_error e then throw (Exn AuthenticationError (''invalid service token: '' @ exn_message e))
                    else throw e)) (\<lambda>(payload, roles).
        lift (principal_of payload roles)))"

definition require_role :: "principal \<Rightarrow> string list \<Rightarrow> exn + unit" where
  "require_role who allowed_roles =
     (if pr_roles who \<inter> set allowed_roles = {} then
        Inl (Exn AuthorizationError (''one of these roles is required: '' @ join '', '' allowed_roles))
      else Inr ())"


section \<open>The encodings\<close>

lemma b64_chars: "n < 64 \<Longrightarrow> b64_val (b64_char n) = Some n \<and> b64_char n \<noteq> pad \<and> (of_char (b64_char n) :: nat) < 128 \<and> b64_char n \<noteq> CHR ''.''"
proof -
  assume n: "n < 64"
  have code: "of_char (b64_char n) = (if n < 26 then 65 + n else if n < 52 then 71 + n else if n < 62 then n - 4
      else if n = 62 then 45 else (95 :: nat))"
    using n by (auto simp: b64_char_def of_char_of)
  have "of_char (b64_char n) \<noteq> (of_char pad :: nat)" "of_char (b64_char n) \<noteq> (of_char CHR ''.'' :: nat)"
    using n by (auto simp: code pad_def)
  then have "b64_char n \<noteq> pad" "b64_char n \<noteq> CHR ''.''" by metis+
  moreover have "b64_val (b64_char n) = Some n" using n by (auto simp: b64_val_def code Let_def)
  ultimately show ?thesis using n by (auto simp: code)
qed

lemma char_bounds [simp]: "(of_char c :: nat) < 256" "of_char c div (4::nat) < 64" "of_char c div (16::nat) < 16" "of_char c div (64::nat) < 4"
  by (simp_all add: less_mult_imp_div_less)

lemma byte_of_char [simp]: "byte_of (of_char c) = c"
  by (simp add: byte_of_def)

text \<open>The four characters of a group, and how they are put together again.\<close>

definition sextets :: "nat \<Rightarrow> nat \<Rightarrow> nat \<Rightarrow> nat list" where
  "sextets a b c = [a div 4, a mod 4 * 16 + b div 16, b mod 16 * 4 + c div 64, c mod 64]"

lemma split_digits:
  fixes a b c :: nat
  assumes "b < 256" and "c < 256"
  shows "(a mod 4 * 16 + b div 16) div 16 = a mod 4" "(a mod 4 * 16 + b div 16) mod 16 = b div 16"
    "(b mod 16 * 4 + c div 64) div 4 = b mod 16" "(b mod 16 * 4 + c div 64) mod 4 = c div 64"
    "a mod 4 * 16 + b div 16 < 64" "b mod 16 * 4 + c div 64 < 64"
proof -
  have "b div 16 < 16" "c div 64 < 4" using assms by (simp_all add: less_mult_imp_div_less)
  moreover have "a mod 4 < 4" "b mod 16 < 16" by simp_all
  ultimately show "(a mod 4 * 16 + b div 16) div 16 = a mod 4" "(a mod 4 * 16 + b div 16) mod 16 = b div 16"
    "(b mod 16 * 4 + c div 64) div 4 = b mod 16" "(b mod 16 * 4 + c div 64) mod 4 = c div 64"
    "a mod 4 * 16 + b div 16 < 64" "b mod 16 * 4 + c div 64 < 64" by simp_all
qed

lemma join_digits:
  fixes a :: nat
  shows "a div 4 * 4 + a mod 4 = a" "a div 16 * 16 + a mod 16 = a" "a div 64 * 64 + a mod 64 = a"
  by simp_all

lemmas group_simps = split_digits [OF char_bounds(1) char_bounds(1)] split_digits(1,2,5) [where b = 0, simplified]
  split_digits(3,4,6) [where c = 0, simplified] join_digits b64_chars

lemma a2b_encode: "a2b 0 0 0 out (urlsafe_b64encode bs) = Inr (out @ bs)"
proof (induction bs arbitrary: out rule: urlsafe_b64encode.induct)
  case 1
  then show ?case by simp
next
  case (2 a)
  show ?case by (simp add: group_simps)
next
  case (3 a b)
  show ?case by (simp add: group_simps)
next
  case (4 a b c r)
  then show ?case by (simp add: group_simps)
qed

fun b64_body :: "string \<Rightarrow> string" where
  "b64_body [] = []"
| "b64_body [a] = [b64_char (of_char a div 4), b64_char (of_char a mod 4 * 16)]"
| "b64_body [a, b] =
     [b64_char (of_char a div 4), b64_char (of_char a mod 4 * 16 + of_char b div 16), b64_char (of_char b mod 16 * 4)]"
| "b64_body (a # b # c # r) =
     [b64_char (of_char a div 4), b64_char (of_char a mod 4 * 16 + of_char b div 16),
      b64_char (of_char b mod 16 * 4 + of_char c div 64), b64_char (of_char c mod 64)] @ b64_body r"

lemma b64_body_chars: "c \<in> set (b64_body bs) \<Longrightarrow> c \<noteq> pad \<and> (of_char c :: nat) < 128 \<and> c \<noteq> CHR ''.''"
  by (induction bs rule: b64_body.induct) (auto simp: group_simps)

lemma encode_body:
  "urlsafe_b64encode bs = b64_body bs @ replicate (nat (- int (length (b64_body bs)) mod 4)) pad"
proof -
  have rep: "replicate 2 pad = [pad, pad]" by (simp add: numeral_2_eq_2)
  have four: "nat (- int (Suc (Suc (Suc (Suc n)))) mod 4) = nat (- int n mod 4)" for n
  proof -
    have "- (int n + 4) mod 4 = - int n mod 4" by presburger
    then show ?thesis by (simp add: algebra_simps)
  qed
  have few: "nat (- int (Suc (Suc 0)) mod 4) = 2" "nat (- int (Suc (Suc (Suc 0))) mod 4) = 1" by simp_all
  show ?thesis
    by (induction bs rule: urlsafe_b64encode.induct) (simp_all add: rep four few del: of_nat_Suc of_nat_add)
qed

lemma token_encode_body: "token_encode bs = b64_body bs"
proof -
  have "dropWhile (\<lambda>c. c = pad) (replicate k pad @ ys) = ys" if "\<forall>c \<in> set ys. c \<noteq> pad" for k ys
    using that by (induction k) (auto simp: dropWhile_eq_self_iff neq_Nil_conv)
  then show ?thesis using b64_body_chars
    by (simp add: token_encode_def rstrip_pad_def encode_body)
qed

lemma decode_body: "token_decode (b64_body bs) = Inr bs"
proof -
  have "is_ascii (b64_body bs @ replicate k pad)" for k
    using b64_body_chars [of _ bs] by (auto simp: is_ascii_def pad_def)
  then show ?thesis
    using a2b_encode [of "[]" bs]
    by (simp add: token_decode_def urlsafe_b64decode_def encode_body)
qed

text \<open>
  \<open>_decode\<close> inverts \<open>_encode\<close> on every byte string: the padding that is stripped is the
  padding that is put back.
\<close>

theorem token_decode_encode: "token_decode (token_encode bs) = Inr bs"
  by (simp add: token_encode_body decode_body)


section \<open>Reading an issued token\<close>

lemma hex_chars: "c \<in> set (hex s) \<Longrightarrow> \<not> is_space c \<and> c \<noteq> CHR ''.''"
proof -
  have h: "\<not> is_space (hex_digit n) \<and> hex_digit n \<noteq> CHR ''.''" if "n < 16" for n
  proof -
    have "(of_char (hex_digit n) :: nat) = (if n < 10 then 48 + n else 87 + n)" using that by (simp add: hex_digit_def of_char_of)
    moreover from this have "(of_char (hex_digit n) :: nat) \<noteq> of_char CHR ''.''" using that by auto
    ultimately show ?thesis using that by (auto simp: is_space_def Let_def)
  qed
  show "c \<in> set (hex s) \<Longrightarrow> ?thesis" by (auto simp: hex_def h)
qed

lemma be_bytes_length [simp]: "length (be_bytes n v) = n"
  by (simp add: be_bytes_def)

lemma sha256_nonempty: "sha256 s \<noteq> []"
proof -
  have "length (sha256 s) = 32" by (simp add: sha256_def Let_def)
  then show ?thesis by auto
qed

lemma hmac_hex_nonempty: "hmac_hex key msg \<noteq> []"
proof -
  have "s \<noteq> [] \<Longrightarrow> hex s \<noteq> []" for s by (cases s) (simp_all add: hex_def)
  then show ?thesis using sha256_nonempty by (simp add: hmac_hex_def hmac_sha256_def Let_def)
qed

lemma py_strip_id:
  assumes "t \<noteq> []" and "\<not> is_space (hd t)" and "\<not> is_space (last t)"
  shows "py_strip t = t"
proof -
  have "dropWhile is_space t = t" "dropWhile is_space (rev t) = rev t"
    using assms by (simp_all add: dropWhile_eq_self_iff hd_rev)
  then show ?thesis by (simp add: py_strip_def)
qed

lemma strip_token:
  assumes "sig \<noteq> []" and "\<not> is_space (last sig)"
  shows "py_strip (''v1.'' @ enc @ ''.'' @ sig) = ''v1.'' @ enc @ ''.'' @ sig"
  using assms by (intro py_strip_id) (auto simp: is_space_def)

lemma split_token:
  assumes "CHR ''.'' \<notin> set enc"
  shows "split_dot 2 (''v1.'' @ enc @ ''.'' @ sig) = [''v1'', enc, sig]"
proof -
  have "takeWhile (\<lambda>c. c \<noteq> CHR ''.'') (enc @ CHR ''.'' # sig) = enc" "dropWhile (\<lambda>c. c \<noteq> CHR ''.'') (enc @ CHR ''.'' # sig) = CHR ''.'' # sig"
    using assms by (induction enc) auto
  then show ?thesis by (simp add: numeral_2_eq_2 Let_def)
qed

lemma split_dot_Cons:
  assumes "split_dot (Suc n) t = a # b # rest"
  shows "\<exists>t'. t = a @ CHR ''.'' # t' \<and> split_dot n t' = b # rest \<and> CHR ''.'' \<notin> set a"
proof -
  let ?P = "\<lambda>c. c \<noteq> CHR ''.''"
  have r: "dropWhile ?P t \<noteq> []" "a = takeWhile ?P t" "split_dot n (tl (dropWhile ?P t)) = b # rest"
    using assms by (simp_all add: Let_def split: if_splits)
  have "t = takeWhile ?P t @ dropWhile ?P t" by simp
  moreover have "dropWhile ?P t = CHR ''.'' # tl (dropWhile ?P t)"
    using hd_dropWhile [OF r(1)] r(1) by (cases "dropWhile ?P t") auto
  moreover have "CHR ''.'' \<notin> set (takeWhile ?P t)" by (auto dest: set_takeWhileD)
  ultimately show ?thesis using r(2,3) by metis
qed

lemma split_dot_join:
  assumes "split_dot 2 t = [a, b, c]"
  shows "t = a @ ''.'' @ b @ ''.'' @ c"
proof -
  obtain t' where t': "t = a @ CHR ''.'' # t'" "split_dot (Suc 0) t' = [b, c]"
    using split_dot_Cons [of "Suc 0" t a b "[c]"] assms by (auto simp: numeral_2_eq_2)
  obtain t'' where t'': "t' = b @ CHR ''.'' # t''" "split_dot 0 t'' = [c]"
    using split_dot_Cons [OF t'(2)] by blast
  from t''(2) have "t'' = c" by simp
  then show ?thesis using t'(1) t''(1) by simp
qed

lemma utf8_decode_ascii: "is_ascii s \<Longrightarrow> utf8_decode s = Some s"
  by (induction s) auto

lemma get_claim:
  "subscript (norm_json True (JObj kvs)) k =
     (case dict_get kvs k of None \<Rightarrow> Inl (key_error k) | Some x \<Rightarrow> Inr (norm_json True x))"
  "get_attr (norm_json True (JObj kvs)) k =
     Inr (case dict_get kvs k of None \<Rightarrow> JNull | Some x \<Rightarrow> norm_json True x)"
  by (simp_all add: subscript_def get_attr_def get_or_null_def norm_obj dict_get_norm split: option.splits)

lemma claim_fields:
  "dict_get (token_claims who now ttl) ''tenant_id'' = Some (JStr (pr_tenant_id who))"
  "dict_get (token_claims who now ttl) ''actor'' = Some (JStr (pr_actor who))"
  "dict_get (token_claims who now ttl) ''roles'' = Some (JArr (map JStr (sorted_list_of_set (pr_roles who))))"
  "dict_get (token_claims who now ttl) ''exp'' = Some (JInt (now + ttl))"
  by (simp_all add: token_claims_def dict_get_distinct)

lemma split_token_text:
  "split_dot 2 (py_strip (token_text secret payload)) =
     [''v1'', b64_body (canonical_json (JObj payload)),
      hmac_hex secret (''v1.'' @ b64_body (canonical_json (JObj payload)))]"
proof -
  let ?enc = "b64_body (canonical_json (JObj payload))"
  have "is_ascii ?enc" using b64_body_chars by (fastforce simp: is_ascii_def)
  then have "token_text secret payload = ''v1.'' @ ?enc @ ''.'' @ hmac_hex secret (''v1.'' @ ?enc)"
    by (simp add: token_text_def token_encode_body Let_def)
  moreover have "CHR ''.'' \<notin> set ?enc" using b64_body_chars by blast
  moreover have "\<not> is_space (last (hmac_hex secret s))" for s
    using hex_chars hmac_hex_nonempty [of secret s] by (metis hmac_hex_def last_in_set)
  ultimately show ?thesis
    using strip_token [OF hmac_hex_nonempty] split_token by simp
qed

lemma own_token_accepted:
  assumes roles: "finite (pr_roles who)"
    and named: "pr_tenant_id who \<noteq> []" "pr_actor who \<noteq> []"
    and fresh: "int_seconds (w_clock w (w_ticks w)) < now + ttl"
  shows "authenticate secret (''Bearer '' @ token_text secret (token_claims who now ttl)) w
           = (Inr who, w\<lparr>w_ticks := Suc (w_ticks w)\<rparr>)"
proof -
  let ?claims = "token_claims who now ttl"
  let ?token = "token_text secret ?claims"
  let ?enc = "b64_body (canonical_json (JObj ?claims))"
  have enc: "is_ascii ?enc" using b64_body_chars by (fastforce simp: is_ascii_def)
  have dec: "token_decode ?enc = Inr (canonical_json (JObj ?claims))"
    by (simp add: decode_body)
  have load: "loads_bytes (canonical_json (JObj ?claims)) = Inr (norm_json True (JObj ?claims))"
    by (simp add: loads_bytes_def utf8_decode_ascii is_ascii_canonical py_loads_def)
  have read: "checked_claims secret (py_strip ?token) w =
      (Inr (norm_json True (JObj ?claims), sorted_list_of_set (pr_roles who)), w\<lparr>w_ticks := Suc (w_ticks w)\<rparr>)"
    using fresh named enc
    by (simp add: checked_claims_def split_token_text m_defs dec load get_claim claim_fields list.map_comp comp_def
        list_all_iff)
  have "starts_with (''Bearer '' @ ?token) ''Bearer ''" by (simp add: starts_with_iff)
  moreover have "drop 7 (''Bearer '' @ ?token) = ?token" by simp
  ultimately show ?thesis using roles
    by (simp add: authenticate_def m_defs read principal_of_def get_claim claim_fields)
qed

text \<open>
  C19. Whoever was issued a token is who the token authenticates, until it expires: with the
  header \<open>Bearer <token>\<close> and before the expiry the result is the principal, roles included,
  and only the clock was read.
\<close>

theorem issued_token_authenticates:
  assumes "finite (pr_roles who)" and "pr_tenant_id who \<noteq> []" and "pr_actor who \<noteq> []"
    and issued: "issue secret who ttl w = (Inr token, w1)"
    and "int_seconds (w_clock w2 (w_ticks w2)) < int_seconds (w_clock w (w_ticks w)) + ttl"
  shows "authenticate secret (''Bearer '' @ token) w2 = (Inr who, w2\<lparr>w_ticks := Suc (w_ticks w2)\<rparr>)"
proof -
  have "token = token_text secret (token_claims who (int_seconds (w_clock w (w_ticks w))) ttl)"
    using issued by (simp add: issue_def m_defs)
  then show ?thesis using own_token_accepted assms by simp
qed

definition sample_principal :: principal where
  "sample_principal = \<lparr>pr_tenant_id = ''t'', pr_actor = ''a'', pr_roles = {''operator'', ''auditor''}\<rparr>"

theorem issued_token_authenticates_witness:
  "authenticate ''k'' (''Bearer '' @ token_text ''k'' (token_claims sample_principal 0 3600)) sample_world
     = (Inr sample_principal, sample_world\<lparr>w_ticks := 1\<rparr>)"
  using issued_token_authenticates [of sample_principal "''k''" 3600 sample_world _ _ sample_world]
  by (simp add: sample_principal_def issue_def m_defs sample_world_def int_seconds_def)

text \<open>The \<open>try\<close> block, when it succeeds.\<close>

lemma checked_claims_Inr:
  assumes "checked_claims secret token w = (Inr (payload, roles), w')"
  shows "\<exists>enc bytes raw exp t a rs. token = ''v1.'' @ enc @ ''.'' @ hmac_hex secret (utf8 (''v1.'' @ enc)) \<and>
    token_decode enc = Inr bytes \<and> loads_bytes bytes = Inr payload \<and>
    subscript payload ''exp'' = Inr raw \<and> py_int raw = Inr exp \<and> int_seconds (w_clock w (w_ticks w)) < exp \<and>
    get_attr payload ''tenant_id'' = Inr t \<and> py_truthy t \<and> get_attr payload ''actor'' = Inr a \<and> py_truthy a \<and>
    get_attr payload ''roles'' = Inr (JArr rs) \<and> list_all is_jstr rs \<and> roles = map py_str rs \<and>
    w' = w\<lparr>w_ticks := Suc (w_ticks w)\<rparr>"
proof -
  obtain version enc sig where parts: "split_dot 2 token = [version, enc, sig]"
    using assms by (auto simp: checked_claims_def m_defs split: list.splits)
  have "version = ''v1'' \<and> compare_digest (hmac_hex secret (utf8 (''v1.'' @ enc))) sig = Inr True"
    using assms by (auto simp: checked_claims_def parts m_defs split: if_splits sum.splits)
  then have signed: "version = ''v1''" "sig = hmac_hex secret (utf8 (''v1.'' @ enc))"
    by (simp_all add: compare_digest_True)
  have "\<exists>bytes raw exp t a rs. token_decode enc = Inr bytes \<and> loads_bytes bytes = Inr payload \<and>
    subscript payload ''exp'' = Inr raw \<and> py_int raw = Inr exp \<and> int_seconds (w_clock w (w_ticks w)) < exp \<and>
    get_attr payload ''tenant_id'' = Inr t \<and> py_truthy t \<and> get_attr payload ''actor'' = Inr a \<and> py_truthy a \<and>
    get_attr payload ''roles'' = Inr (JArr rs) \<and> list_all is_jstr rs \<and> roles = map py_str rs \<and>
    w' = w\<lparr>w_ticks := Suc (w_ticks w)\<rparr>"
    using assms by (auto simp: checked_claims_def parts signed m_defs split: if_splits sum.splits json.splits)
  then show ?thesis using split_dot_join [OF parts] signed by auto
qed

lemma subscript_get_attr: "get_attr v k = Inr x \<Longrightarrow> x \<noteq> JNull \<Longrightarrow> subscript v k = Inr x"
  by (auto simp: get_attr_def subscript_def get_or_null_def split: json.splits option.splits)

text \<open>
  C18. Nobody is authenticated without the secret's signature: the token of every accepted
  header carries the HMAC of its payload under the server's secret, the payload names the
  principal's tenant, actor and roles, and it had not expired.
\<close>

theorem authenticated_tokens_are_signed:
  assumes "authenticate secret header w = (Inr who, w')"
  shows "\<exists>enc bytes payload raw exp t a rs.
    starts_with header ''Bearer '' \<and>
    py_strip (drop 7 header) = ''v1.'' @ enc @ ''.'' @ hmac_hex secret (utf8 (''v1.'' @ enc)) \<and>
    token_decode enc = Inr bytes \<and> loads_bytes bytes = Inr payload \<and>
    subscript payload ''exp'' = Inr raw \<and> py_int raw = Inr exp \<and> int_seconds (w_clock w (w_ticks w)) < exp \<and>
    subscript payload ''tenant_id'' = Inr t \<and> py_truthy t \<and> pr_tenant_id who = py_str t \<and>
    subscript payload ''actor'' = Inr a \<and> py_truthy a \<and> pr_actor who = py_str a \<and>
    subscript payload ''roles'' = Inr (JArr rs) \<and> pr_roles who = set (map py_str rs)"
proof -
  obtain payload roles w1 where ok: "checked_claims secret (py_strip (drop 7 header)) w = (Inr (payload, roles), w1)"
      and p: "principal_of payload roles = Inr who" and b: "starts_with header ''Bearer ''"
    using assms
    by (auto simp: authenticate_def m_defs split: if_splits sum.splits prod.splits)
  obtain enc bytes raw exp t a rs where claims:
      "py_strip (drop 7 header) = ''v1.'' @ enc @ ''.'' @ hmac_hex secret (utf8 (''v1.'' @ enc))"
      "token_decode enc = Inr bytes" "loads_bytes bytes = Inr payload" "subscript payload ''exp'' = Inr raw"
      "py_int raw = Inr exp" "int_seconds (w_clock w (w_ticks w)) < exp"
      "get_attr payload ''tenant_id'' = Inr t" "py_truthy t" "get_attr payload ''actor'' = Inr a" "py_truthy a"
      "get_attr payload ''roles'' = Inr (JArr rs)" "roles = map py_str rs"
    using checked_claims_Inr [OF ok] by blast
  have s: "subscript payload ''tenant_id'' = Inr t" "subscript payload ''actor'' = Inr a"
      "subscript payload ''roles'' = Inr (JArr rs)"
    using claims subscript_get_attr by fastforce+
  then have "who = \<lparr>pr_tenant_id = py_str t, pr_actor = py_str a, pr_roles = set (map py_str rs)\<rparr>"
    using p claims(12) by (simp add: principal_of_def)
  with b claims s show ?thesis by (intro exI conjI) simp_all
qed

theorem authenticated_tokens_are_signed_witness:
  "let header = ''Bearer '' @ token_text ''k'' (token_claims sample_principal 0 3600)
   in fst (authenticate ''k'' header sample_world) = Inr sample_principal \<and>
      (\<exists>enc. py_strip (drop 7 header) = ''v1.'' @ enc @ ''.'' @ hmac_hex ''k'' (utf8 (''v1.'' @ enc)))"
proof -
  let ?header = "''Bearer '' @ token_text ''k'' (token_claims sample_principal 0 3600)"
  have "authenticate ''k'' ?header sample_world = (Inr sample_principal, sample_world\<lparr>w_ticks := Suc (w_ticks sample_world)\<rparr>)"
    by (rule own_token_accepted) (simp_all add: sample_principal_def sample_world_def int_seconds_def)
  then show ?thesis
    using authenticated_tokens_are_signed [of "''k''" ?header sample_world sample_principal] unfolding Let_def by fastforce
qed

text \<open>
  A signature with a character outside ASCII is not refused as an invalid token:
  \<open>compare_digest\<close> raises \<open>TypeError\<close>, which the \<open>except\<close> clause of \<open>authenticate\<close> lets
  pass, whatever the secret and the payload.
\<close>

lemma non_ascii_signature:
  assumes "CHR ''.'' \<notin> set enc" and "sig \<noteq> []" and "\<not> is_ascii sig" and "\<not> is_space (last sig)"
  shows "fst (authenticate secret (''Bearer v1.'' @ enc @ ''.'' @ sig) w) =
    Inl (Exn TypeError ''comparing strings with non-ASCII characters is not supported'')"
proof -
  have "starts_with (''Bearer v1.'' @ enc @ ''.'' @ sig) ''Bearer ''" by (simp add: starts_with_iff)
  moreover have "drop 7 (''Bearer v1.'' @ enc @ ''.'' @ sig) = ''v1.'' @ enc @ ''.'' @ sig" by simp
  ultimately show ?thesis
    using strip_token [OF assms(2,4)] split_token [OF assms(1)] assms(3)
    by (simp add: authenticate_def checked_claims_def m_defs compare_digest_def token_error_def)
qed

text \<open>Worlds an operation may end in, one rule per construct.\<close>

definition ends_in :: "'a m \<Rightarrow> world \<Rightarrow> world set \<Rightarrow> bool" where
  "ends_in m w S \<longleftrightarrow> snd (m w) \<in> S"

lemma ends_in_rules:
  "w \<in> S \<Longrightarrow> ends_in (throw e) w S"
  "w \<in> S \<Longrightarrow> ends_in (ret x) w S"
  "w \<in> S \<Longrightarrow> (\<And>x. ends_in (f x) w S) \<Longrightarrow> ends_in (bnd (lift r) f) w S"
  "(\<And>t. ends_in (g t) (w\<lparr>w_ticks := Suc (w_ticks w)\<rparr>) S) \<Longrightarrow> ends_in (bnd utc_now g) w S"
  "ends_in m w S \<Longrightarrow> ends_in m' w S \<Longrightarrow> ends_in (if b then m else m') w S"
  by (auto simp: ends_in_def m_defs split: sum.split)

lemma checked_claims_reads:
  "ends_in (checked_claims secret token) w {w, w\<lparr>w_ticks := Suc (w_ticks w)\<rparr>}" (is "ends_in _ w ?S")
proof (cases "\<exists>version enc sig. split_dot 2 token = [version, enc, sig]")
  case True
  then obtain version enc sig where parts: "split_dot 2 token = [version, enc, sig]" by blast
  have roles: "ends_in (case v of JArr rs \<Rightarrow> m rs | _ \<Rightarrow> throw e) w' S"
    if "\<And>rs. ends_in (m rs) w' S" "w' \<in> S" for v e w' S and m :: "json list \<Rightarrow> (json \<times> string list) m"
    using that by (cases v) (simp_all add: ends_in_rules)
  show ?thesis
    unfolding checked_claims_def parts list.case by (intro ends_in_rules roles) simp_all
next
  case False
  then show ?thesis
    by (simp add: checked_claims_def ends_in_def throw_def split: list.split)
qed

text \<open>Authentication has no effect: at most one reading of the clock is all that happens.\<close>

lemma authenticate_world:
  "snd (authenticate secret header w) \<in> {w, w\<lparr>w_ticks := Suc (w_ticks w)\<rparr>}"
proof -
  have "snd (authenticate secret header w) \<in> {w, snd (checked_claims secret (py_strip (drop 7 header)) w)}"
    by (simp add: authenticate_def bnd_def catch_def throw_def lift_def split: prod.split sum.split)
  then show ?thesis using checked_claims_reads [unfolded ends_in_def, of secret "py_strip (drop 7 header)" w] by auto
qed

end
