(* ===== verification/Gateways.thy ===== *)
theory Gateways
  imports Auth
begin

text \<open>
  The first half of \<open>asv/integrations.py\<close>: what the two transports make of an answer, and the
  probes of the Kafka REST proxy, the credential broker, the egress gateway and the restart
  gateway. The network itself is outside: \<open>ex_reply\<close> of \<^typ>\<open>ext\<close> is the transport, and for
  a network \<open>net\<close> it is \<open>urllib_result\<close> or \<open>secure_result\<close> after \<open>net\<close>. The body of a
  request is the value before \<open>json.dumps\<close>.
\<close>

section \<open>The transports\<close>

text \<open>What \<open>urlopen\<close> does: an answer, an \<open>HTTPError\<close> with its body, or another exception.\<close>

datatype net_reply = Response int string | HTTPErrorResponse int string | NetworkError exn

definition decoded :: "string \<Rightarrow> exn + json" where
  "decoded raw = (if raw = [] then Inr (JObj []) else loads_bytes raw)"

definition http_result_of :: "int \<Rightarrow> exn + json \<Rightarrow> exn + http_result" where
  "http_result_of status parsed =
     (case parsed of Inl e \<Rightarrow> Inl e | Inr body \<Rightarrow> Inr \<lparr>hr_status = status, hr_body = body\<rparr>)"

definition decode_replace :: "string \<Rightarrow> string" where
  "decode_replace raw = (case utf8_decode raw of None \<Rightarrow> raw | Some s \<Rightarrow> s)"

text \<open>
  \<open>_urllib_transport\<close>. A body that is not UTF-8 raises \<open>UnicodeDecodeError\<close>, which the handler
  of \<open>JSONDecodeError\<close> does not catch, so \<open>raw.decode(errors="replace")\<close> only meets valid text.
\<close>

fun urllib_result :: "net_reply \<Rightarrow> exn + http_result" where
  "urllib_result (Response status raw) = http_result_of status (decoded raw)"
| "urllib_result (HTTPErrorResponse code raw) =
     http_result_of code
       (case decoded raw of
          Inl e \<Rightarrow>
            if exn_class e = OtherError ''JSONDecodeError'' then Inr (JObj [(''message'', JStr (decode_replace raw))])
            else Inl e
        | Inr v \<Rightarrow> Inr v)"
| "urllib_result (NetworkError e) = Inl e"

text \<open>The transport of a client with a certificate file: an error page has to be JSON.\<close>

fun secure_result :: "net_reply \<Rightarrow> exn + http_result" where
  "secure_result (Response status raw) = http_result_of status (decoded raw)"
| "secure_result (HTTPErrorResponse code raw) = http_result_of code (decoded raw)"
| "secure_result (NetworkError e) = Inl e"

section \<open>URLs\<close>

definition hex_upper :: "nat \<Rightarrow> char" where
  "hex_upper d = (if d < 10 then char_of (48 + d) else char_of (55 + d))"

definition unreserved :: "char \<Rightarrow> bool" where
  "unreserved c \<longleftrightarrow>
     (let n = (of_char c :: nat) in
      (48 \<le> n \<and> n \<le> 57) \<or> (65 \<le> n \<and> n \<le> 90) \<or> (97 \<le> n \<and> n \<le> 122) \<or> n = 45 \<or> n = 46 \<or> n = 95 \<or> n = 126)"

definition url_byte :: "char \<Rightarrow> string" where
  "url_byte c = (if unreserved c then [c] else [CHR ''%'', hex_upper (of_char c div 16), hex_upper (of_char c mod 16)])"

text \<open>\<open>urllib.parse.quote(s, safe='')\<close> and \<open>quote_plus(s)\<close>.\<close>

definition url_quote :: "string \<Rightarrow> string" where
  "url_quote s = concat (map url_byte (utf8 s))"

definition quote_plus :: "string \<Rightarrow> string" where
  "quote_plus s = concat (map (\<lambda>c. if c = CHR '' '' then ''+'' else url_byte c) (utf8 s))"

text \<open>\<open>s.rstrip("/")\<close>.\<close>

definition rstrip_slash :: "string \<Rightarrow> string" where
  "rstrip_slash s = rev (dropWhile (\<lambda>c. c = CHR ''/'') (rev s))"

section \<open>Values and code without effects\<close>

definition ext_lift :: "exn + 'a \<Rightarrow> 'a ext_m" where
  "ext_lift r x = (r, x)"

text \<open>\<open>v.get(key, default)\<close>.\<close>

definition get_default :: "json \<Rightarrow> string \<Rightarrow> json \<Rightarrow> exn + json" where
  "get_default v key dflt =
     (case v of
        JObj kvs \<Rightarrow> Inr (case dict_get kvs key of None \<Rightarrow> dflt | Some x \<Rightarrow> x)
      | _ \<Rightarrow> Inl (Exn AttributeError
          (apostrophe @ type_name v @ apostrophe @ '' object has no attribute '' @ apostrophe @ ''get'' @ apostrophe)))"

definition controller_headers :: "string \<Rightarrow> (string \<times> string) list" where
  "controller_headers token =
     [(''Authorization'', ''Bearer '' @ token), (''Accept'', ''application/json''),
      (''Content-Type'', ''application/json'')]"

definition certainty :: "probe_result \<Rightarrow> string" where
  "certainty result = (if result \<noteq> P_UNKNOWN then ''deterministic'' else ''none'')"

text \<open>The answer of a probe whose requests raised.\<close>

definition failed_probe :: "string \<Rightarrow> string \<Rightarrow> exn \<Rightarrow> observation ext_m" where
  "failed_probe kind authority e = ext_ret
     \<lparr>obs_kind = kind, obs_result = P_UNKNOWN, obs_observed = [(''error'', JStr (exn_message e))],
      obs_authority = authority, obs_confidence = ''none''\<rparr>"

text \<open>\<open>try: m  except Exception as error: return failed_probe(error)\<close>, then the rest.\<close>

definition ext_try :: "'a ext_m \<Rightarrow> (exn \<Rightarrow> 'b ext_m) \<Rightarrow> ('a \<Rightarrow> 'b ext_m) \<Rightarrow> 'b ext_m" where
  "ext_try m handler rest x = (case m x of (Inl e, x') \<Rightarrow> handler e x' | (Inr v, x') \<Rightarrow> rest v x')"

section \<open>\<open>KafkaRestFenceProbe\<close>\<close>

record kafka_probe =
  kp_base_url :: string
  kp_topic :: string
  kp_consumer_group :: string
  kp_consumer_instance :: string
  kp_bearer_token :: string

definition new_kafka_probe :: "string \<Rightarrow> string \<Rightarrow> string \<Rightarrow> string \<Rightarrow> string \<Rightarrow> kafka_probe" where
  "new_kafka_probe base_url topic consumer_group consumer_instance bearer_token =
     \<lparr>kp_base_url = rstrip_slash base_url, kp_topic = topic, kp_consumer_group = consumer_group,
      kp_consumer_instance = consumer_instance, kp_bearer_token = bearer_token\<rparr>"

definition kafka_headers :: "string \<Rightarrow> (string \<times> string) list" where
  "kafka_headers token =
     [(''Authorization'', ''Bearer '' @ token), (''Content-Type'', ''application/vnd.kafka.json.v2+json''),
      (''Accept'', ''application/vnd.kafka.json.v2+json'')]"

definition kafka_call :: "kafka_probe \<Rightarrow> string \<Rightarrow> string \<Rightarrow> json option \<Rightarrow> http_result ext_m" where
  "kafka_call k method path body = urlopen
     \<lparr>rq_method = method, rq_url = kp_base_url k @ path, rq_headers = kafka_headers (kp_bearer_token k), rq_body = body\<rparr>"

definition kafka_requests :: "kafka_probe \<Rightarrow> adapter_run \<Rightarrow> (http_result \<times> http_result) ext_m" where
  "kafka_requests k run =
     ext_bnd (kafka_call k ''POST'' (''/topics/'' @ url_quote (kp_topic k))
       (Some (JObj [(''records'', JArr [JObj [(''value'',
          JObj [(''run_id'', JStr (rn_run_id run)), (''probe'', JStr ''post-shutdown'')])]])]))) (\<lambda>publish.
     ext_bnd (kafka_call k ''GET'' (''/consumers/'' @ url_quote (kp_consumer_group k) @ ''/instances/''
       @ url_quote (kp_consumer_instance k) @ ''/records?timeout=1000&max_bytes=1'') None) (\<lambda>consume.
     ext_ret (publish, consume)))"

definition kafka_verdict :: "int \<Rightarrow> int \<Rightarrow> probe_result" where
  "kafka_verdict publish consume =
     (if {publish, consume} \<subseteq> {401, 403} then PASS
      else if list_ex (\<lambda>s. s \<in> {200, 201, 204}) [publish, consume] then FAIL
      else P_UNKNOWN)"

definition kafka_probe_run :: "kafka_probe \<Rightarrow> adapter_run \<Rightarrow> observation ext_m" where
  "kafka_probe_run k run =
     ext_try (kafka_requests k run) (failed_probe ''kafka'' ''kafka-rest-proxy'') (\<lambda>(publish, consume).
       let result = kafka_verdict (hr_status publish) (hr_status consume)
       in ext_ret
         \<lparr>obs_kind = ''kafka'', obs_result = result,
          obs_observed = [(''publish_status'', JInt (hr_status publish)), (''consume_status'', JInt (hr_status consume)),
                          (''topic'', JStr (kp_topic k))],
          obs_authority = ''kafka-rest-proxy'', obs_confidence = certainty result\<rparr>)"

section \<open>\<open>CredentialBrokerProbe\<close>\<close>

record credential_probe =
  cb_base_url :: string
  cb_test_resource :: string
  cb_controller_token :: string

definition new_credential_probe :: "string \<Rightarrow> string \<Rightarrow> string \<Rightarrow> credential_probe" where
  "new_credential_probe base_url test_resource controller_token =
     \<lparr>cb_base_url = rstrip_slash base_url, cb_test_resource = test_resource, cb_controller_token = controller_token\<rparr>"

definition credential_call :: "credential_probe \<Rightarrow> string \<Rightarrow> string \<Rightarrow> json option \<Rightarrow> http_result ext_m" where
  "credential_call c method path body = urlopen
     \<lparr>rq_method = method, rq_url = cb_base_url c @ path, rq_headers = controller_headers (cb_controller_token c), rq_body = body\<rparr>"

definition credential_requests :: "credential_probe \<Rightarrow> adapter_run \<Rightarrow> (http_result \<times> http_result) ext_m" where
  "credential_requests c run =
     ext_bnd (credential_call c ''POST'' ''/v1/grants''
       (Some (JObj [(''subject_ref'', JStr (rn_identity_ref run)), (''resource'', JStr (cb_test_resource c)),
                    (''run_id'', JStr (rn_run_id run)), (''purpose'', JStr ''post-shutdown-verification'')]))) (\<lambda>grant.
     ext_bnd (credential_call c ''GET'' (''/v1/credentials/'' @ url_quote (rn_identity_ref run) @ ''/status'') None) (\<lambda>credential.
     ext_ret (grant, credential)))"

definition json_bool :: "json \<Rightarrow> bool option" where
  "json_bool v = (case v of JBool b \<Rightarrow> Some b | _ \<Rightarrow> None)"

definition opt_bool :: "bool option \<Rightarrow> json" where
  "opt_bool b = (case b of None \<Rightarrow> JNull | Some v \<Rightarrow> JBool v)"

text \<open>Whether the credential is active: \<^const>\<open>None\<close> where the answer does not say.\<close>

definition credential_active :: "http_result \<Rightarrow> exn + bool option" where
  "credential_active r =
     (if hr_status r \<in> {401, 403, 404} then Inr (Some False)
      else if hr_status r = 200 then
        (case get_attr (hr_body r) ''active'' of Inl e \<Rightarrow> Inl e | Inr v \<Rightarrow> Inr (json_bool v))
      else Inr None)"

definition credential_verdict :: "int \<Rightarrow> bool option \<Rightarrow> probe_result" where
  "credential_verdict grant active =
     (if grant \<in> {401, 403} \<and> active = Some False then PASS
      else if grant \<in> {200, 201, 202, 204} \<or> active = Some True then FAIL
      else P_UNKNOWN)"

definition credential_probe_run :: "credential_probe \<Rightarrow> adapter_run \<Rightarrow> observation ext_m" where
  "credential_probe_run c run =
     ext_try (credential_requests c run) (failed_probe ''credential'' ''synthetic-credential-broker'') (\<lambda>(grant, credential).
       ext_bnd (ext_lift (credential_active credential)) (\<lambda>active.
       ext_bnd (ext_lift (get_attr (hr_body credential) ''remaining_ttl_seconds'')) (\<lambda>ttl.
       let result = credential_verdict (hr_status grant) active
       in ext_ret
         \<lparr>obs_kind = ''credential'', obs_result = result,
          obs_observed = [(''grant_status'', JInt (hr_status grant)), (''credential_status'', JInt (hr_status credential)),
                          (''credential_active'', opt_bool active), (''remaining_ttl_seconds'', ttl),
                          (''test_resource'', JStr (cb_test_resource c))],
          obs_authority = ''synthetic-credential-broker'', obs_confidence = certainty result\<rparr>)))"

text \<open>The answer of a gateway to a fence request.\<close>

definition fence_answer :: "string \<Rightarrow> http_result \<Rightarrow> json dict ext_m" where
  "fence_answer what r =
     (if hr_status r \<notin> {200, 201, 202, 204, 409} then
        ext_throw (Exn IntegrationError (what @ '' fence returned '' @ int_dec (hr_status r) @ '': '' @ py_str (hr_body r)))
      else ext_ret [(''accepted'', JBool True), (''status'', JInt (hr_status r))])"

definition credential_fence :: "credential_probe \<Rightarrow> adapter_run \<Rightarrow> json dict ext_m" where
  "credential_fence c run =
     ext_bnd (credential_call c ''POST'' ''/v1/fences''
       (Some (JObj [(''subject_ref'', JStr (rn_identity_ref run)), (''run_id'', JStr (rn_run_id run)),
                    (''deny_new_grants'', JBool True), (''revoke_existing'', JBool True)])))
       (fence_answer ''credential'')"

section \<open>\<open>EgressGatewayProbe\<close>\<close>

record egress_probe =
  eg_base_url :: string
  eg_test_destination :: string
  eg_controller_token :: string

definition new_egress_probe :: "string \<Rightarrow> string \<Rightarrow> string \<Rightarrow> egress_probe" where
  "new_egress_probe base_url test_destination controller_token =
     \<lparr>eg_base_url = rstrip_slash base_url, eg_test_destination = test_destination, eg_controller_token = controller_token\<rparr>"

definition egress_call :: "egress_probe \<Rightarrow> string \<Rightarrow> json \<Rightarrow> http_result ext_m" where
  "egress_call g path body = urlopen
     \<lparr>rq_method = ''POST'', rq_url = eg_base_url g @ path, rq_headers = controller_headers (eg_controller_token g),
      rq_body = Some body\<rparr>"

definition egress_attempt :: "egress_probe \<Rightarrow> adapter_run \<Rightarrow> string \<Rightarrow> http_result ext_m" where
  "egress_attempt g run connection_mode =
     egress_call g ''/v1/probes/egress''
       (JObj [(''run_id'', JStr (rn_run_id run)), (''subject_ref'', JStr (rn_identity_ref run)),
              (''destination'', JStr (eg_test_destination g)), (''connection_mode'', JStr connection_mode)])"

definition egress_allowed :: "http_result \<Rightarrow> exn + bool option" where
  "egress_allowed r =
     (if hr_status r \<in> {401, 403, 451} then Inr (Some False)
      else if 200 \<le> hr_status r \<and> hr_status r < 300 then
        (case get_attr (hr_body r) ''allowed'' of Inl e \<Rightarrow> Inl e | Inr v \<Rightarrow> Inr (json_bool v))
      else Inr None)"

definition egress_verdict :: "bool option \<Rightarrow> bool option \<Rightarrow> probe_result" where
  "egress_verdict fresh existing =
     (if fresh = Some False \<and> existing = Some False then PASS
      else if fresh = Some True \<or> existing = Some True then FAIL
      else P_UNKNOWN)"

definition egress_requests :: "egress_probe \<Rightarrow> adapter_run \<Rightarrow> (http_result \<times> http_result) ext_m" where
  "egress_requests g run =
     ext_bnd (egress_attempt g run ''new'') (\<lambda>fresh.
     ext_bnd (egress_attempt g run ''existing'') (\<lambda>existing. ext_ret (fresh, existing)))"

definition egress_probe_run :: "egress_probe \<Rightarrow> adapter_run \<Rightarrow> observation ext_m" where
  "egress_probe_run g run =
     ext_try (egress_requests g run) (failed_probe ''network'' ''synthetic-egress-gateway'') (\<lambda>(fresh, existing).
       ext_bnd (ext_lift (egress_allowed fresh)) (\<lambda>new_allowed.
       ext_bnd (ext_lift (egress_allowed existing)) (\<lambda>existing_allowed.
       let result = egress_verdict new_allowed existing_allowed
       in ext_ret
         \<lparr>obs_kind = ''network'', obs_result = result,
          obs_observed = [(''new_request_status'', JInt (hr_status fresh)), (''new_request_allowed'', opt_bool new_allowed),
                          (''existing_connection_status'', JInt (hr_status existing)),
                          (''existing_connection_allowed'', opt_bool existing_allowed),
                          (''test_destination'', JStr (eg_test_destination g))],
          obs_authority = ''synthetic-egress-gateway'', obs_confidence = certainty result\<rparr>)))"

definition egress_fence :: "egress_probe \<Rightarrow> adapter_run \<Rightarrow> json dict ext_m" where
  "egress_fence g run =
     ext_bnd (egress_call g ''/v1/fences''
       (JObj [(''run_id'', JStr (rn_run_id run)), (''subject_ref'', JStr (rn_identity_ref run)),
              (''destination'', JStr (eg_test_destination g)), (''block_new_connections'', JBool True),
              (''terminate_existing_connections'', JBool True)]))
       (fence_answer ''egress'')"

section \<open>\<open>RestartGatewayProbe\<close>\<close>

record restart_probe =
  rg_base_url :: string
  rg_controller_token :: string

definition new_restart_probe :: "string \<Rightarrow> string \<Rightarrow> restart_probe" where
  "new_restart_probe base_url controller_token =
     \<lparr>rg_base_url = rstrip_slash base_url, rg_controller_token = controller_token\<rparr>"

definition restart_call :: "restart_probe \<Rightarrow> adapter_run \<Rightarrow> http_result ext_m" where
  "restart_call g run = urlopen
     \<lparr>rq_method = ''POST'', rq_url = rg_base_url g @ ''/v1/restarts'',
      rq_headers = controller_headers (rg_controller_token g) @ [(''Idempotency-Key'', ''restart:'' @ rn_run_id run)],
      rq_body = Some (JObj [(''run_id'', JStr (rn_run_id run)), (''agent_id'', JStr (rn_agent_id run)),
        (''expected_policy_version'', JInt (rn_policy_version run)), (''old_identity_ref'', JStr (rn_identity_ref run)),
        (''require_new_identity'', JBool True)])\<rparr>"

text \<open>\<open>x == y\<close> for an integer \<open>y\<close>: in Python \<open>True == 1\<close> and \<open>False == 0\<close>.\<close>

definition equals_int :: "json \<Rightarrow> int \<Rightarrow> bool" where
  "equals_int v i = (case v of JInt j \<Rightarrow> j = i | JBool b \<Rightarrow> (if b then 1 else 0) = i | _ \<Rightarrow> False)"

definition restart_verdict :: "adapter_run \<Rightarrow> json \<Rightarrow> json \<Rightarrow> json \<Rightarrow> json \<Rightarrow> probe_result" where
  "restart_verdict run restarted policy_version old_identity_active new_identity_ref =
     (case (restarted, old_identity_active, new_identity_ref) of
        (JBool done, JBool old_active, JStr new_identity) \<Rightarrow>
          if \<not> is_jint policy_version \<or> new_identity = [] then P_UNKNOWN
          else if done \<and> equals_int policy_version (rn_policy_version run) \<and> \<not> old_active \<and> new_identity \<noteq> rn_identity_ref run
          then PASS
          else FAIL
      | _ \<Rightarrow> P_UNKNOWN)"

definition restart_outcome :: "adapter_run \<Rightarrow> http_result \<Rightarrow> exn + probe_result" where
  "restart_outcome run r =
     (if hr_status r \<notin> {200, 201, 202} then Inr P_UNKNOWN
      else (case (get_attr (hr_body r) ''restarted'', get_attr (hr_body r) ''policy_version'',
                  get_attr (hr_body r) ''old_identity_active'', get_attr (hr_body r) ''new_identity_ref'') of
              (Inr a, Inr b, Inr c, Inr d) \<Rightarrow> Inr (restart_verdict run a b c d)
            | (Inl e, _) \<Rightarrow> Inl e
            | (_, Inl e, _) \<Rightarrow> Inl e
            | (_, _, Inl e, _) \<Rightarrow> Inl e
            | (_, _, _, Inl e) \<Rightarrow> Inl e))"

text \<open>\<open>{"http_status": status, **body}\<close>.\<close>

definition restart_observed :: "http_result \<Rightarrow> exn + json dict" where
  "restart_observed r =
     (case hr_body r of
        JObj kvs \<Rightarrow> Inr (dict_merge [(''http_status'', JInt (hr_status r))] kvs)
      | v \<Rightarrow> Inl (Exn TypeError (apostrophe @ type_name v @ apostrophe @ '' object is not a mapping'')))"

definition restart_probe_run :: "restart_probe \<Rightarrow> adapter_run \<Rightarrow> observation ext_m" where
  "restart_probe_run g run =
     ext_try (restart_call g run) (failed_probe ''restart'' ''authorized-restart-gateway'') (\<lambda>result.
       ext_bnd (ext_lift (restart_outcome run result)) (\<lambda>outcome.
       ext_bnd (ext_lift (restart_observed result)) (\<lambda>observed.
       ext_ret
         \<lparr>obs_kind = ''restart'', obs_result = outcome, obs_observed = observed,
          obs_authority = ''authorized-restart-gateway'', obs_confidence = certainty outcome\<rparr>)))"

end
