(* ===== verification/Kubernetes.thy ===== *)
theory Kubernetes
  imports Gateways
begin

text \<open>
  The second half of \<open>asv/integrations.py\<close>: the Kubernetes client and the adapter the control
  plane uses in a cluster, which combines it with the gateways of \<open>Gateways\<close>. An object of the
  cluster is the JSON value its API returned; nothing is assumed of its shape.
\<close>

section \<open>Loops that only talk to the outside\<close>

fun ext_for_each :: "'a list \<Rightarrow> ('a \<Rightarrow> unit ext_m) \<Rightarrow> unit ext_m" where
  "ext_for_each [] f = ext_ret ()"
| "ext_for_each (x # xs) f = ext_bnd (f x) (\<lambda>_. ext_for_each xs f)"

text \<open>\<open>for x in xs: acc = f(acc, x)\<close>.\<close>

fun ext_fold :: "('b \<Rightarrow> 'a \<Rightarrow> 'b ext_m) \<Rightarrow> 'b \<Rightarrow> 'a list \<Rightarrow> 'b ext_m" where
  "ext_fold f acc [] = ext_ret acc"
| "ext_fold f acc (x # xs) = ext_bnd (f acc x) (\<lambda>acc'. ext_fold f acc' xs)"

section \<open>\<open>KubernetesClient\<close>\<close>

record kubernetes_client =
  kc_base_url :: string
  kc_token :: string

definition new_client :: "string \<Rightarrow> string \<Rightarrow> kubernetes_client" where
  "new_client base_url token = \<lparr>kc_base_url = rstrip_slash base_url, kc_token = token\<rparr>"

definition RUN_LABEL :: string where
  "RUN_LABEL = ''asv.openai.com/run-id''"

definition PARENT_RUN_LABEL :: string where
  "PARENT_RUN_LABEL = ''asv.openai.com/parent-run-id''"

definition api_error :: "http_result \<Rightarrow> exn" where
  "api_error r = Exn IntegrationError (''Kubernetes API returned '' @ int_dec (hr_status r) @ '': '' @ py_str (hr_body r))"

definition api_request :: "kubernetes_client \<Rightarrow> string \<Rightarrow> string \<Rightarrow> json option \<Rightarrow> json ext_m" where
  "api_request kc method path body =
     ext_bnd (urlopen
       \<lparr>rq_method = method, rq_url = kc_base_url kc @ path,
        rq_headers = [(''Authorization'', ''Bearer '' @ kc_token kc), (''Accept'', ''application/json''),
          (''Content-Type'', if method = ''PATCH'' then ''application/merge-patch+json'' else ''application/json'')],
        rq_body = body\<rparr>) (\<lambda>result.
     if hr_status result < 200 \<or> hr_status result \<ge> 300 then ext_throw (api_error result)
     else ext_ret (hr_body result))"

text \<open>\<open>list(v)\<close>.\<close>

definition py_list :: "json \<Rightarrow> exn + json list" where
  "py_list v =
     (case v of
        JArr xs \<Rightarrow> Inr xs
      | JStr s \<Rightarrow> Inr (map (\<lambda>c. JStr [c]) s)
      | JObj kvs \<Rightarrow> Inr (map (\<lambda>(k, _). JStr k) (dict_of kvs))
      | _ \<Rightarrow> Inl (Exn TypeError (apostrophe @ type_name v @ apostrophe @ '' object is not iterable'')))"

definition api_group :: "string \<Rightarrow> string" where
  "api_group resource = (if resource = ''pods'' then ''api/v1'' else ''apis/batch/v1'')"

definition resource_path :: "string \<Rightarrow> string \<Rightarrow> string" where
  "resource_path namespace resource = ''/'' @ api_group resource @ ''/namespaces/'' @ namespace @ ''/'' @ resource"

definition list_resources :: "kubernetes_client \<Rightarrow> string \<Rightarrow> string \<Rightarrow> string \<Rightarrow> json list ext_m" where
  "list_resources kc namespace resource label_selector =
     ext_bnd (api_request kc ''GET''
       (resource_path namespace resource @ ''?labelSelector='' @ quote_plus label_selector) None) (\<lambda>result.
     ext_bnd (ext_lift (get_default result ''items'' (JArr []))) (\<lambda>items. ext_lift (py_list items)))"

text \<open>\<open>quote(name, safe='')\<close>, which refuses what is not text.\<close>

definition quote_name :: "json \<Rightarrow> exn + string" where
  "quote_name name = (case name of JStr s \<Rightarrow> Inr (url_quote s) | _ \<Rightarrow> Inl (Exn TypeError ''quote_from_bytes() expected bytes''))"

text \<open>\<open>sub in s\<close>.\<close>

fun contains :: "string \<Rightarrow> string \<Rightarrow> bool" where
  "contains p [] = (p = [])"
| "contains p (c # s) = (starts_with (c # s) p \<or> contains p s)"

definition delete_resource :: "kubernetes_client \<Rightarrow> string \<Rightarrow> string \<Rightarrow> json \<Rightarrow> unit ext_m" where
  "delete_resource kc namespace resource name =
     ext_catch
       (ext_bnd (ext_lift (quote_name name)) (\<lambda>quoted.
        ext_bnd (api_request kc ''DELETE'' (resource_path namespace resource @ ''/'' @ quoted)
          (Some (JObj [(''propagationPolicy'', JStr ''Foreground''), (''gracePeriodSeconds'', JInt 0)]))) (\<lambda>_. ext_ret ())))
       (\<lambda>e. if exn_class e = IntegrationError \<and> contains ''returned 404'' (exn_message e) then ext_ret () else ext_throw e)"

definition suspend_cronjob :: "kubernetes_client \<Rightarrow> string \<Rightarrow> json \<Rightarrow> unit ext_m" where
  "suspend_cronjob kc namespace name =
     ext_bnd (ext_lift (quote_name name)) (\<lambda>quoted.
     ext_bnd (api_request kc ''PATCH'' (''/apis/batch/v1/namespaces/'' @ namespace @ ''/cronjobs/'' @ quoted)
       (Some (JObj [(''spec'', JObj [(''suspend'', JBool True)])]))) (\<lambda>_. ext_ret ()))"

definition policy_name :: "string \<Rightarrow> string \<Rightarrow> string" where
  "policy_name suffix run_id = ''asv-fence-'' @ suffix @ ''-'' @ take 8 run_id"

definition fence_manifest :: "string \<Rightarrow> string \<Rightarrow> string \<Rightarrow> json" where
  "fence_manifest suffix label run_id =
     JObj [(''apiVersion'', JStr ''networking.k8s.io/v1''), (''kind'', JStr ''NetworkPolicy''),
       (''metadata'', JObj [(''name'', JStr (policy_name suffix run_id)),
          (''labels'', JObj [(RUN_LABEL, JStr run_id), (''app.kubernetes.io/managed-by'', JStr ''asv'')])]),
       (''spec'', JObj [(''podSelector'', JObj [(''matchLabels'', JObj [(label, JStr run_id)])]),
          (''policyTypes'', JArr [JStr ''Ingress'', JStr ''Egress'']), (''ingress'', JArr []), (''egress'', JArr [])])]"

definition create_policy :: "kubernetes_client \<Rightarrow> string \<Rightarrow> string \<Rightarrow> string \<times> string \<Rightarrow> unit ext_m" where
  "create_policy kc namespace run_id = (\<lambda>(suffix, label).
     ext_catch
       (ext_bnd (api_request kc ''POST'' (''/apis/networking.k8s.io/v1/namespaces/'' @ namespace @ ''/networkpolicies'')
          (Some (fence_manifest suffix label run_id))) (\<lambda>_. ext_ret ()))
       (\<lambda>e. if exn_class e = IntegrationError \<and> contains ''409'' (exn_message e) then ext_ret () else ext_throw e))"

definition create_fence :: "kubernetes_client \<Rightarrow> string \<Rightarrow> string \<Rightarrow> unit ext_m" where
  "create_fence kc namespace run_id =
     ext_for_each [(''run'', RUN_LABEL), (''children'', PARENT_RUN_LABEL)] (create_policy kc namespace run_id)"

section \<open>\<open>KubernetesKafkaAdapter\<close>\<close>

record cluster =
  cl_kubernetes :: kubernetes_client
  cl_allowed_namespaces :: "string list"
  cl_kafka :: "kafka_probe option"
  cl_credential :: "credential_probe option"
  cl_egress :: "egress_probe option"
  cl_restart_gateway :: "restart_probe option"

definition new_cluster :: "cluster \<Rightarrow> exn + cluster" where
  "new_cluster cl =
     (if cl_allowed_namespaces cl = [] \<or> list_ex (\<lambda>ns. \<not> starts_with ns ''asv-'') (cl_allowed_namespaces cl) then
        Inl (Exn ValueError ''allowed namespaces must be non-empty and use the asv-* prefix'')
      else Inr cl)"

definition cluster_namespace :: "cluster \<Rightarrow> adapter_run \<Rightarrow> exn + string" where
  "cluster_namespace cl run =
     (let namespace = ag_namespace (ar_agent run)
      in if namespace \<notin> set (cl_allowed_namespaces cl) then
           Inl (Exn IntegrationError (''namespace '' @ py_repr_str namespace @ '' is not allowlisted''))
         else Inr namespace)"

text \<open>\<open>item["metadata"]["name"]\<close>.\<close>

definition item_name :: "json \<Rightarrow> exn + json" where
  "item_name item = (case subscript item ''metadata'' of Inl e \<Rightarrow> Inl e | Inr m \<Rightarrow> subscript m ''name'')"

text \<open>A value as a key of a dictionary or set: lists and dictionaries have no hash, \<open>True\<close> is \<open>1\<close>.\<close>

definition hash_key :: "json \<Rightarrow> exn + json" where
  "hash_key v =
     (case v of
        JBool b \<Rightarrow> Inr (JInt (if b then 1 else 0))
      | JArr _ \<Rightarrow> Inl (Exn TypeError (''unhashable type: '' @ apostrophe @ ''list'' @ apostrophe))
      | JObj _ \<Rightarrow> Inl (Exn TypeError (''unhashable type: '' @ apostrophe @ ''dict'' @ apostrophe))
      | _ \<Rightarrow> Inr v)"

definition add_item :: "(json \<times> json) list \<Rightarrow> json \<Rightarrow> exn + (json \<times> json) list" where
  "add_item items item =
     (case item_name item of
        Inl e \<Rightarrow> Inl e
      | Inr name \<Rightarrow> (case hash_key name of Inl e \<Rightarrow> Inl e | Inr k \<Rightarrow> Inr (AList.update k item items)))"

fun add_items :: "(json \<times> json) list \<Rightarrow> json list \<Rightarrow> exn + (json \<times> json) list" where
  "add_items items [] = Inr items"
| "add_items items (x # xs) = (case add_item items x of Inl e \<Rightarrow> Inl e | Inr items' \<Rightarrow> add_items items' xs)"

definition related :: "cluster \<Rightarrow> string \<Rightarrow> string \<Rightarrow> string \<Rightarrow> json list ext_m" where
  "related cl namespace resource run_id =
     ext_bnd (ext_fold (\<lambda>items label.
        ext_bnd (list_resources (cl_kubernetes cl) namespace resource (label @ ''='' @ run_id))
          (\<lambda>found. ext_lift (add_items items found))) [] [RUN_LABEL, PARENT_RUN_LABEL])
       (\<lambda>items. ext_ret (map snd items))"

definition suspend_item :: "cluster \<Rightarrow> string \<Rightarrow> json \<Rightarrow> unit ext_m" where
  "suspend_item cl namespace item =
     ext_bnd (ext_lift (item_name item)) (suspend_cronjob (cl_kubernetes cl) namespace)"

definition delete_item :: "cluster \<Rightarrow> string \<Rightarrow> string \<Rightarrow> json \<Rightarrow> unit ext_m" where
  "delete_item cl namespace resource item =
     ext_bnd (ext_lift (item_name item)) (delete_resource (cl_kubernetes cl) namespace resource)"

text \<open>\<open>result[key] = gateway.fence(run)\<close> where the gateway is configured.\<close>

definition with_gateway :: "string \<Rightarrow> ('g \<Rightarrow> json dict ext_m) \<Rightarrow> 'g option \<Rightarrow> json dict \<Rightarrow> json dict ext_m" where
  "with_gateway key fence gateway result =
     (case gateway of
        None \<Rightarrow> ext_ret result
      | Some g \<Rightarrow> ext_bnd (fence g) (\<lambda>answer. ext_ret (result @ [(key, JObj answer)])))"

definition cluster_fence :: "cluster \<Rightarrow> adapter_run \<Rightarrow> json dict ext_m" where
  "cluster_fence cl run =
     ext_bnd (ext_lift (cluster_namespace cl run)) (\<lambda>namespace.
     ext_bnd (create_fence (cl_kubernetes cl) namespace (rn_run_id run)) (\<lambda>_.
     ext_bnd (related cl namespace ''cronjobs'' (rn_run_id run)) (\<lambda>cronjobs.
     ext_bnd (ext_for_each cronjobs (suspend_item cl namespace)) (\<lambda>_.
     ext_bnd (with_gateway ''credential_broker'' (\<lambda>c. credential_fence c run) (cl_credential cl)
       [(''accepted'', JBool True), (''namespace'', JStr namespace), (''cronjobs_suspended'', JInt (int (length cronjobs)))])
       (with_gateway ''egress_gateway'' (\<lambda>g. egress_fence g run) (cl_egress cl))))))"

definition cluster_stop_process :: "cluster \<Rightarrow> adapter_run \<Rightarrow> json dict ext_m" where
  "cluster_stop_process cl run =
     ext_bnd (ext_lift (cluster_namespace cl run)) (\<lambda>namespace.
     ext_bnd (related cl namespace ''pods'' (rn_run_id run)) (\<lambda>pods.
     ext_bnd (related cl namespace ''jobs'' (rn_run_id run)) (\<lambda>jobs.
     ext_bnd (ext_for_each pods (delete_item cl namespace ''pods'')) (\<lambda>_.
     ext_bnd (ext_for_each jobs (delete_item cl namespace ''jobs'')) (\<lambda>_.
     ext_ret [(''accepted'', JBool True), (''pods_deleted'', JInt (int (length pods))),
              (''jobs_deleted'', JInt (int (length jobs)))])))))"

definition child_of :: "string \<Rightarrow> json \<Rightarrow> exn + json dict" where
  "child_of kind item =
     (case item_name item of
        Inl e \<Rightarrow> Inl e
      | Inr name \<Rightarrow>
          (case get_default item ''status'' (JObj []) of
             Inl e \<Rightarrow> Inl e
           | Inr status \<Rightarrow> Inr [(''kind'', JStr kind), (''name'', name), (''status'', status)]))"

definition found_children :: "cluster \<Rightarrow> string \<Rightarrow> adapter_run \<Rightarrow> json dict list ext_m" where
  "found_children cl namespace run =
     ext_fold (\<lambda>children kind.
        ext_bnd (list_resources (cl_kubernetes cl) namespace kind (PARENT_RUN_LABEL @ ''='' @ rn_run_id run)) (\<lambda>found.
        ext_bnd (ext_lift (collect (child_of kind) found)) (\<lambda>more. ext_ret (children @ more))))
       [] [''jobs'', ''cronjobs'']"

definition cluster_discover_children :: "cluster \<Rightarrow> adapter_run \<Rightarrow> json dict ext_m" where
  "cluster_discover_children cl run =
     ext_bnd (ext_lift (cluster_namespace cl run)) (\<lambda>namespace.
     ext_bnd (found_children cl namespace run) (\<lambda>children.
     ext_ret [(''observable'', JBool True), (''namespace'', JStr namespace), (''children'', JArr (map JObj children))]))"

section \<open>The probes of the cluster\<close>

definition cluster_observation :: "string \<Rightarrow> probe_result \<Rightarrow> json dict \<Rightarrow> string \<Rightarrow> observation" where
  "cluster_observation kind result observed confidence =
     \<lparr>obs_kind = kind, obs_result = result, obs_observed = observed,
      obs_authority = ''kubernetes-control-plane'', obs_confidence = confidence\<rparr>"

text \<open>\<open>pod.get("status", {}).get("phase") not in {"Succeeded", "Failed"}\<close>.\<close>

definition pod_active :: "json \<Rightarrow> exn + bool" where
  "pod_active pod =
     (case get_default pod ''status'' (JObj []) of
        Inl e \<Rightarrow> Inl e
      | Inr status \<Rightarrow>
          (case get_attr status ''phase'' of
             Inl e \<Rightarrow> Inl e
           | Inr phase \<Rightarrow>
               (case hash_key phase of
                  Inl e \<Rightarrow> Inl e
                | Inr p \<Rightarrow> Inr (p \<noteq> JStr ''Succeeded'' \<and> p \<noteq> JStr ''Failed''))))"

text \<open>\<open>_child_active\<close>.\<close>

definition child_active :: "json dict \<Rightarrow> exn + bool" where
  "child_active child =
     (case get_default (get_or_null child ''status'') ''active'' (if get_or_null child ''kind'' = JStr ''cronjobs'' then JNull else JInt 0) of
        Inl e \<Rightarrow> Inl e
      | Inr active \<Rightarrow>
          if get_or_null child ''kind'' = JStr ''cronjobs'' then Inr (active \<noteq> JNull \<and> active \<noteq> JArr [])
          else (case py_int active of Inl e \<Rightarrow> Inl e | Inr n \<Rightarrow> Inr (n > 0)))"

text \<open>\<open>[g(x) for x in xs if test(x)]\<close>, the test first.\<close>

fun select_results :: "('a \<Rightarrow> exn + bool) \<Rightarrow> ('a \<Rightarrow> exn + json) \<Rightarrow> 'a list \<Rightarrow> exn + json list" where
  "select_results test g [] = Inr []"
| "select_results test g (x # xs) =
     (case test x of
        Inl e \<Rightarrow> Inl e
      | Inr False \<Rightarrow> select_results test g xs
      | Inr True \<Rightarrow>
          (case g x of
             Inl e \<Rightarrow> Inl e
           | Inr y \<Rightarrow> (case select_results test g xs of Inl e \<Rightarrow> Inl e | Inr ys \<Rightarrow> Inr (y # ys))))"

definition none_active :: "string \<Rightarrow> string \<Rightarrow> json list \<Rightarrow> observation" where
  "none_active kind key active =
     cluster_observation kind (if active = [] then PASS else FAIL) [(key, JArr active)] ''deterministic''"

definition not_configured :: "string \<Rightarrow> string \<Rightarrow> observation ext_m" where
  "not_configured kind what =
     ext_ret (cluster_observation kind P_UNKNOWN [(''reason'', JStr (what @ '' probe is not configured''))] ''none'')"

definition cluster_probe_body :: "cluster \<Rightarrow> string \<Rightarrow> string \<Rightarrow> adapter_run \<Rightarrow> observation ext_m" where
  "cluster_probe_body cl namespace kind run =
     (if kind = ''process'' then
        ext_bnd (related cl namespace ''pods'' (rn_run_id run)) (\<lambda>pods.
        ext_bnd (ext_lift (select_results pod_active item_name pods)) (\<lambda>active.
        ext_ret (none_active kind ''active_pods'' active)))
      else if kind = ''delegation'' then
        ext_bnd (ext_lift (cluster_namespace cl run)) (\<lambda>namespace'.
        ext_bnd (found_children cl namespace' run) (\<lambda>children.
        ext_bnd (ext_lift (select_results child_active (\<lambda>c. Inr (JObj c)) children)) (\<lambda>active.
        ext_ret (none_active kind ''active_children'' active))))
      else if kind = ''kafka'' then
        (case cl_kafka cl of Some k \<Rightarrow> kafka_probe_run k run | None \<Rightarrow> not_configured kind ''Kafka REST'')
      else if kind = ''credential'' then
        (case cl_credential cl of Some c \<Rightarrow> credential_probe_run c run | None \<Rightarrow> not_configured kind ''credential broker'')
      else if kind = ''network'' then
        (case cl_egress cl of Some g \<Rightarrow> egress_probe_run g run | None \<Rightarrow> not_configured kind ''egress gateway'')
      else not_configured kind kind)"

definition cluster_probe :: "cluster \<Rightarrow> string \<Rightarrow> adapter_run \<Rightarrow> observation ext_m" where
  "cluster_probe cl kind run =
     ext_bnd (ext_lift (cluster_namespace cl run)) (\<lambda>namespace.
     ext_catch (cluster_probe_body cl namespace kind run)
       (\<lambda>e. ext_ret (cluster_observation kind P_UNKNOWN [(''error'', JStr (exn_message e))] ''none'')))"

definition cluster_restart :: "cluster \<Rightarrow> adapter_run \<Rightarrow> observation ext_m" where
  "cluster_restart cl run =
     ext_bnd (ext_lift (cluster_namespace cl run)) (\<lambda>_.
     case cl_restart_gateway cl of
       None \<Rightarrow> ext_ret (cluster_observation ''restart'' P_UNKNOWN
         [(''reason'', JStr ''authorized restart gateway is not configured'')] ''none'')
     | Some g \<Rightarrow> restart_probe_run g run)"

definition KubernetesKafkaAdapter :: "cluster \<Rightarrow> adapter" where
  "KubernetesKafkaAdapter cl =
     \<lparr>ad_fence = cluster_fence cl, ad_stop_process = cluster_stop_process cl,
      ad_discover_children = cluster_discover_children cl, ad_probe = cluster_probe cl,
      ad_restart = cluster_restart cl\<rparr>"

section \<open>The protocol\<close>

lemmas ext_defs = ext_ret_def ext_throw_def ext_bnd_def ext_catch_def ext_lift_def ext_try_def urlopen_def

lemma ext_bnd_Inr: "ext_bnd m f x = (Inr y, x'') \<longleftrightarrow> (\<exists>v x'. m x = (Inr v, x') \<and> f v x' = (Inr y, x''))"
  by (auto simp: ext_bnd_def split: prod.splits sum.splits)

lemma ext_lift_Inr: "ext_lift r x = (Inr y, x') \<longleftrightarrow> r = Inr y \<and> x' = x"
  by (auto simp: ext_lift_def)

lemma ext_ret_Inr: "ext_ret v x = (Inr y, x') \<longleftrightarrow> y = v \<and> x' = x"
  by (auto simp: ext_ret_def)

lemma ext_throw_Inr: "ext_throw e x \<noteq> (Inr y, x')"
  by (simp add: ext_throw_def)

lemma ext_catch_Inr:
  "ext_catch m h x = (Inr y, x') \<longleftrightarrow> m x = (Inr y, x') \<or> (\<exists>e x1. m x = (Inl e, x1) \<and> h e x1 = (Inr y, x'))"
  by (auto simp: ext_catch_def split: prod.splits sum.splits)

lemma ext_try_Inr:
  "ext_try m h f x = (Inr y, x') \<longleftrightarrow>
     (\<exists>v x1. m x = (Inr v, x1) \<and> f v x1 = (Inr y, x')) \<or> (\<exists>e x1. m x = (Inl e, x1) \<and> h e x1 = (Inr y, x'))"
  by (auto simp: ext_try_def split: prod.splits sum.splits)

lemmas ext_Inr = ext_bnd_Inr ext_lift_Inr ext_ret_Inr ext_throw_Inr ext_catch_Inr ext_try_Inr

lemma gateway_kinds:
  "kafka_probe_run k run x = (Inr ob, x') \<Longrightarrow> obs_kind ob = ''kafka''"
  "credential_probe_run c run x = (Inr ob, x') \<Longrightarrow> obs_kind ob = ''credential''"
  "egress_probe_run g run x = (Inr ob, x') \<Longrightarrow> obs_kind ob = ''network''"
  "restart_probe_run rg run x = (Inr ob, x') \<Longrightarrow> obs_kind ob = ''restart''"
  by (auto simp: kafka_probe_run_def credential_probe_run_def egress_probe_run_def restart_probe_run_def ext_Inr
      failed_probe_def Let_def)

lemma cluster_probe_kind:
  assumes "cluster_probe cl kind run x = (Inr ob, x')"
  shows "obs_kind ob = kind"
proof -
  have "obs_kind ob = kind" if "cluster_probe_body cl ns kind run x = (Inr ob, x')" for ns
    using that
    by (auto simp: cluster_probe_body_def ext_Inr none_active_def cluster_observation_def not_configured_def
        gateway_kinds split: if_splits option.splits)
  then show ?thesis using assms by (auto simp: cluster_probe_def ext_Inr cluster_observation_def)
qed

interpretation kubernetes: shutdown_adapter "KubernetesKafkaAdapter cl" for cl
  by unfold_locales
    (auto simp: KubernetesKafkaAdapter_def cluster_probe_kind cluster_restart_def ext_Inr cluster_observation_def gateway_kinds
      split: option.splits)

section \<open>What is sent\<close>

text \<open>Every request of an operation, whatever the outside answers, satisfies a predicate.\<close>

definition sends :: "(http_request \<Rightarrow> bool) \<Rightarrow> 'a ext_m \<Rightarrow> bool" where
  "sends P m \<longleftrightarrow> (\<forall>x. \<exists>rqs. ex_log (snd (m x)) = ex_log x @ rqs \<and> list_all P rqs)"

lemma sends_urlopen: "P rq \<Longrightarrow> sends P (urlopen rq)"
  by (simp add: sends_def urlopen_def)

lemma sends_nothing: "sends P (ext_ret v)" "sends P (ext_throw e)" "sends P (ext_lift r)"
  by (simp_all add: sends_def ext_defs)

lemma sends_after:
  assumes "sends P m" and "\<And>v. sends P (f v)"
  shows "\<exists>rqs. ex_log (snd (f v (snd (m x)))) = ex_log x @ rqs \<and> list_all P rqs"
proof -
  obtain r1 where 1: "ex_log (snd (m x)) = ex_log x @ r1" "list_all P r1" using assms(1) by (auto simp: sends_def)
  obtain r2 where 2: "ex_log (snd (f v (snd (m x)))) = ex_log (snd (m x)) @ r2" "list_all P r2"
    using assms(2) by (metis sends_def)
  from 1 2 show ?thesis by (intro exI [of _ "r1 @ r2"]) simp
qed

lemma sends_bnd: "sends P m \<Longrightarrow> (\<And>v. sends P (f v)) \<Longrightarrow> sends P (ext_bnd m f)"
  unfolding sends_def [of P "ext_bnd m f"]
proof
  fix x assume m: "sends P m" and f: "\<And>v. sends P (f v)"
  show "\<exists>rqs. ex_log (snd (ext_bnd m f x)) = ex_log x @ rqs \<and> list_all P rqs"
  proof (cases "fst (m x)")
    case (Inl e)
    then have "snd (ext_bnd m f x) = snd (m x)" by (simp add: ext_bnd_def split_def)
    then show ?thesis using m by (simp add: sends_def)
  next
    case (Inr v)
    then have "snd (ext_bnd m f x) = snd (f v (snd (m x)))" by (simp add: ext_bnd_def split_def)
    then show ?thesis using sends_after [OF m f] by simp
  qed
qed

lemma sends_catch: "sends P m \<Longrightarrow> (\<And>e. sends P (h e)) \<Longrightarrow> sends P (ext_catch m h)"
  unfolding sends_def [of P "ext_catch m h"]
proof
  fix x assume m: "sends P m" and h: "\<And>v. sends P (h v)"
  show "\<exists>rqs. ex_log (snd (ext_catch m h x)) = ex_log x @ rqs \<and> list_all P rqs"
  proof (cases "fst (m x)")
    case (Inl e)
    then have "snd (ext_catch m h x) = snd (h e (snd (m x)))" by (simp add: ext_catch_def split_def)
    then show ?thesis using sends_after [OF m h] by simp
  next
    case (Inr v)
    then have "snd (ext_catch m h x) = snd (m x)" by (simp add: ext_catch_def split_def)
    then show ?thesis using m by (simp add: sends_def)
  qed
qed

lemma sends_try: "sends P m \<Longrightarrow> (\<And>e. sends P (h e)) \<Longrightarrow> (\<And>v. sends P (f v)) \<Longrightarrow> sends P (ext_try m h f)"
  unfolding sends_def [of P "ext_try m h f"]
proof
  fix x assume m: "sends P m" and h: "\<And>v. sends P (h v)" and f: "\<And>v. sends P (f v)"
  show "\<exists>rqs. ex_log (snd (ext_try m h f x)) = ex_log x @ rqs \<and> list_all P rqs"
  proof (cases "fst (m x)")
    case (Inl e)
    then have "snd (ext_try m h f x) = snd (h e (snd (m x)))" by (simp add: ext_try_def split_def)
    then show ?thesis using sends_after [OF m h] by simp
  next
    case (Inr v)
    then have "snd (ext_try m h f x) = snd (f v (snd (m x)))" by (simp add: ext_try_def split_def)
    then show ?thesis using sends_after [OF m f] by simp
  qed
qed

lemma sends_for_each: "(\<And>y. sends P (f y)) \<Longrightarrow> sends P (ext_for_each xs f)"
  by (induction xs) (simp_all add: sends_nothing sends_bnd)

lemma sends_fold: "(\<And>acc y. sends P (f acc y)) \<Longrightarrow> sends P (ext_fold f acc xs)"
  by (induction xs arbitrary: acc) (simp_all add: sends_nothing sends_bnd)

lemma sends_if: "sends P m \<Longrightarrow> sends P m' \<Longrightarrow> sends P (if b then m else m')"
  by simp

lemma sends_pair: "(\<And>a b. sends P (f a b)) \<Longrightarrow> sends P (case p of (a, b) \<Rightarrow> f a b)"
  by (cases p) simp

lemma sends_option: "sends P m \<Longrightarrow> (\<And>a. q = Some a \<Longrightarrow> sends P (f a)) \<Longrightarrow> sends P (case q of None \<Rightarrow> m | Some a \<Rightarrow> f a)"
  by (cases q) simp_all

lemma sends_let: "(\<And>v. sends P (f v)) \<Longrightarrow> sends P (Let v f)"
  by (simp add: Let_def)

lemmas sends_rules = sends_nothing sends_bnd sends_catch sends_try sends_for_each sends_fold sends_if sends_pair
  sends_option sends_let

text \<open>A request that carries the token of its receiver only, to an address below the receiver's.\<close>

definition addressed :: "string \<Rightarrow> string \<Rightarrow> http_request \<Rightarrow> bool" where
  "addressed base token rq \<longleftrightarrow>
     starts_with (rq_url rq) base \<and> map_of (rq_headers rq) ''Authorization'' = Some (''Bearer '' @ token)"

definition in_namespace :: "kubernetes_client \<Rightarrow> string \<Rightarrow> http_request \<Rightarrow> bool" where
  "in_namespace kc namespace rq \<longleftrightarrow>
     list_ex (\<lambda>api. addressed (kc_base_url kc @ ''/'' @ api @ ''/namespaces/'' @ namespace @ ''/'') (kc_token kc) rq)
       [''api/v1'', ''apis/batch/v1'', ''apis/networking.k8s.io/v1'']"

definition in_scope :: "cluster \<Rightarrow> string \<Rightarrow> http_request \<Rightarrow> bool" where
  "in_scope cl namespace rq \<longleftrightarrow>
     in_namespace (cl_kubernetes cl) namespace rq \<or>
     (case cl_kafka cl of None \<Rightarrow> False | Some k \<Rightarrow> addressed (kp_base_url k) (kp_bearer_token k) rq) \<or>
     (case cl_credential cl of None \<Rightarrow> False | Some c \<Rightarrow> addressed (cb_base_url c) (cb_controller_token c) rq) \<or>
     (case cl_egress cl of None \<Rightarrow> False | Some g \<Rightarrow> addressed (eg_base_url g) (eg_controller_token g) rq) \<or>
     (case cl_restart_gateway cl of None \<Rightarrow> False | Some g \<Rightarrow> addressed (rg_base_url g) (rg_controller_token g) rq)"

lemma starts_with_append: "starts_with (p @ s) p"
  by (simp add: starts_with_iff)

lemma sends_api:
  assumes "list_ex (\<lambda>api. starts_with path (''/'' @ api @ ''/namespaces/'' @ ns @ ''/'')) [''api/v1'', ''apis/batch/v1'', ''apis/networking.k8s.io/v1'']"
  shows "sends (in_scope cl ns) (api_request (cl_kubernetes cl) method path body)"
  unfolding api_request_def
  using assms
  by (intro sends_rules sends_urlopen)
    (auto simp: in_scope_def in_namespace_def addressed_def starts_with_iff)

lemma sends_resource: "sends (in_scope cl ns) (api_request (cl_kubernetes cl) method (resource_path ns resource @ rest) body)"
proof (rule sends_api)
  have "\<exists>api \<in> {''api/v1'', ''apis/batch/v1''}. resource_path ns resource @ rest = ''/'' @ api @ ''/namespaces/'' @ ns @ ''/'' @ resource @ rest"
    by (simp add: resource_path_def api_group_def)
  then show "list_ex (\<lambda>api. starts_with (resource_path ns resource @ rest) (''/'' @ api @ ''/namespaces/'' @ ns @ ''/''))
      [''api/v1'', ''apis/batch/v1'', ''apis/networking.k8s.io/v1'']"
    by (auto simp: starts_with_iff)
qed

lemma sends_client:
  "sends (in_scope cl ns) (list_resources (cl_kubernetes cl) ns resource selector)"
  "sends (in_scope cl ns) (delete_resource (cl_kubernetes cl) ns resource name)"
  "sends (in_scope cl ns) (suspend_cronjob (cl_kubernetes cl) ns name)"
  "sends (in_scope cl ns) (create_fence (cl_kubernetes cl) ns run_id)"
proof -
  show "sends (in_scope cl ns) (list_resources (cl_kubernetes cl) ns resource selector)"
    unfolding list_resources_def by (intro sends_rules sends_resource)
  show "sends (in_scope cl ns) (delete_resource (cl_kubernetes cl) ns resource name)"
    unfolding delete_resource_def by (intro sends_rules sends_resource)
  have "sends (in_scope cl ns) (api_request (cl_kubernetes cl) ''PATCH'' (''/apis/batch/v1/namespaces/'' @ ns @ ''/cronjobs/'' @ q) b)" for q b
    by (rule sends_api) (simp add: starts_with_iff)
  then show "sends (in_scope cl ns) (suspend_cronjob (cl_kubernetes cl) ns name)"
    unfolding suspend_cronjob_def by (intro sends_rules)
  have "sends (in_scope cl ns) (api_request (cl_kubernetes cl) ''POST'' (''/apis/networking.k8s.io/v1/namespaces/'' @ ns @ ''/networkpolicies'') b)" for b
    by (rule sends_api) (simp add: starts_with_iff)
  then show "sends (in_scope cl ns) (create_fence (cl_kubernetes cl) ns run_id)"
    unfolding create_fence_def create_policy_def by (intro sends_rules)
qed

lemma sends_gateways:
  "cl_kafka cl = Some k \<Longrightarrow> sends (in_scope cl ns) (kafka_probe_run k run)"
  "cl_credential cl = Some c \<Longrightarrow> sends (in_scope cl ns) (credential_probe_run c run)"
  "cl_credential cl = Some c \<Longrightarrow> sends (in_scope cl ns) (credential_fence c run)"
  "cl_egress cl = Some g \<Longrightarrow> sends (in_scope cl ns) (egress_probe_run g run)"
  "cl_egress cl = Some g \<Longrightarrow> sends (in_scope cl ns) (egress_fence g run)"
  "cl_restart_gateway cl = Some rg \<Longrightarrow> sends (in_scope cl ns) (restart_probe_run rg run)"
proof -
  have failed: "sends P (failed_probe kind authority e)" for P kind authority e
    unfolding failed_probe_def by (rule sends_nothing)
  have answered: "sends P (fence_answer what r)" for P what r
    unfolding fence_answer_def by (intro sends_rules)
  have kafka: "cl_kafka cl = Some k \<Longrightarrow> sends (in_scope cl ns) (kafka_call k verb path body)" for verb path body
    unfolding kafka_call_def by (rule sends_urlopen) (simp add: in_scope_def addressed_def kafka_headers_def starts_with_append)
  have credential: "cl_credential cl = Some c \<Longrightarrow> sends (in_scope cl ns) (credential_call c verb path body)" for verb path body
    unfolding credential_call_def by (rule sends_urlopen) (simp add: in_scope_def addressed_def controller_headers_def starts_with_append)
  have egress: "cl_egress cl = Some g \<Longrightarrow> sends (in_scope cl ns) (egress_call g path body)" for path body
    unfolding egress_call_def by (rule sends_urlopen) (simp add: in_scope_def addressed_def controller_headers_def starts_with_append)
  have restart: "cl_restart_gateway cl = Some rg \<Longrightarrow> sends (in_scope cl ns) (restart_call rg run)"
    unfolding restart_call_def by (rule sends_urlopen) (simp add: in_scope_def addressed_def controller_headers_def starts_with_append)
  show "cl_kafka cl = Some k \<Longrightarrow> sends (in_scope cl ns) (kafka_probe_run k run)"
    unfolding kafka_probe_run_def kafka_requests_def by (intro sends_rules kafka failed)
  show "cl_credential cl = Some c \<Longrightarrow> sends (in_scope cl ns) (credential_probe_run c run)"
    unfolding credential_probe_run_def credential_requests_def by (intro sends_rules credential failed)
  show "cl_credential cl = Some c \<Longrightarrow> sends (in_scope cl ns) (credential_fence c run)"
    unfolding credential_fence_def by (intro sends_rules credential answered)
  show "cl_egress cl = Some g \<Longrightarrow> sends (in_scope cl ns) (egress_probe_run g run)"
    unfolding egress_probe_run_def egress_requests_def egress_attempt_def by (intro sends_rules egress failed)
  show "cl_egress cl = Some g \<Longrightarrow> sends (in_scope cl ns) (egress_fence g run)"
    unfolding egress_fence_def by (intro sends_rules egress answered)
  show "cl_restart_gateway cl = Some rg \<Longrightarrow> sends (in_scope cl ns) (restart_probe_run rg run)"
    unfolding restart_probe_run_def by (intro sends_rules restart failed)
qed

lemma sends_related: "sends (in_scope cl ns) (related cl ns resource run_id)"
  unfolding related_def by (intro sends_rules sends_client)

lemma sends_found_children: "sends (in_scope cl ns) (found_children cl ns run)"
  unfolding found_children_def by (intro sends_rules sends_client)

lemma sends_not_configured: "sends P (not_configured kind what)"
  unfolding not_configured_def by (rule sends_nothing)

text \<open>The namespace check comes first in every operation.\<close>

lemma sends_checked:
  assumes "\<And>ns. ns = ag_namespace (ar_agent run) \<Longrightarrow> ns \<in> set (cl_allowed_namespaces cl) \<Longrightarrow> sends (in_scope cl ns) (f ns)"
  shows "sends (\<lambda>rq. ag_namespace (ar_agent run) \<in> set (cl_allowed_namespaces cl) \<and>
    in_scope cl (ag_namespace (ar_agent run)) rq) (ext_bnd (ext_lift (cluster_namespace cl run)) f)"
proof (cases "ag_namespace (ar_agent run) \<in> set (cl_allowed_namespaces cl)")
  case True
  then have "ext_bnd (ext_lift (cluster_namespace cl run)) f = f (ag_namespace (ar_agent run))"
    by (simp add: cluster_namespace_def ext_defs fun_eq_iff)
  then show ?thesis using True assms by simp
next
  case False
  then show ?thesis by (simp add: cluster_namespace_def sends_def ext_defs)
qed

lemma sends_cluster:
  fixes cl :: cluster and run :: adapter_run
  defines "P \<equiv> \<lambda>rq. ag_namespace (ar_agent run) \<in> set (cl_allowed_namespaces cl) \<and> in_scope cl (ag_namespace (ar_agent run)) rq"
  shows "sends P (cluster_fence cl run)" "sends P (cluster_stop_process cl run)"
    "sends P (cluster_discover_children cl run)" "sends P (cluster_probe cl kind run)" "sends P (cluster_restart cl run)"
proof -
  have gateway: "sends Q (with_gateway key f g r)" if "\<And>a. g = Some a \<Longrightarrow> sends Q (f a)" for Q key and f :: "'g \<Rightarrow> json dict ext_m" and g r
    unfolding with_gateway_def using that by (intro sends_rules)
  have item: "sends (in_scope cl ns) (suspend_item cl ns x)" "sends (in_scope cl ns) (delete_item cl ns resource x)" for ns resource x
    unfolding suspend_item_def delete_item_def by (intro sends_rules sends_client)+
  show "sends P (cluster_fence cl run)"
    unfolding P_def cluster_fence_def
    by (rule sends_checked) (intro sends_rules sends_client sends_related sends_gateways gateway item)
  show "sends P (cluster_stop_process cl run)"
    unfolding P_def cluster_stop_process_def
    by (rule sends_checked) (intro sends_rules sends_related item)
  show "sends P (cluster_discover_children cl run)"
    unfolding P_def cluster_discover_children_def
    by (rule sends_checked) (intro sends_rules sends_found_children)
  have children: "sends (in_scope cl ns) (ext_bnd (ext_lift (cluster_namespace cl run)) (\<lambda>ns'. ext_bnd (found_children cl ns' run) f))"
    if "ns = ag_namespace (ar_agent run)" "ns \<in> set (cl_allowed_namespaces cl)" "\<And>v. sends (in_scope cl ns) (f v)"
    for ns and f :: "json dict list \<Rightarrow> observation ext_m"
  proof -
    have "ext_bnd (ext_lift (cluster_namespace cl run)) g = g ns" for g :: "string \<Rightarrow> observation ext_m"
      using that by (simp add: cluster_namespace_def ext_defs fun_eq_iff)
    then show ?thesis using that(3) by (simp add: sends_bnd sends_found_children)
  qed
  have body: "sends (in_scope cl ns) (cluster_probe_body cl ns kind run)"
    if "ns = ag_namespace (ar_agent run)" "ns \<in> set (cl_allowed_namespaces cl)" for ns
    unfolding cluster_probe_body_def
    by (intro sends_if children that)
      (intro sends_rules sends_related sends_gateways sends_not_configured | assumption)+
  show "sends P (cluster_probe cl kind run)"
    unfolding P_def cluster_probe_def
    by (rule sends_checked) (intro sends_catch sends_nothing body)
  show "sends P (cluster_restart cl run)"
    unfolding P_def cluster_restart_def
    by (rule sends_checked) (intro sends_rules sends_gateways)
qed

end
