(* ===== verification/Boundaries.thy ===== *)
theory Boundaries
  imports Kubernetes
begin

text \<open>
  What a result of the cluster adapter means: where its requests go, that its probes always
  answer, and for each boundary what the outside must have said for the probe to pass, spelled
  out on the statuses and bodies of the answers; what an accepted fence and an accepted stop
  have done.
\<close>

section \<open>Properties\<close>

text \<open>
  C33. The adapter of a cluster stays where it may act: for every run and whatever the outside
  answers, each request of each operation goes to the API of the cluster, under the namespace
  of the run's agent, or to a configured gateway, and carries only the token of its receiver;
  and the namespace is on the allowlist and has the prefix \<open>asv-\<close>.
\<close>

theorem requests_stay_in_scope:
  assumes "new_cluster config = Inr cl"
  shows "let namespace = ag_namespace (ar_agent run); A = KubernetesKafkaAdapter cl;
      allowed = (\<lambda>rq. starts_with namespace ''asv-'' \<and> namespace \<in> set (cl_allowed_namespaces cl) \<and> in_scope cl namespace rq)
    in sends allowed (ad_fence A run) \<and> sends allowed (ad_stop_process A run) \<and>
       sends allowed (ad_discover_children A run) \<and> sends allowed (ad_probe A kind run) \<and> sends allowed (ad_restart A run)"
proof -
  have "(\<lambda>rq. ns \<in> set (cl_allowed_namespaces cl) \<and> in_scope cl ns rq) =
      (\<lambda>rq. starts_with ns ''asv-'' \<and> ns \<in> set (cl_allowed_namespaces cl) \<and> in_scope cl ns rq)" for ns
    using assms by (auto simp: new_cluster_def list_ex_iff split: if_splits)
  then show ?thesis using sends_cluster [of run cl] by (simp add: KubernetesKafkaAdapter_def)
qed

text \<open>
  C36. A probe of the cluster adapter always answers: for an allowlisted namespace, whatever the
  kind asked for and however the outside misbehaves, it returns an observation of this kind.
\<close>

theorem cluster_probes_always_answer:
  assumes "ag_namespace (ar_agent run) \<in> set (cl_allowed_namespaces cl)"
  shows "\<exists>ob. fst (ad_probe (KubernetesKafkaAdapter cl) kind run x) = Inr ob \<and> obs_kind ob = kind"
proof -
  obtain r x' where m: "cluster_probe cl kind run x = (r, x')" by fastforce
  obtain ob where "r = Inr ob"
    using m assms
    by (auto simp: cluster_probe_def cluster_namespace_def ext_defs split: prod.splits sum.splits)
  then show ?thesis using m cluster_probe_kind [of cl kind run x ob x'] by (simp add: KubernetesKafkaAdapter_def)
qed

text \<open>The result a probe reports, if it answers.\<close>

definition verdict :: "observation ext_m \<Rightarrow> ext \<Rightarrow> probe_result option" where
  "verdict m x = (case fst (m x) of Inl e \<Rightarrow> None | Inr ob \<Rightarrow> Some (obs_result ob))"

lemma verdict_allowed:
  assumes "ag_namespace (ar_agent run) \<in> set (cl_allowed_namespaces cl)"
  shows "verdict (cluster_probe cl kind run) x = Some PASS \<longleftrightarrow>
    verdict (cluster_probe_body cl (ag_namespace (ar_agent run)) kind run) x = Some PASS"
  using assms
  by (auto simp: verdict_def cluster_probe_def cluster_namespace_def ext_defs cluster_observation_def split: prod.splits sum.splits)

lemma verdict_configured:
  "verdict (case g of Some a \<Rightarrow> f a | None \<Rightarrow> not_configured kind what) x = Some PASS \<longleftrightarrow>
     (\<exists>a. g = Some a \<and> verdict (f a) x = Some PASS)"
  by (cases g) (simp_all add: verdict_def not_configured_def cluster_observation_def ext_defs)

lemma verdict_kafka:
  "verdict (kafka_probe_run k run) x = Some PASS \<longleftrightarrow>
     (\<exists>publish consume. fst (kafka_requests k run x) = Inr (publish, consume) \<and>
        hr_status publish \<in> {401, 403} \<and> hr_status consume \<in> {401, 403})"
  by (auto simp: verdict_def kafka_probe_run_def kafka_verdict_def failed_probe_def ext_try_def ext_ret_def Let_def
      split: prod.splits sum.splits if_splits)

lemma verdict_credential:
  "verdict (credential_probe_run c run) x = Some PASS \<longleftrightarrow>
     (\<exists>grant credential kvs. fst (credential_requests c run x) = Inr (grant, credential) \<and>
        hr_status grant \<in> {401, 403} \<and> credential_active credential = Inr (Some False) \<and> hr_body credential = JObj kvs)"
  by (auto simp: verdict_def credential_probe_run_def credential_verdict_def failed_probe_def ext_try_def ext_ret_def
      ext_bnd_def ext_lift_def Let_def get_attr_def split: prod.splits sum.splits if_splits json.splits)

lemma verdict_egress:
  "verdict (egress_probe_run g run) x = Some PASS \<longleftrightarrow>
     (\<exists>fresh existing. fst (egress_requests g run x) = Inr (fresh, existing) \<and>
        egress_allowed fresh = Inr (Some False) \<and> egress_allowed existing = Inr (Some False))"
  by (auto simp: verdict_def egress_probe_run_def egress_verdict_def failed_probe_def ext_try_def ext_ret_def
      ext_bnd_def ext_lift_def Let_def split: prod.splits sum.splits if_splits)

lemma two_requests: "fst (ext_bnd m (\<lambda>a. ext_bnd n (\<lambda>b. ext_ret (a, b))) x) = Inr (u, v) \<longleftrightarrow>
    (\<exists>x1 x2. m x = (Inr u, x1) \<and> n x1 = (Inr v, x2))"
  by (auto simp: ext_bnd_def ext_ret_def split: prod.splits sum.splits)

lemma json_bool_False: "json_bool v = Some False \<longleftrightarrow> v = JBool False"
  by (auto simp: json_bool_def split: json.splits)

lemma credential_inactive:
  "credential_active r = Inr (Some False) \<longleftrightarrow> hr_status r \<in> {401, 403, 404} \<or>
     hr_status r = 200 \<and> (\<exists>kvs. hr_body r = JObj kvs \<and> get_or_null kvs ''active'' = JBool False)"
  by (auto simp: credential_active_def get_attr_def json_bool_False split: json.splits)

lemma egress_refused:
  "egress_allowed r = Inr (Some False) \<longleftrightarrow> hr_status r \<in> {401, 403, 451} \<or>
     200 \<le> hr_status r \<and> hr_status r < 300 \<and> (\<exists>kvs. hr_body r = JObj kvs \<and> get_or_null kvs ''allowed'' = JBool False)"
  by (auto simp: egress_allowed_def get_attr_def json_bool_False split: json.splits)

text \<open>
  C30. The three gateway boundaries pass exactly on two denials. The Kafka proxy refuses both
  publishing to the topic and reading from the consumer with 401 or 403. The broker refuses a
  new grant with 401 or 403, and answers the question for the credential's status with an
  object, under the status 401, 403 or 404, or under 200 with \<open>active\<close> being \<open>false\<close>. The
  gateway blocks a new request and the existing connection: each is answered 401, 403 or 451, or
  with a status from 200 to 299 and an object in which \<open>allowed\<close> is \<open>false\<close>. An unconfigured
  gateway, any other answer and any exception do not pass.
\<close>

theorem boundaries_pass_iff_denied:
  assumes "ag_namespace (ar_agent run) \<in> set (cl_allowed_namespaces cl)"
  shows "(verdict (ad_probe (KubernetesKafkaAdapter cl) ''kafka'' run) x = Some PASS \<longleftrightarrow>
      (\<exists>k publish x1 consume x2. cl_kafka cl = Some k \<and>
         kafka_call k ''POST'' (''/topics/'' @ url_quote (kp_topic k))
           (Some (JObj [(''records'', JArr [JObj [(''value'',
             JObj [(''run_id'', JStr (rn_run_id run)), (''probe'', JStr ''post-shutdown'')])]])])) x = (Inr publish, x1) \<and>
         kafka_call k ''GET'' (''/consumers/'' @ url_quote (kp_consumer_group k) @ ''/instances/''
           @ url_quote (kp_consumer_instance k) @ ''/records?timeout=1000&max_bytes=1'') None x1 = (Inr consume, x2) \<and>
         hr_status publish \<in> {401, 403} \<and> hr_status consume \<in> {401, 403})) \<and>
    (verdict (ad_probe (KubernetesKafkaAdapter cl) ''credential'' run) x = Some PASS \<longleftrightarrow>
      (\<exists>c grant x1 credential x2 kvs. cl_credential cl = Some c \<and>
         credential_call c ''POST'' ''/v1/grants''
           (Some (JObj [(''subject_ref'', JStr (rn_identity_ref run)), (''resource'', JStr (cb_test_resource c)),
             (''run_id'', JStr (rn_run_id run)), (''purpose'', JStr ''post-shutdown-verification'')])) x = (Inr grant, x1) \<and>
         credential_call c ''GET'' (''/v1/credentials/'' @ url_quote (rn_identity_ref run) @ ''/status'') None x1 = (Inr credential, x2) \<and>
         hr_status grant \<in> {401, 403} \<and> hr_body credential = JObj kvs \<and>
         (hr_status credential \<in> {401, 403, 404} \<or> hr_status credential = 200 \<and> get_or_null kvs ''active'' = JBool False))) \<and>
    (verdict (ad_probe (KubernetesKafkaAdapter cl) ''network'' run) x = Some PASS \<longleftrightarrow>
      (\<exists>g fresh x1 existing x2. cl_egress cl = Some g \<and>
         egress_call g ''/v1/probes/egress''
           (JObj [(''run_id'', JStr (rn_run_id run)), (''subject_ref'', JStr (rn_identity_ref run)),
             (''destination'', JStr (eg_test_destination g)), (''connection_mode'', JStr ''new'')]) x = (Inr fresh, x1) \<and>
         egress_call g ''/v1/probes/egress''
           (JObj [(''run_id'', JStr (rn_run_id run)), (''subject_ref'', JStr (rn_identity_ref run)),
             (''destination'', JStr (eg_test_destination g)), (''connection_mode'', JStr ''existing'')]) x1 = (Inr existing, x2) \<and>
         (\<forall>r \<in> {fresh, existing}. hr_status r \<in> {401, 403, 451} \<or>
            200 \<le> hr_status r \<and> hr_status r < 300 \<and> (\<exists>kvs. hr_body r = JObj kvs \<and> get_or_null kvs ''allowed'' = JBool False))))"
  (is "?kafka \<and> ?credential \<and> ?network")
proof (intro conjI)
  show ?kafka using verdict_allowed [OF assms, of "''kafka''" x]
    by (simp add: KubernetesKafkaAdapter_def cluster_probe_body_def verdict_configured verdict_kafka kafka_requests_def two_requests) blast
  show ?credential using verdict_allowed [OF assms, of "''credential''" x]
    by (simp add: KubernetesKafkaAdapter_def cluster_probe_body_def verdict_configured verdict_credential credential_requests_def
        two_requests credential_inactive) fastforce
  show ?network using verdict_allowed [OF assms, of "''network''" x]
    by (simp add: KubernetesKafkaAdapter_def cluster_probe_body_def verdict_configured verdict_egress egress_requests_def
        egress_attempt_def two_requests egress_refused) blast
qed

text \<open>
  The key under which a listed object is kept: its \<open>metadata.name\<close>. Python takes \<open>True\<close> and
  \<open>1\<close> for the same key, and an array or an object cannot be one.
\<close>

definition listed_name :: "json \<Rightarrow> json option" where
  "listed_name item =
     (case item of
        JObj kvs \<Rightarrow>
          (case dict_get kvs ''metadata'' of
             Some (JObj meta) \<Rightarrow>
               (case dict_get meta ''name'' of
                  Some (JArr xs) \<Rightarrow> None
                | Some (JObj inner) \<Rightarrow> None
                | Some (JBool b) \<Rightarrow> Some (JInt (if b then 1 else 0))
                | name \<Rightarrow> name)
           | _ \<Rightarrow> None)
      | _ \<Rightarrow> None)"

lemma add_item_listed:
  "add_item items x = Inr items' \<longleftrightarrow> (\<exists>k. listed_name x = Some k \<and> items' = AList.update k x items)"
  by (auto simp: add_item_def item_name_def subscript_def hash_key_def listed_name_def split: json.splits option.splits sum.splits)

lemma add_items_append: "add_items items (xs @ ys) = (case add_items items xs of Inl e \<Rightarrow> Inl e | Inr items' \<Rightarrow> add_items items' ys)"
  by (induction xs arbitrary: items) (auto split: sum.splits)

lemma add_items_total: "(\<exists>items'. add_items items xs = Inr items') \<longleftrightarrow> (\<forall>x \<in> set xs. listed_name x \<noteq> None)"
proof (induction xs arbitrary: items)
  case (Cons x xs)
  show ?case
  proof (cases "listed_name x")
    case None
    then have "\<not> (\<exists>items'. add_item items x = Inr items')" by (simp add: add_item_listed)
    then show ?thesis using None by (auto split: sum.splits)
  next
    case (Some k)
    then have "add_item items x = Inr (AList.update k x items)" by (simp add: add_item_listed)
    then show ?thesis using Some Cons.IH by simp
  qed
qed simp

text \<open>What is kept under a key is the last item listed with it.\<close>

definition last_listed :: "json list \<Rightarrow> json \<Rightarrow> bool" where
  "last_listed xs z \<longleftrightarrow> (\<exists>before after. xs = before @ z # after \<and> (\<forall>y \<in> set after. listed_name y \<noteq> listed_name z))"

lemma last_listed_snoc: "last_listed (xs @ [x]) z \<longleftrightarrow> z = x \<or> last_listed xs z \<and> listed_name z \<noteq> listed_name x"
proof
  assume "last_listed (xs @ [x]) z"
  then obtain before after where s: "xs @ [x] = before @ z # after" "\<forall>y \<in> set after. listed_name y \<noteq> listed_name z"
    by (auto simp: last_listed_def)
  show "z = x \<or> last_listed xs z \<and> listed_name z \<noteq> listed_name x"
  proof (cases after rule: rev_cases)
    case (snoc ys y)
    then have "xs = before @ z # ys" "y = x" using s(1) by simp_all
    then show ?thesis using s(2) snoc by (auto simp: last_listed_def)
  qed (use s(1) in simp)
next
  assume "z = x \<or> last_listed xs z \<and> listed_name z \<noteq> listed_name x"
  then show "last_listed (xs @ [x]) z"
  proof
    assume "z = x"
    then show ?thesis unfolding last_listed_def by (intro exI [of _ xs] exI [of _ "[]"]) simp
  next
    assume z: "last_listed xs z \<and> listed_name z \<noteq> listed_name x"
    then obtain before after where "xs = before @ z # after" "\<forall>y \<in> set after. listed_name y \<noteq> listed_name z"
      by (auto simp: last_listed_def)
    then show ?thesis using z unfolding last_listed_def
      by (intro exI [of _ before] exI [of _ "after @ [x]"]) auto
  qed
qed

lemma add_items_last:
  "add_items [] xs = Inr items \<Longrightarrow> distinct (map fst items) \<and> (\<forall>k z. (k, z) \<in> set items \<longleftrightarrow> listed_name z = Some k \<and> last_listed xs z)"
proof (induction xs arbitrary: items rule: rev_induct)
  case (snoc x xs)
  then obtain items1 k where "add_items [] xs = Inr items1" and k: "listed_name x = Some k" "items = AList.update k x items1"
    by (auto simp: add_items_append add_item_listed split: sum.splits)
  with snoc.IH have ih: "distinct (map fst items1)" "\<And>k z. (k, z) \<in> set items1 \<longleftrightarrow> listed_name z = Some k \<and> last_listed xs z" by simp_all
  have d: "distinct (map fst items)" using ih(1) by (simp add: k(2) distinct_update)
  have "(k', z) \<in> set items \<longleftrightarrow> (if k' = k then z = x else (k', z) \<in> set items1)" for k' z
    unfolding map_of_eq_Some_iff [OF d, symmetric] map_of_eq_Some_iff [OF ih(1), symmetric]
    by (auto simp: k(2) update_conv')
  then show ?case using d k(1) by (auto simp: ih(2) last_listed_snoc)
qed (simp add: last_listed_def)

lemma related_iff:
  "related cl ns resource run_id x = (Inr items, x2) \<longleftrightarrow>
     (\<exists>own x1 theirs kept.
        list_resources (cl_kubernetes cl) ns resource (RUN_LABEL @ ''='' @ run_id) x = (Inr own, x1) \<and>
        list_resources (cl_kubernetes cl) ns resource (PARENT_RUN_LABEL @ ''='' @ run_id) x1 = (Inr theirs, x2) \<and>
        add_items [] (own @ theirs) = Inr kept \<and> items = map snd kept)"
proof -
  have two: "add_items [] (own @ theirs) = Inr kept \<longleftrightarrow> (\<exists>some. add_items [] own = Inr some \<and> add_items some theirs = Inr kept)"
    for own theirs kept by (auto simp: add_items_append split: sum.splits)
  show ?thesis unfolding related_def ext_fold.simps ext_Inr two by blast
qed

lemma select_none: "select_results test g xs = Inr [] \<longleftrightarrow> (\<forall>y \<in> set xs. test y = Inr False)"
  by (induction xs) (auto split: sum.splits bool.splits)

text \<open>The fields of the status of an object, none where it has no status.\<close>

definition status_fields :: "json dict \<Rightarrow> json dict option" where
  "status_fields kvs = (case dict_get kvs ''status'' of None \<Rightarrow> Some [] | Some (JObj st) \<Rightarrow> Some st | Some _ \<Rightarrow> None)"

lemma status_default: "get_default (JObj kvs) ''status'' (JObj []) = Inr (JObj st) \<longleftrightarrow> status_fields kvs = Some st"
  by (auto simp: get_default_def status_fields_def split: option.splits json.splits)

lemma get_default_Inr: "get_default v key d = Inr w \<longleftrightarrow> (\<exists>kvs. v = JObj kvs \<and> w = (case dict_get kvs key of None \<Rightarrow> d | Some y \<Rightarrow> y))"
  by (auto simp: get_default_def split: json.splits)

lemma pod_finished:
  "pod_active pod = Inr False \<longleftrightarrow>
     (\<exists>kvs st. pod = JObj kvs \<and> dict_get kvs ''status'' = Some (JObj st) \<and>
        dict_get st ''phase'' \<in> {Some (JStr ''Succeeded''), Some (JStr ''Failed'')})"
proof -
  have "dict_get [] ''phase'' = (None :: json option)" by (simp add: dict_get_def)
  then show ?thesis
    by (auto simp: pod_active_def get_default_def get_attr_def hash_key_def get_or_null_def split: json.splits option.splits sum.splits)
qed

text \<open>
  C31. The process boundary passes exactly on finished pods: the API answers both listings, of
  the pods labelled with the run and of those labelled as its children, each listed pod has a
  name, and each pod is finished as it was listed last, that is when no later object of the two
  listings has its name: then its \<open>status.phase\<close> is \<open>Succeeded\<close> or \<open>Failed\<close>.
\<close>

theorem process_passes_on_finished_pods:
  assumes "ag_namespace (ar_agent run) = ns" and "ns \<in> set (cl_allowed_namespaces cl)"
  shows "verdict (ad_probe (KubernetesKafkaAdapter cl) ''process'' run) x = Some PASS \<longleftrightarrow>
    (\<exists>own x1 theirs x2.
       list_resources (cl_kubernetes cl) ns ''pods'' (''asv.openai.com/run-id='' @ rn_run_id run) x = (Inr own, x1) \<and>
       list_resources (cl_kubernetes cl) ns ''pods'' (''asv.openai.com/parent-run-id='' @ rn_run_id run) x1 = (Inr theirs, x2) \<and>
       (\<forall>pod \<in> set (own @ theirs). listed_name pod \<noteq> None) \<and>
       (\<forall>before pod after. own @ theirs = before @ pod # after \<longrightarrow> (\<forall>later \<in> set after. listed_name later \<noteq> listed_name pod) \<longrightarrow>
          (\<exists>kvs st. pod = JObj kvs \<and> dict_get kvs ''status'' = Some (JObj st) \<and>
             dict_get st ''phase'' \<in> {Some (JStr ''Succeeded''), Some (JStr ''Failed'')})))"
proof -
  have all: "(\<exists>kept. add_items [] xs = Inr kept \<and> (\<forall>pod \<in> set (map snd kept). Q pod)) \<longleftrightarrow>
      (\<forall>pod \<in> set xs. listed_name pod \<noteq> None) \<and>
      (\<forall>before pod after. xs = before @ pod # after \<longrightarrow> (\<forall>later \<in> set after. listed_name later \<noteq> listed_name pod) \<longrightarrow> Q pod)" for xs Q
  proof (cases "\<exists>kept. add_items [] xs = Inr kept")
    case True
    then obtain kept where kept: "add_items [] xs = Inr kept" ..
    have named: "\<forall>pod \<in> set xs. listed_name pod \<noteq> None" using True add_items_total by blast
    have "z \<in> set (map snd kept) \<longleftrightarrow> last_listed xs z" for z
    proof -
      have "last_listed xs z \<Longrightarrow> listed_name z \<noteq> None" using named by (auto simp: last_listed_def)
      then show ?thesis using add_items_last [OF kept] by force
    qed
    then have "(\<forall>pod \<in> set (map snd kept). Q pod) \<longleftrightarrow> (\<forall>pod. last_listed xs pod \<longrightarrow> Q pod)" by blast
    also have "\<dots> \<longleftrightarrow> (\<forall>before pod after. xs = before @ pod # after \<longrightarrow> (\<forall>later \<in> set after. listed_name later \<noteq> listed_name pod) \<longrightarrow> Q pod)"
      unfolding last_listed_def by blast
    finally show ?thesis using kept named by simp
  qed (use add_items_total [of "[]" xs] in blast)
  have "verdict (ad_probe (KubernetesKafkaAdapter cl) ''process'' run) x = Some PASS \<longleftrightarrow>
      verdict (cluster_probe_body cl ns ''process'' run) x = Some PASS"
    using assms verdict_allowed [of run cl "''process''" x] by (simp add: KubernetesKafkaAdapter_def)
  also have "\<dots> \<longleftrightarrow> (\<exists>pods x2. related cl ns ''pods'' (rn_run_id run) x = (Inr pods, x2) \<and> select_results pod_active item_name pods = Inr [])"
    by (auto simp: verdict_def cluster_probe_body_def ext_defs none_active_def cluster_observation_def split: prod.splits sum.splits if_splits)
  also have "\<dots> \<longleftrightarrow> (\<exists>own x1 theirs x2.
       list_resources (cl_kubernetes cl) ns ''pods'' (RUN_LABEL @ ''='' @ rn_run_id run) x = (Inr own, x1) \<and>
       list_resources (cl_kubernetes cl) ns ''pods'' (PARENT_RUN_LABEL @ ''='' @ rn_run_id run) x1 = (Inr theirs, x2) \<and>
       (\<exists>kept. add_items [] (own @ theirs) = Inr kept \<and> (\<forall>pod \<in> set (map snd kept). pod_active pod = Inr False)))"
    unfolding related_iff select_none by blast
  finally show ?thesis unfolding all pod_finished by (simp add: RUN_LABEL_def PARENT_RUN_LABEL_def)
qed

text \<open>
  A named object, and when a job and a cron job are idle: no active pods are counted (the count
  may be a number or its text, and is 0 where it is missing), no active jobs are listed.
\<close>

definition named :: "json dict \<Rightarrow> bool" where
  "named kvs \<longleftrightarrow> (\<exists>meta name. dict_get kvs ''metadata'' = Some (JObj meta) \<and> dict_get meta ''name'' = Some name)"

definition no_active_pods :: "json dict \<Rightarrow> bool" where
  "no_active_pods status \<longleftrightarrow>
     (case dict_get status ''active'' of
        None \<Rightarrow> True
      | Some (JInt n) \<Rightarrow> n \<le> 0
      | Some (JBool b) \<Rightarrow> b = False
      | Some (JStr s) \<Rightarrow> (\<exists>n. parse_int s = Some n \<and> n \<le> 0)
      | _ \<Rightarrow> False)"

definition no_active_jobs :: "json dict \<Rightarrow> bool" where
  "no_active_jobs status \<longleftrightarrow> dict_get status ''active'' \<in> {None, Some JNull, Some (JArr [])}"

lemma child_of_Inr:
  "child_of kind item = Inr child \<longleftrightarrow> (\<exists>kvs name. item = JObj kvs \<and> item_name item = Inr name \<and>
     child = [(''kind'', JStr kind), (''name'', name), (''status'', case dict_get kvs ''status'' of None \<Rightarrow> JObj [] | Some y \<Rightarrow> y)])"
  by (auto simp: child_of_def get_default_Inr get_default_def split: sum.splits json.splits)

lemma item_named: "(\<exists>name. item_name (JObj kvs) = Inr name) \<longleftrightarrow> named kvs"
  by (auto simp: item_name_def subscript_def named_def split: option.splits json.splits sum.splits)

lemma status_object: "(case dict_get kvs ''status'' of None \<Rightarrow> JObj [] | Some y \<Rightarrow> y) = JObj st \<longleftrightarrow> status_fields kvs = Some st"
  by (auto simp: status_fields_def split: option.splits json.splits)

lemma job_idle: "child_active [(''kind'', JStr ''jobs''), (''name'', name), (''status'', status)] = Inr False \<longleftrightarrow>
    (\<exists>st. status = JObj st \<and> no_active_pods st)"
  by (cases status)
    (auto simp: child_active_def get_or_null_def dict_get_distinct get_default_def no_active_pods_def split: option.splits json.splits if_splits)

lemma cronjob_idle: "child_active [(''kind'', JStr ''cronjobs''), (''name'', name), (''status'', status)] = Inr False \<longleftrightarrow>
    (\<exists>st. status = JObj st \<and> no_active_jobs st)"
  by (cases status)
    (auto simp: child_active_def get_or_null_def dict_get_distinct get_default_def no_active_jobs_def split: option.splits)

lemma children_idle:
  assumes "\<And>name status. child_active [(''kind'', JStr kind), (''name'', name), (''status'', status)] = Inr False \<longleftrightarrow> (\<exists>st. status = JObj st \<and> Q st)"
  shows "(\<exists>found. collect (child_of kind) items = Inr found \<and> (\<forall>c \<in> set found. child_active c = Inr False)) \<longleftrightarrow>
    (\<forall>item \<in> set items. \<exists>kvs st. item = JObj kvs \<and> named kvs \<and> status_fields kvs = Some st \<and> Q st)"
proof -
  have one: "(\<exists>c. child_of kind item = Inr c \<and> child_active c = Inr False) \<longleftrightarrow>
      (\<exists>kvs st. item = JObj kvs \<and> named kvs \<and> status_fields kvs = Some st \<and> Q st)" for item
  proof -
    let ?status = "\<lambda>kvs. case dict_get kvs ''status'' of None \<Rightarrow> JObj [] | Some y \<Rightarrow> y"
    have "(\<exists>c. child_of kind item = Inr c \<and> child_active c = Inr False) \<longleftrightarrow>
        (\<exists>kvs name. item = JObj kvs \<and> item_name item = Inr name \<and> (\<exists>st. ?status kvs = JObj st \<and> Q st))"
      unfolding child_of_Inr by (auto simp: assms)
    also have "\<dots> \<longleftrightarrow> (\<exists>kvs st. item = JObj kvs \<and> (\<exists>name. item_name (JObj kvs) = Inr name) \<and> status_fields kvs = Some st \<and> Q st)"
      unfolding status_object by blast
    finally show ?thesis unfolding item_named .
  qed
  have "(\<exists>found. collect f xs = Inr found \<and> (\<forall>c \<in> set found. R c)) \<longleftrightarrow> (\<forall>z \<in> set xs. \<exists>c. f z = Inr c \<and> R c)"
    for f :: "json \<Rightarrow> exn + json dict" and xs R
    by (induction xs) (auto split: sum.splits)
  then show ?thesis by (simp only: one)
qed

text \<open>
  C32. The delegation boundary passes exactly on idle children: the API answers the listings of
  the child jobs and of the child cron jobs; each is a named object whose status, if it has one,
  is an object; no listed job counts more than 0 \<open>active\<close> pods, and no listed cron job has
  anything but \<open>null\<close> or the empty list as \<open>active\<close>.
\<close>

theorem delegation_passes_on_idle_children:
  assumes "ag_namespace (ar_agent run) = ns" and "ns \<in> set (cl_allowed_namespaces cl)"
  shows "verdict (ad_probe (KubernetesKafkaAdapter cl) ''delegation'' run) x = Some PASS \<longleftrightarrow>
    (\<exists>jobs x1 cronjobs x2.
       list_resources (cl_kubernetes cl) ns ''jobs'' (''asv.openai.com/parent-run-id='' @ rn_run_id run) x = (Inr jobs, x1) \<and>
       list_resources (cl_kubernetes cl) ns ''cronjobs'' (''asv.openai.com/parent-run-id='' @ rn_run_id run) x1 = (Inr cronjobs, x2) \<and>
       (\<forall>job \<in> set jobs. \<exists>kvs st. job = JObj kvs \<and> named kvs \<and> status_fields kvs = Some st \<and> no_active_pods st) \<and>
       (\<forall>job \<in> set cronjobs. \<exists>kvs st. job = JObj kvs \<and> named kvs \<and> status_fields kvs = Some st \<and> no_active_jobs st))"
proof -
  have "verdict (ad_probe (KubernetesKafkaAdapter cl) ''delegation'' run) x = Some PASS \<longleftrightarrow>
      verdict (cluster_probe_body cl ns ''delegation'' run) x = Some PASS"
    using assms verdict_allowed [of run cl "''delegation''" x] by (simp add: KubernetesKafkaAdapter_def)
  also have "\<dots> \<longleftrightarrow> (\<exists>children x2. found_children cl ns run x = (Inr children, x2) \<and>
      select_results child_active (\<lambda>c. Inr (JObj c)) children = Inr [])"
    using assms
    by (auto simp: verdict_def cluster_probe_body_def ext_defs none_active_def cluster_observation_def cluster_namespace_def Let_def
        split: prod.splits sum.splits if_splits)
  also have "\<dots> \<longleftrightarrow> (\<exists>jobs x1 cronjobs x2.
       list_resources (cl_kubernetes cl) ns ''jobs'' (PARENT_RUN_LABEL @ ''='' @ rn_run_id run) x = (Inr jobs, x1) \<and>
       list_resources (cl_kubernetes cl) ns ''cronjobs'' (PARENT_RUN_LABEL @ ''='' @ rn_run_id run) x1 = (Inr cronjobs, x2) \<and>
       (\<exists>found. collect (child_of ''jobs'') jobs = Inr found \<and> (\<forall>c \<in> set found. child_active c = Inr False)) \<and>
       (\<exists>found. collect (child_of ''cronjobs'') cronjobs = Inr found \<and> (\<forall>c \<in> set found. child_active c = Inr False)))"
    by (auto simp: found_children_def ext_Inr select_none ball_Un)
  finally show ?thesis
    unfolding children_idle [OF job_idle] children_idle [OF cronjob_idle] by (simp add: PARENT_RUN_LABEL_def)
qed

text \<open>
  C34. A restart passes exactly when the gateway accepted it and its answer is complete and
  right: the agent was restarted, at the run's policy version, the old identity is inactive, and
  the new identity is named and differs from the run's.
\<close>

theorem restart_passes_iff_renewed:
  assumes "ag_namespace (ar_agent run) \<in> set (cl_allowed_namespaces cl)"
  shows "verdict (ad_restart (KubernetesKafkaAdapter cl) run) x = Some PASS \<longleftrightarrow>
    (\<exists>g r kvs policy identity. cl_restart_gateway cl = Some g \<and> fst (restart_call g run x) = Inr r \<and>
       hr_status r \<in> {200, 201, 202} \<and> hr_body r = JObj kvs \<and>
       get_or_null kvs ''restarted'' = JBool True \<and>
       get_or_null kvs ''policy_version'' = policy \<and> is_jint policy \<and> equals_int policy (rn_policy_version run) \<and>
       get_or_null kvs ''old_identity_active'' = JBool False \<and>
       get_or_null kvs ''new_identity_ref'' = JStr identity \<and> identity \<noteq> [] \<and> identity \<noteq> rn_identity_ref run)"
proof -
  have outcome: "restart_outcome run r = Inr PASS \<longleftrightarrow> hr_status r \<in> {200, 201, 202} \<and> (\<exists>kvs identity. hr_body r = JObj kvs \<and>
       get_or_null kvs ''restarted'' = JBool True \<and> is_jint (get_or_null kvs ''policy_version'') \<and>
       equals_int (get_or_null kvs ''policy_version'') (rn_policy_version run) \<and>
       get_or_null kvs ''old_identity_active'' = JBool False \<and>
       get_or_null kvs ''new_identity_ref'' = JStr identity \<and> identity \<noteq> [] \<and> identity \<noteq> rn_identity_ref run)" for r
    by (auto simp: restart_outcome_def restart_verdict_def get_attr_def split: json.splits if_splits bool.splits)
  have "verdict (restart_probe_run g run) x = Some PASS \<longleftrightarrow>
      (\<exists>r kvs. fst (restart_call g run x) = Inr r \<and> restart_outcome run r = Inr PASS \<and> hr_body r = JObj kvs)" for g
    by (auto simp: verdict_def restart_probe_run_def failed_probe_def ext_try_def ext_ret_def ext_bnd_def ext_lift_def
        restart_observed_def split: prod.splits sum.splits json.splits)
  then have "verdict (restart_probe_run g run) x = Some PASS \<longleftrightarrow> (\<exists>r. fst (restart_call g run x) = Inr r \<and> restart_outcome run r = Inr PASS)" for g
    using outcome by blast
  moreover have "verdict (ad_restart (KubernetesKafkaAdapter cl) run) x = Some PASS \<longleftrightarrow>
      (\<exists>g. cl_restart_gateway cl = Some g \<and> verdict (restart_probe_run g run) x = Some PASS)"
    using assms
    by (auto simp: KubernetesKafkaAdapter_def cluster_restart_def cluster_namespace_def verdict_def ext_defs cluster_observation_def
        split: option.splits)
  ultimately show ?thesis unfolding outcome by blast
qed

section \<open>What fencing and stopping did\<close>

text \<open>
  The request for a policy that denies all traffic to and from the pods with a label: written
  out, as the API of the cluster has to get it.
\<close>

definition policy_request :: "kubernetes_client \<Rightarrow> string \<Rightarrow> string \<Rightarrow> string \<Rightarrow> string \<Rightarrow> http_request" where
  "policy_request kc ns run_id suffix label =
     \<lparr>rq_method = ''POST'', rq_url = kc_base_url kc @ ''/apis/networking.k8s.io/v1/namespaces/'' @ ns @ ''/networkpolicies'',
      rq_headers = [(''Authorization'', ''Bearer '' @ kc_token kc), (''Accept'', ''application/json''),
        (''Content-Type'', ''application/json'')],
      rq_body = Some (JObj [
        (''apiVersion'', JStr ''networking.k8s.io/v1''),
        (''kind'', JStr ''NetworkPolicy''),
        (''metadata'', JObj [
          (''name'', JStr (''asv-fence-'' @ suffix @ ''-'' @ take 8 run_id)),
          (''labels'', JObj [(''asv.openai.com/run-id'', JStr run_id), (''app.kubernetes.io/managed-by'', JStr ''asv'')])]),
        (''spec'', JObj [
          (''podSelector'', JObj [(''matchLabels'', JObj [(label, JStr run_id)])]),
          (''policyTypes'', JArr [JStr ''Ingress'', JStr ''Egress'']),
          (''ingress'', JArr []),
          (''egress'', JArr [])])])\<rparr>"

definition accepted :: "http_result \<Rightarrow> bool" where
  "accepted r \<longleftrightarrow> 200 \<le> hr_status r \<and> hr_status r < 300"

lemma api_request_run:
  "api_request kc method path body x =
     (let rq = \<lparr>rq_method = method, rq_url = kc_base_url kc @ path,
        rq_headers = [(''Authorization'', ''Bearer '' @ kc_token kc), (''Accept'', ''application/json''),
          (''Content-Type'', if method = ''PATCH'' then ''application/merge-patch+json'' else ''application/json'')],
        rq_body = body\<rparr>
      in (case ex_reply x (ex_log x) rq of
            Inl e \<Rightarrow> Inl e
          | Inr r \<Rightarrow> if accepted r then Inr (hr_body r) else Inl (api_error r), x\<lparr>ex_log := ex_log x @ [rq]\<rparr>))"
  by (auto simp: api_request_def ext_defs accepted_def Let_def split: sum.splits)

lemma create_policy_run:
  "create_policy kc ns run_id (suffix, label) x =
     (let rq = policy_request kc ns run_id suffix label
      in (case ex_reply x (ex_log x) rq of
            Inl e \<Rightarrow> if exn_class e = IntegrationError \<and> contains ''409'' (exn_message e) then Inr () else Inl e
          | Inr r \<Rightarrow> if accepted r \<or> contains ''409'' (exn_message (api_error r)) then Inr () else Inl (api_error r),
          x\<lparr>ex_log := ex_log x @ [rq]\<rparr>))"
  by (auto simp: create_policy_def ext_catch_def ext_bnd_def ext_ret_def ext_throw_def api_request_run policy_request_def Let_def
      api_error_def fence_manifest_def policy_name_def RUN_LABEL_def split: sum.splits)

text \<open>
  C37. A fence that is accepted has asked for both network policies: it sends exactly two
  requests, in this order: a policy that selects the pods labelled with the run and one that
  selects those labelled as its children, each of both policy types with no rule for incoming
  and none for outgoing traffic, which denies all of it.
\<close>

theorem fence_posts_both_policies:
  assumes "create_fence kc ns run_id x = (Inr (), x')"
  shows "x' = x\<lparr>ex_log := ex_log x @ [policy_request kc ns run_id ''run'' ''asv.openai.com/run-id'',
                                    policy_request kc ns run_id ''children'' ''asv.openai.com/parent-run-id'']\<rparr>"
  using assms
  by (auto simp: create_fence_def ext_bnd_def ext_ret_def create_policy_run Let_def RUN_LABEL_def PARENT_RUN_LABEL_def split: sum.splits if_splits)

lemma contains_append: "contains p s \<Longrightarrow> contains p (t @ s)"
  by (induction t) auto

text \<open>
  C38. Any answer whose text has the digits 409 in it counts as an existing policy: whatever the
  status, an error whose body prints with \<open>409\<close> anywhere makes \<open>create_fence\<close> go on as if the
  policy were there. A policy is also named after the first eight characters of the run id only.
\<close>

theorem fence_accepts_any_409:
  assumes "\<And>log rq. ex_reply x log rq = Inr \<lparr>hr_status = status, hr_body = body\<rparr>" and "contains ''409'' (py_str body)"
  shows "fst (create_fence kc ns run_id x) = Inr () \<and>
    (take 8 run_id = take 8 other_run_id \<longrightarrow> policy_name suffix run_id = policy_name suffix other_run_id)"
proof -
  have "contains ''409'' (exn_message (api_error \<lparr>hr_status = status, hr_body = body\<rparr>))"
    using contains_append [OF assms(2), of "''Kubernetes API returned '' @ int_dec status @ '': ''"] by (simp add: api_error_def)
  then show ?thesis
    by (simp add: create_fence_def ext_bnd_def ext_ret_def create_policy_run assms(1) Let_def policy_name_def)
qed

definition delete_request :: "kubernetes_client \<Rightarrow> string \<Rightarrow> string \<Rightarrow> string \<Rightarrow> http_request" where
  "delete_request kc ns resource name =
     \<lparr>rq_method = ''DELETE'', rq_url = kc_base_url kc @ resource_path ns resource @ ''/'' @ url_quote name,
      rq_headers = [(''Authorization'', ''Bearer '' @ kc_token kc), (''Accept'', ''application/json''),
        (''Content-Type'', ''application/json'')],
      rq_body = Some (JObj [(''propagationPolicy'', JStr ''Foreground''), (''gracePeriodSeconds'', JInt 0)])\<rparr>"

lemma delete_resource_Inr:
  assumes "delete_resource kc ns resource name x = (Inr (), x')"
  shows "\<exists>s. name = JStr s \<and> x' = x\<lparr>ex_log := ex_log x @ [delete_request kc ns resource s]\<rparr>"
  using assms
  by (auto simp: delete_resource_def ext_catch_def ext_bnd_def ext_lift_def ext_ret_def ext_throw_def quote_name_def
      api_request_run delete_request_def Let_def split: json.splits sum.splits if_splits)

lemma delete_item_Inr:
  assumes "delete_item cl ns resource item x = (Inr (), x')"
  shows "\<exists>s. item_name item = Inr (JStr s) \<and> ex_log x' = ex_log x @ [delete_request (cl_kubernetes cl) ns resource s]"
proof -
  from assms obtain name where name: "item_name item = Inr name"
      and del: "delete_resource (cl_kubernetes cl) ns resource name x = (Inr (), x')"
    by (auto simp: delete_item_def ext_Inr)
  from delete_resource_Inr [OF del] show ?thesis using name by auto
qed

lemma delete_items_Inr:
  "ext_for_each items (delete_item cl ns resource) x = (Inr (), x') \<Longrightarrow>
     set (ex_log x) \<subseteq> set (ex_log x') \<and>
     (\<forall>item \<in> set items. \<exists>s. item_name item = Inr (JStr s) \<and> delete_request (cl_kubernetes cl) ns resource s \<in> set (ex_log x'))"
proof (induction items arbitrary: x)
  case (Cons item items)
  then obtain x1 where x1: "delete_item cl ns resource item x = (Inr (), x1)"
      "ext_for_each items (delete_item cl ns resource) x1 = (Inr (), x')"
    by (auto simp: ext_Inr)
  obtain s where s: "item_name item = Inr (JStr s)" "ex_log x1 = ex_log x @ [delete_request (cl_kubernetes cl) ns resource s]"
    using delete_item_Inr [OF x1(1)] by blast
  with Cons.IH [OF x1(2)] show ?case by auto
qed (simp add: ext_ret_def)

text \<open>
  C35. A stop that is accepted has deleted everything it found: for each pod and each job listed
  under the run or as its child, a \<open>DELETE\<close> of its name in the agent's namespace was sent, and
  the answer counts them.
\<close>

theorem stop_deletes_everything_listed:
  assumes "ag_namespace (ar_agent run) = ns"
    and "ad_stop_process (KubernetesKafkaAdapter cl) run x = (Inr answer, x')"
  shows "\<exists>pods x1 jobs x2. related cl ns ''pods'' (rn_run_id run) x = (Inr pods, x1) \<and>
    related cl ns ''jobs'' (rn_run_id run) x1 = (Inr jobs, x2) \<and>
    answer = [(''accepted'', JBool True), (''pods_deleted'', JInt (int (length pods))), (''jobs_deleted'', JInt (int (length jobs)))] \<and>
    (\<forall>pod \<in> set pods. \<exists>s. item_name pod = Inr (JStr s) \<and> delete_request (cl_kubernetes cl) ns ''pods'' s \<in> set (ex_log x')) \<and>
    (\<forall>job \<in> set jobs. \<exists>s. item_name job = Inr (JStr s) \<and> delete_request (cl_kubernetes cl) ns ''jobs'' s \<in> set (ex_log x'))"
proof -
  from assms obtain pods x1 jobs x2 x3 where
      r: "related cl ns ''pods'' (rn_run_id run) x = (Inr pods, x1)" "related cl ns ''jobs'' (rn_run_id run) x1 = (Inr jobs, x2)"
    and d: "ext_for_each pods (delete_item cl ns ''pods'') x2 = (Inr (), x3)" "ext_for_each jobs (delete_item cl ns ''jobs'') x3 = (Inr (), x')"
    and a: "answer = [(''accepted'', JBool True), (''pods_deleted'', JInt (int (length pods))), (''jobs_deleted'', JInt (int (length jobs)))]"
    by (auto simp: KubernetesKafkaAdapter_def cluster_stop_process_def ext_Inr cluster_namespace_def split: if_splits)
  from delete_items_Inr [OF d(1)] delete_items_Inr [OF d(2)] r a show ?thesis by blast
qed

section \<open>A cluster\<close>

text \<open>A cluster whose API knows nothing of the run any more and whose gateways refuse everything.\<close>

definition quiet_cluster :: cluster where
  "quiet_cluster =
     \<lparr>cl_kubernetes = \<lparr>kc_base_url = ''k8s:'', kc_token = ''kt''\<rparr>, cl_allowed_namespaces = [''asv-demo''],
      cl_kafka = Some \<lparr>kp_base_url = ''kafka:'', kp_topic = ''t'', kp_consumer_group = ''g'', kp_consumer_instance = ''i'', kp_bearer_token = ''bt''\<rparr>,
      cl_credential = Some \<lparr>cb_base_url = ''broker:'', cb_test_resource = ''r'', cb_controller_token = ''ct''\<rparr>,
      cl_egress = Some \<lparr>eg_base_url = ''egress:'', eg_test_destination = ''d'', eg_controller_token = ''et''\<rparr>,
      cl_restart_gateway = Some \<lparr>rg_base_url = ''restart:'', rg_controller_token = ''rt''\<rparr>\<rparr>"

definition quiet_reply :: "http_request \<Rightarrow> exn + http_result" where
  "quiet_reply rq =
     (if starts_with (rq_url rq) ''k8s:'' then Inr \<lparr>hr_status = 200, hr_body = JObj [(''items'', JArr [])]\<rparr>
      else if starts_with (rq_url rq) ''restart:'' then
        Inr \<lparr>hr_status = 202, hr_body = JObj [(''restarted'', JBool True), (''policy_version'', JInt 1),
          (''old_identity_active'', JBool False), (''new_identity_ref'', JStr ''new'')]\<rparr>
      else Inr \<lparr>hr_status = 403, hr_body = JObj []\<rparr>)"

definition calm :: ext where
  "calm = \<lparr>ex_log = [], ex_reply = (\<lambda>log. quiet_reply)\<rparr>"

definition demo_agent :: "json agent_row" where
  "demo_agent = \<lparr>ag_agent_id = ''a'', ag_tenant_id = ''t'', ag_name = ''n'', ag_image_digest = ''d'', ag_namespace = ''asv-demo'',
     ag_scope_owner = ''o'', ag_declared_scope = JObj [], ag_status = ''ACTIVE'', ag_created_at = 0\<rparr>"

definition demo_run :: adapter_run where
  "demo_run = run_view.extend (run_row.extend sample_run (run_view.fields [] [])) (adapter_run.fields demo_agent)"

lemma demo_sel:
  "ag_namespace (ar_agent demo_run) = ''asv-demo''" "rn_run_id demo_run = ''r''" "rn_identity_ref demo_run = ''i''"
  "rn_policy_version demo_run = 1" "rn_agent_id demo_run = ''a''" "set (cl_allowed_namespaces quiet_cluster) = {''asv-demo''}"
  by (simp_all add: demo_run_def demo_agent_def sample_run_def quiet_cluster_def)

lemma calm_urlopen: "urlopen rq (calm\<lparr>ex_log := log\<rparr>) = (quiet_reply rq, calm\<lparr>ex_log := log @ [rq]\<rparr>)"
  by (simp add: urlopen_def calm_def)

lemma calm_log: "calm = calm\<lparr>ex_log := []\<rparr>"
  by (simp add: calm_def)

theorem requests_stay_in_scope_witness:
  "sends (\<lambda>rq. starts_with ''asv-demo'' ''asv-'' \<and> ''asv-demo'' \<in> set (cl_allowed_namespaces quiet_cluster) \<and>
     in_scope quiet_cluster ''asv-demo'' rq) (ad_fence (KubernetesKafkaAdapter quiet_cluster) demo_run)"
proof -
  have "new_cluster quiet_cluster = Inr quiet_cluster" by (simp add: new_cluster_def quiet_cluster_def)
  from requests_stay_in_scope [OF this, of demo_run] show ?thesis by (simp only: Let_def demo_sel simp_thms)
qed

theorem cluster_probes_always_answer_witness:
  "\<exists>ob. fst (ad_probe (KubernetesKafkaAdapter quiet_cluster) ''kafka'' demo_run calm) = Inr ob \<and> obs_kind ob = ''kafka''"
  by (rule cluster_probes_always_answer) (simp add: demo_sel)

theorem boundaries_pass_iff_denied_witness:
  "verdict (ad_probe (KubernetesKafkaAdapter quiet_cluster) ''kafka'' demo_run) calm = Some PASS \<and>
   verdict (ad_probe (KubernetesKafkaAdapter quiet_cluster) ''credential'' demo_run) calm = Some PASS \<and>
   verdict (ad_probe (KubernetesKafkaAdapter quiet_cluster) ''network'' demo_run) calm = Some PASS"
proof -
  have ok: "ag_namespace (ar_agent demo_run) \<in> set (cl_allowed_namespaces quiet_cluster)" by (simp add: demo_sel)
  show ?thesis
    unfolding boundaries_pass_iff_denied [OF ok, of calm, THEN conjunct1]
      boundaries_pass_iff_denied [OF ok, of calm, THEN conjunct2, THEN conjunct1]
      boundaries_pass_iff_denied [OF ok, of calm, THEN conjunct2, THEN conjunct2]
    by (subst (1 2 3) calm_log)
      (simp add: quiet_cluster_def kafka_call_def credential_call_def egress_call_def calm_urlopen quiet_reply_def)
qed

theorem restart_passes_iff_renewed_witness:
  "verdict (ad_restart (KubernetesKafkaAdapter quiet_cluster) demo_run) calm = Some PASS"
proof -
  have ok: "ag_namespace (ar_agent demo_run) \<in> set (cl_allowed_namespaces quiet_cluster)" by (simp add: demo_sel)
  show ?thesis
    unfolding restart_passes_iff_renewed [OF ok]
    by (subst calm_log)
      (simp add: quiet_cluster_def restart_call_def calm_urlopen quiet_reply_def get_or_null_def dict_get_distinct equals_int_def demo_sel)
qed

theorem fence_posts_both_policies_witness:
  "length (ex_log (snd (create_fence (cl_kubernetes quiet_cluster) ''asv-demo'' ''r'' calm))) = 2"
proof -
  obtain x' where "create_fence (cl_kubernetes quiet_cluster) ''asv-demo'' ''r'' calm = (Inr (), x')"
    by (simp add: create_fence_def ext_bnd_def ext_ret_def create_policy_run Let_def calm_def quiet_reply_def policy_request_def
        quiet_cluster_def accepted_def)
  from fence_posts_both_policies [OF this] this show ?thesis by (simp add: calm_def)
qed

theorem fence_accepts_any_409_witness:
  "fst (create_fence (cl_kubernetes quiet_cluster) ''asv-demo'' ''r''
     (calm\<lparr>ex_reply := (\<lambda>log rq. Inr \<lparr>hr_status = 500, hr_body = JStr ''line 409''\<rparr>)\<rparr>)) = Inr ()"
  using fence_accepts_any_409 [of "calm\<lparr>ex_reply := (\<lambda>log rq. Inr \<lparr>hr_status = 500, hr_body = JStr ''line 409''\<rparr>)\<rparr>" 500 "JStr ''line 409''"]
  by simp

text \<open>A cluster in which every listing has the same objects.\<close>

definition listing :: "json list \<Rightarrow> ext" where
  "listing items = \<lparr>ex_log = [], ex_reply = (\<lambda>log rq. Inr \<lparr>hr_status = 200, hr_body = JObj [(''items'', JArr items)]\<rparr>)\<rparr>"

definition busy_object :: json where
  "busy_object = JObj [(''metadata'', JObj [(''name'', JStr ''p'')])]"

definition busy :: ext where
  "busy = listing [busy_object]"

lemma listing_log: "listing items = (listing items)\<lparr>ex_log := []\<rparr>"
  by (simp add: listing_def)

lemma listing_api: "\<exists>log'. api_request kc m path body ((listing items)\<lparr>ex_log := log\<rparr>)
    = (Inr (JObj [(''items'', JArr items)]), (listing items)\<lparr>ex_log := log'\<rparr>)"
  by (simp add: api_request_run Let_def listing_def accepted_def)

lemma busy_name: "item_name busy_object = Inr (JStr ''p'')"
  by (simp add: item_name_def subscript_def busy_object_def dict_get_distinct)

lemma listing_list: "\<exists>log'. list_resources kc ns resource selector ((listing items)\<lparr>ex_log := log\<rparr>) = (Inr items, (listing items)\<lparr>ex_log := log'\<rparr>)"
proof -
  obtain l where "api_request kc ''GET'' (resource_path ns resource @ ''?labelSelector='' @ quote_plus selector) None ((listing items)\<lparr>ex_log := log\<rparr>)
      = (Inr (JObj [(''items'', JArr items)]), (listing items)\<lparr>ex_log := l\<rparr>)" using listing_api by blast
  then show ?thesis
    by (intro exI [of _ l]) (simp add: list_resources_def ext_bnd_def ext_lift_def get_default_def dict_get_distinct py_list_def)
qed

lemmas busy_list = listing_list [where items = "[busy_object]", folded busy_def]

text \<open>A pod in a phase.\<close>

definition pod_in :: "string \<Rightarrow> json" where
  "pod_in phase = JObj [(''metadata'', JObj [(''name'', JStr ''p'')]), (''status'', JObj [(''phase'', JStr phase)])]"

lemma listed_pod_in: "listed_name (pod_in phase) = Some (JStr ''p'')"
  by (simp add: listed_name_def pod_in_def dict_get_distinct)

text \<open>A pod listed as running and then as succeeded passes; in the other order it does not.\<close>

theorem process_passes_on_finished_pods_witness:
  "verdict (ad_probe (KubernetesKafkaAdapter quiet_cluster) ''process'' demo_run) (listing [pod_in ''Running'', pod_in ''Succeeded'']) = Some PASS \<and>
   verdict (ad_probe (KubernetesKafkaAdapter quiet_cluster) ''process'' demo_run) (listing [pod_in ''Succeeded'', pod_in ''Running'']) \<noteq> Some PASS"
proof -
  have ok: "''asv-demo'' \<in> set (cl_allowed_namespaces quiet_cluster)" by (simp add: demo_sel)
  note pass = process_passes_on_finished_pods [OF demo_sel(1) ok]
  have both: "\<exists>x1 x2. list_resources kc ns r sel (listing items) = (Inr items, x1) \<and> list_resources kc ns r sel' x1 = (Inr items, x2)"
    for kc ns r sel sel' items
    using listing_list listing_log by metis
  show ?thesis
  proof
    let ?items = "[pod_in ''Running'', pod_in ''Succeeded'']"
    obtain x1 x2 where l: "list_resources (cl_kubernetes quiet_cluster) ''asv-demo'' ''pods'' (''asv.openai.com/run-id='' @ rn_run_id demo_run) (listing ?items) = (Inr ?items, x1)"
        "list_resources (cl_kubernetes quiet_cluster) ''asv-demo'' ''pods'' (''asv.openai.com/parent-run-id='' @ rn_run_id demo_run) x1 = (Inr ?items, x2)"
      using both by blast
    have last: "pod = pod_in ''Succeeded''"
      if "?items @ ?items = before @ pod # after" "\<forall>later \<in> set after. listed_name later \<noteq> listed_name pod" for before pod after
      using that by (auto simp: Cons_eq_append_conv listed_pod_in)
    have over: "\<exists>kvs st. pod_in ''Succeeded'' = JObj kvs \<and> dict_get kvs ''status'' = Some (JObj st) \<and>
        dict_get st ''phase'' \<in> {Some (JStr ''Succeeded''), Some (JStr ''Failed'')}"
      by (simp add: pod_in_def dict_get_distinct)
    show "verdict (ad_probe (KubernetesKafkaAdapter quiet_cluster) ''process'' demo_run) (listing ?items) = Some PASS"
      unfolding pass
    proof (rule exI [of _ ?items], rule exI [of _ x1], rule exI [of _ ?items], rule exI [of _ x2], intro conjI l allI impI)
      show "\<forall>pod \<in> set (?items @ ?items). listed_name pod \<noteq> None" by (simp add: listed_pod_in)
    next
      fix before pod after
      assume "?items @ ?items = before @ pod # after" "\<forall>later \<in> set after. listed_name later \<noteq> listed_name pod"
      then have pod: "pod = pod_in ''Succeeded''" by (rule last)
      show "\<exists>kvs st. pod = JObj kvs \<and> dict_get kvs ''status'' = Some (JObj st) \<and>
          dict_get st ''phase'' \<in> {Some (JStr ''Succeeded''), Some (JStr ''Failed'')}"
        unfolding pod by (rule over)
    qed
  next
    let ?items = "[pod_in ''Succeeded'', pod_in ''Running'']"
    have running: "\<not> (\<exists>kvs st. pod_in ''Running'' = JObj kvs \<and> dict_get kvs ''status'' = Some (JObj st) \<and>
        dict_get st ''phase'' \<in> {Some (JStr ''Succeeded''), Some (JStr ''Failed'')})"
      by (simp add: pod_in_def dict_get_distinct)
    show "verdict (ad_probe (KubernetesKafkaAdapter quiet_cluster) ''process'' demo_run) (listing ?items) \<noteq> Some PASS"
    proof
      assume "verdict (ad_probe (KubernetesKafkaAdapter quiet_cluster) ''process'' demo_run) (listing ?items) = Some PASS"
      then obtain own x1 theirs x2 where
          l: "list_resources (cl_kubernetes quiet_cluster) ''asv-demo'' ''pods'' (''asv.openai.com/run-id='' @ rn_run_id demo_run) (listing ?items) = (Inr own, x1)"
            "list_resources (cl_kubernetes quiet_cluster) ''asv-demo'' ''pods'' (''asv.openai.com/parent-run-id='' @ rn_run_id demo_run) x1 = (Inr theirs, x2)"
        and last: "\<And>before pod after. own @ theirs = before @ pod # after \<Longrightarrow> \<forall>later \<in> set after. listed_name later \<noteq> listed_name pod \<Longrightarrow>
          \<exists>kvs st. pod = JObj kvs \<and> dict_get kvs ''status'' = Some (JObj st) \<and> dict_get st ''phase'' \<in> {Some (JStr ''Succeeded''), Some (JStr ''Failed'')}"
        unfolding pass by blast
      have "own = ?items \<and> theirs = ?items"
        using both [of "cl_kubernetes quiet_cluster" "''asv-demo''" "''pods''" "''asv.openai.com/run-id='' @ rn_run_id demo_run" ?items
            "''asv.openai.com/parent-run-id='' @ rn_run_id demo_run"] l by auto
      then show False using last [of "[pod_in ''Succeeded'', pod_in ''Running'', pod_in ''Succeeded'']" "pod_in ''Running''" "[]"] running by simp
    qed
  qed
qed

text \<open>A job without a status is idle, and so is a cron job.\<close>

theorem delegation_passes_on_idle_children_witness:
  "verdict (ad_probe (KubernetesKafkaAdapter quiet_cluster) ''delegation'' demo_run) busy = Some PASS"
proof -
  have ok: "''asv-demo'' \<in> set (cl_allowed_namespaces quiet_cluster)" by (simp add: demo_sel)
  have "busy = busy\<lparr>ex_log := []\<rparr>" by (simp add: busy_def listing_def)
  then have "\<exists>x1 x2. list_resources kc ns r sel busy = (Inr [busy_object], x1) \<and> list_resources kc ns r' sel' x1 = (Inr [busy_object], x2)"
    for kc ns r r' sel sel'
    using busy_list by metis
  moreover have "\<exists>kvs st. busy_object = JObj kvs \<and> named kvs \<and> status_fields kvs = Some st \<and> no_active_pods st \<and> no_active_jobs st"
    by (simp add: busy_object_def named_def status_fields_def no_active_pods_def no_active_jobs_def dict_get_distinct)
  ultimately show ?thesis
    unfolding delegation_passes_on_idle_children [OF demo_sel(1) ok] by fastforce
qed

lemma busy_related: "\<exists>log'. related cl ns resource run_id (busy\<lparr>ex_log := log\<rparr>) = (Inr [busy_object], busy\<lparr>ex_log := log'\<rparr>)"
proof -
  obtain l1 where 1: "list_resources (cl_kubernetes cl) ns resource (RUN_LABEL @ ''='' @ run_id) (busy\<lparr>ex_log := log\<rparr>)
    = (Inr [busy_object], busy\<lparr>ex_log := l1\<rparr>)" using busy_list by blast
  obtain l2 where 2: "list_resources (cl_kubernetes cl) ns resource (PARENT_RUN_LABEL @ ''='' @ run_id) (busy\<lparr>ex_log := l1\<rparr>)
    = (Inr [busy_object], busy\<lparr>ex_log := l2\<rparr>)" using busy_list by blast
  show ?thesis
    by (rule exI [of _ l2]) (simp add: related_def ext_bnd_def ext_ret_def ext_lift_def 1 [simplified] 2 [simplified]
        add_item_def busy_name hash_key_def)
qed

lemma busy_delete: "\<exists>log'. delete_item cl ns resource busy_object (busy\<lparr>ex_log := log\<rparr>) = (Inr (), busy\<lparr>ex_log := log'\<rparr>)"
  by (simp add: delete_item_def busy_name delete_resource_def ext_bnd_def ext_lift_def ext_catch_def ext_ret_def quote_name_def
      api_request_run Let_def busy_def listing_def accepted_def)

theorem stop_deletes_everything_listed_witness:
  "\<exists>answer x'. ad_stop_process (KubernetesKafkaAdapter quiet_cluster) demo_run busy = (Inr answer, x') \<and>
     delete_request (cl_kubernetes quiet_cluster) ''asv-demo'' ''pods'' ''p'' \<in> set (ex_log x') \<and>
     delete_request (cl_kubernetes quiet_cluster) ''asv-demo'' ''jobs'' ''p'' \<in> set (ex_log x')"
proof -
  have start: "busy = busy\<lparr>ex_log := []\<rparr>" by (simp add: busy_def listing_def)
  obtain l1 where 1: "related quiet_cluster ''asv-demo'' ''pods'' ''r'' busy = (Inr [busy_object], busy\<lparr>ex_log := l1\<rparr>)"
    using busy_related start by metis
  obtain l2 where 2: "related quiet_cluster ''asv-demo'' ''jobs'' ''r'' (busy\<lparr>ex_log := l1\<rparr>) = (Inr [busy_object], busy\<lparr>ex_log := l2\<rparr>)"
    using busy_related by blast
  obtain l3 where 3: "delete_item quiet_cluster ''asv-demo'' ''pods'' busy_object (busy\<lparr>ex_log := l2\<rparr>) = (Inr (), busy\<lparr>ex_log := l3\<rparr>)"
    using busy_delete by blast
  obtain l4 where 4: "delete_item quiet_cluster ''asv-demo'' ''jobs'' busy_object (busy\<lparr>ex_log := l3\<rparr>) = (Inr (), busy\<lparr>ex_log := l4\<rparr>)"
    using busy_delete by blast
  have "\<exists>answer. ad_stop_process (KubernetesKafkaAdapter quiet_cluster) demo_run busy = (Inr answer, busy\<lparr>ex_log := l4\<rparr>)"
    by (simp add: KubernetesKafkaAdapter_def cluster_stop_process_def cluster_namespace_def Let_def demo_sel ext_bnd_def ext_lift_def
        ext_ret_def 1 2 3 4)
  then obtain answer where stop: "ad_stop_process (KubernetesKafkaAdapter quiet_cluster) demo_run busy = (Inr answer, busy\<lparr>ex_log := l4\<rparr>)" ..
  from stop_deletes_everything_listed [OF demo_sel(1) this] show ?thesis
    using 1 2 stop by (auto simp: demo_sel busy_name)
qed

end
