(* ===== verification/Server.thy ===== *)
theory Server
  imports Metrics Boundaries
begin

text \<open>
  \<open>asv/server.py\<close>: the HTTP handler, the mapping of exceptions to answers, the configuration of
  the server from its environment, and one round of the recovery worker of \<open>asv/service.py\<close>.
  A request is a path, its headers and the bytes after them. An answer is a status and the
  value given to \<open>_send\<close>; the text \<open>json.dumps\<close> makes of a row, sockets and logging are outside.
\<close>

section \<open>Paths\<close>

text \<open>
  \<open>urlparse(path).path\<close> of a path that starts with one slash: the text before \<open>?\<close> and \<open>#\<close>,
  without the parameters of its last segment.
\<close>

definition before_query :: "string \<Rightarrow> string" where
  "before_query s = takeWhile (\<lambda>c. c \<noteq> CHR ''?'') (takeWhile (\<lambda>c. c \<noteq> CHR ''#'') s)"

definition last_segment :: "string \<Rightarrow> string" where
  "last_segment s = rev (takeWhile (\<lambda>c. c \<noteq> CHR ''/'') (rev s))"

definition url_path :: "string \<Rightarrow> string" where
  "url_path s =
     (let p = before_query s; seg = last_segment p
      in take (length p - length seg) p @ takeWhile (\<lambda>c. c \<noteq> CHR '';'') seg)"

text \<open>The patterns \<open>^prefix([0-9a-f-]+)suffix$\<close> with \<open>fullmatch\<close>: the group.\<close>

definition id_char :: "char \<Rightarrow> bool" where
  "id_char c \<longleftrightarrow> (let n = (of_char c :: nat) in (48 \<le> n \<and> n \<le> 57) \<or> (97 \<le> n \<and> n \<le> 102) \<or> n = 45)"

definition match_path :: "string \<Rightarrow> string \<Rightarrow> string \<Rightarrow> string option" where
  "match_path prefix suffix path =
     (let r = drop (length prefix) path; i = takeWhile id_char r
      in if starts_with path prefix \<and> i \<noteq> [] \<and> dropWhile id_char r = suffix then Some i else None)"

definition RUN_PATH :: "string \<Rightarrow> string option" where
  "RUN_PATH = match_path ''/v1/runs/'' ''''"

definition SHUTDOWN_PATH :: "string \<Rightarrow> string option" where
  "SHUTDOWN_PATH = match_path ''/v1/runs/'' ''/shutdown''"

definition EVIDENCE_PATH :: "string \<Rightarrow> string option" where
  "EVIDENCE_PATH = match_path ''/v1/runs/'' ''/evidence''"

definition EVENTS_PATH :: "string \<Rightarrow> string option" where
  "EVENTS_PATH = match_path ''/v1/runs/'' ''/events''"

definition REPORT_PATH :: "string \<Rightarrow> string option" where
  "REPORT_PATH = match_path ''/v1/runs/'' ''/report''"

definition RESTART_PATH :: "string \<Rightarrow> string option" where
  "RESTART_PATH = match_path ''/v1/runs/'' ''/restart''"

definition DRILL_PATH :: "string \<Rightarrow> string option" where
  "DRILL_PATH = match_path ''/v1/drills/'' ''''"

definition DRILL_APPROVE_PATH :: "string \<Rightarrow> string option" where
  "DRILL_APPROVE_PATH = match_path ''/v1/drills/'' ''/approve''"

definition DRILL_REJECT_PATH :: "string \<Rightarrow> string option" where
  "DRILL_REJECT_PATH = match_path ''/v1/drills/'' ''/reject''"

definition OUTBOX_REQUEUE_PATH :: "string \<Rightarrow> string option" where
  "OUTBOX_REQUEUE_PATH = match_path ''/v1/outbox/'' ''/requeue''"

section \<open>Requests and answers\<close>

record http_call =
  hc_path :: string
  hc_authorization :: "string option"
  hc_content_length :: "string option"
  hc_idempotency_key :: "string option"
  hc_input :: string

datatype reply_body =
    Agent_Body "json agent_row"
  | Run_Body run_row
  | Drill_Receipt_Body drill_receipt
  | Approval_Body approval
  | Drill_Body "json drill_row" "shutdown_state option"
  | Receipt_Body receipt
  | Restart_Body restart_result
  | Requeue_Body requeue_receipt
  | Run_View_Body run_view
  | Evidence_Body "json evidence_row list" "json dict"
  | Events_Body "json dict list" nat
  | Report_Body json json
  | Dead_Letters_Body "dead_letter list" nat
  | Text_Body string string
  | Json_Body "json dict"

record response =
  rs_status :: nat
  rs_body :: reply_body

definition send :: "nat \<Rightarrow> reply_body \<Rightarrow> response m" where
  "send status body = ret \<lparr>rs_status = status, rs_body = body\<rparr>"

definition header :: "string option \<Rightarrow> string \<Rightarrow> string" where
  "header h dflt = (case h of None \<Rightarrow> dflt | Some v \<Rightarrow> v)"

text \<open>\<open>rfile.read(n)\<close>: a negative length reads to the end.\<close>

definition read_input :: "int \<Rightarrow> string \<Rightarrow> string" where
  "read_input n input = (if n < 0 then input else take (nat n) input)"

definition json_body :: "http_call \<Rightarrow> exn + json dict" where
  "json_body c =
     (case parse_int (header (hc_content_length c) ''0'') of
        None \<Rightarrow> Inl (Exn ValidationError ''request body must be valid JSON'')
      | Some n \<Rightarrow>
          (let raw = read_input n (hc_input c)
           in case loads_bytes (if raw = [] then ''{}'' else raw) of
                Inl e \<Rightarrow> Inl (Exn ValidationError ''request body must be valid JSON'')
              | Inr (JObj kvs) \<Rightarrow> Inr kvs
              | Inr _ \<Rightarrow> Inl (Exn ValidationError ''request body must be a JSON object'')))"

definition error_status :: "exn \<Rightarrow> nat" where
  "error_status e =
     (if exn_class e = AuthenticationError then 401
      else if exn_class e = AuthorizationError then 403
      else if exn_class e = ValidationError then 400
      else if exn_class e = NotFoundError then 404
      else if exn_class e = ConflictError then 409
      else 500)"

definition send_error :: "exn \<Rightarrow> response m" where
  "send_error e =
     send (error_status e)
       (Json_Body [(''error'', JStr (exn_message e)), (''type'', JStr (class_name (exn_class e)))])"

definition route_not_found :: "response m" where
  "route_not_found = send 404 (Json_Body [(''error'', JStr ''route not found'')])"

record api =
  api_control_plane :: control_plane
  api_secret :: string

definition request_principal :: "api \<Rightarrow> http_call \<Rightarrow> principal m" where
  "request_principal a c = authenticate (api_secret a) (header (hc_authorization c) [])"

section \<open>\<open>do_POST\<close>\<close>

text \<open>\<open>require_role\<close>, then the operation, then its answer.\<close>

definition guarded_call :: "principal \<Rightarrow> string list \<Rightarrow> nat \<Rightarrow> 'a m \<Rightarrow> ('a \<Rightarrow> reply_body) \<Rightarrow> response m" where
  "guarded_call who roles status operation body =
     bnd (lift (require_role who roles)) (\<lambda>_. bnd operation (\<lambda>v. send status (body v)))"

definition post_routes :: "api \<Rightarrow> http_call \<Rightarrow> principal \<Rightarrow> json dict \<Rightarrow> response m" where
  "post_routes a c who body =
     (let cp = api_control_plane a; t = pr_tenant_id who; path = url_path (hc_path c) in
      if hc_path c = ''/v1/agents'' then
        guarded_call who [''drill_author''] 201 (register_agent body) Agent_Body
      else if hc_path c = ''/v1/runs'' then
        guarded_call who [''drill_author''] 201 (create_run body) Run_Body
      else if hc_path c = ''/v1/drills'' then
        guarded_call who [''drill_author''] 201 (request_drill body (pr_actor who)) Drill_Receipt_Body
      else (case DRILL_APPROVE_PATH path of
        Some i \<Rightarrow> guarded_call who [''approver''] 202 (approve_drill cp t i (pr_actor who) True) Approval_Body
      | None \<Rightarrow> (case DRILL_REJECT_PATH path of
        Some i \<Rightarrow> guarded_call who [''approver''] 200
          (reject_drill t i (pr_actor who) (py_str (case dict_get body ''reason'' of None \<Rightarrow> JStr [] | Some v \<Rightarrow> v)))
          (\<lambda>(drill, state). Drill_Body drill state)
      | None \<Rightarrow> (case SHUTDOWN_PATH path of
        Some i \<Rightarrow> guarded_call who [''responder''] 202
          (request_shutdown cp t i (pr_actor who) (header (hc_idempotency_key c) []) True ConfiguredAdapter) Receipt_Body
      | None \<Rightarrow> (case RESTART_PATH path of
        Some i \<Rightarrow> guarded_call who [''responder''] 200 (request_restart cp t i (pr_actor who)) Restart_Body
      | None \<Rightarrow> (case OUTBOX_REQUEUE_PATH path of
        Some i \<Rightarrow> guarded_call who [''responder''] 202 (requeue_dead_letter t i (pr_actor who)) Requeue_Body
      | None \<Rightarrow> route_not_found))))))"

text \<open>\<open>body["tenant_id"] = principal.tenant_id\<close>.\<close>

definition with_tenant :: "json dict \<Rightarrow> string \<Rightarrow> json dict" where
  "with_tenant body t = AList.update ''tenant_id'' (JStr t) (dict_of body)"

definition do_POST :: "api \<Rightarrow> http_call \<Rightarrow> response m" where
  "do_POST a c =
     catch
       (bnd (lift (json_body c)) (\<lambda>body.
        bnd (request_principal a c) (\<lambda>who.
        post_routes a c who (with_tenant body (pr_tenant_id who)))))
       send_error"

section \<open>\<open>do_GET\<close>\<close>

definition get_routes :: "api \<Rightarrow> string \<Rightarrow> principal \<Rightarrow> response m" where
  "get_routes a path who =
     (let cp = api_control_plane a; t = pr_tenant_id who in
      if path = ''/metrics'' then
        bnd (render t) (\<lambda>page. send 200 (Text_Body page ''text/plain; version=0.0.4; charset=utf-8''))
      else if path = ''/v1/outbox/dead-letters'' then
        bnd (dead_letters t 100) (\<lambda>(rows, n). send 200 (Dead_Letters_Body rows n))
      else (case DRILL_PATH path of
        Some i \<Rightarrow> bnd (get_drill t i) (\<lambda>(drill, state). send 200 (Drill_Body drill state))
      | None \<Rightarrow> (case RUN_PATH path of
        Some i \<Rightarrow> bnd (get_run t i) (\<lambda>run. send 200 (Run_View_Body run))
      | None \<Rightarrow> (case EVIDENCE_PATH path of
        Some i \<Rightarrow> bnd (evidence cp t i) (\<lambda>(records, manifest). send 200 (Evidence_Body records manifest))
      | None \<Rightarrow> (case EVENTS_PATH path of
        Some i \<Rightarrow> bnd (export_events t i) (\<lambda>(events, n). send 200 (Events_Body events n))
      | None \<Rightarrow> (case REPORT_PATH path of
        Some i \<Rightarrow> bnd (report cp t i) (\<lambda>(body, signature). send 200 (Report_Body body signature))
      | None \<Rightarrow> route_not_found))))))"

definition reader_roles :: "string list" where
  "reader_roles = [''drill_author'', ''approver'', ''responder'', ''auditor'']"

definition do_GET :: "api \<Rightarrow> http_call \<Rightarrow> response m" where
  "do_GET a c =
     catch
       (let path = url_path (hc_path c) in
        if path = ''/healthz'' then send 200 (Json_Body [(''status'', JStr ''ok'')])
        else
          bnd (request_principal a c) (\<lambda>who.
          bnd (lift (require_role who reader_roles)) (\<lambda>_.
          get_routes a path who)))
       send_error"

section \<open>\<open>start_recovery_worker\<close>\<close>

text \<open>One round of its loop: an exception is printed and ends the round.\<close>

definition recovery_round :: "control_plane \<Rightarrow> unit m" where
  "recovery_round cp =
     catch (seq (forget (recover_approved_drills cp True)) (forget (recover_incomplete_shutdowns cp True))) (\<lambda>e. ret ())"

section \<open>\<open>build_server\<close>\<close>

text \<open>
  The surroundings of the process: its environment variables, the files it reads, and
  \<open>float(text)\<close>, which may return an infinity or NaN; its parser is a parameter.
\<close>

record surroundings =
  su_env :: "string \<Rightarrow> string option"
  su_read_text :: "string \<Rightarrow> exn + string"
  su_float :: "string \<Rightarrow> exn + py_float"

definition getenv :: "surroundings \<Rightarrow> string \<Rightarrow> string \<Rightarrow> string" where
  "getenv su name dflt = (case su_env su name of None \<Rightarrow> dflt | Some v \<Rightarrow> v)"

fun split_on :: "char \<Rightarrow> string \<Rightarrow> string list" where
  "split_on sep [] = [[]]"
| "split_on sep (c # s) =
     (if c = sep then [] # split_on sep s else (c # hd (split_on sep s)) # tl (split_on sep s))"

definition config_error :: "string \<Rightarrow> exn" where
  "config_error msg = Exn RuntimeError msg"

text \<open>A gateway is configured by its URL; then its token is required.\<close>

definition kafka_config :: "surroundings \<Rightarrow> exn + kafka_probe option" where
  "kafka_config su =
     (let url = getenv su ''ASV_KAFKA_REST_URL'' []; token = getenv su ''ASV_KAFKA_BEARER_TOKEN'' [];
          path = getenv su ''ASV_KAFKA_TOKEN_FILE'' [];
          build = (\<lambda>token. if token = [] then
              Inl (config_error ''ASV_KAFKA_BEARER_TOKEN or ASV_KAFKA_TOKEN_FILE is required when Kafka probing is enabled'')
            else Inr (Some (new_kafka_probe url (getenv su ''ASV_KAFKA_TOPIC'' ''asv.synthetic'')
              (getenv su ''ASV_KAFKA_CONSUMER_GROUP'' ''asv-fenced-probe'')
              (getenv su ''ASV_KAFKA_CONSUMER_INSTANCE'' ''asv-fenced-probe-1'') token)))
      in if url = [] then Inr None
         else if token = [] \<and> path \<noteq> [] then
           (case su_read_text su path of Inl e \<Rightarrow> Inl e | Inr text \<Rightarrow> build (py_strip text))
         else build token)"

definition credential_config :: "surroundings \<Rightarrow> exn + credential_probe option" where
  "credential_config su =
     (let url = getenv su ''ASV_CREDENTIAL_BROKER_URL'' []; token = getenv su ''ASV_CREDENTIAL_BROKER_TOKEN'' []
      in if url = [] then Inr None
         else if token = [] then
           Inl (config_error ''ASV_CREDENTIAL_BROKER_TOKEN is required when credential probing is enabled'')
         else Inr (Some (new_credential_probe url (getenv su ''ASV_CREDENTIAL_TEST_RESOURCE'' ''asv.synthetic/resource'') token)))"

definition egress_config :: "surroundings \<Rightarrow> exn + egress_probe option" where
  "egress_config su =
     (let url = getenv su ''ASV_EGRESS_GATEWAY_URL'' []; token = getenv su ''ASV_EGRESS_GATEWAY_TOKEN'' [];
          destination = getenv su ''ASV_EGRESS_TEST_DESTINATION'' []
      in if url = [] then Inr None
         else if token = [] \<or> destination = [] then
           Inl (config_error ''ASV_EGRESS_GATEWAY_TOKEN and ASV_EGRESS_TEST_DESTINATION are required when network probing is enabled'')
         else Inr (Some (new_egress_probe url destination token)))"

definition restart_config :: "surroundings \<Rightarrow> exn + restart_probe option" where
  "restart_config su =
     (let url = getenv su ''ASV_RESTART_GATEWAY_URL'' []; token = getenv su ''ASV_RESTART_GATEWAY_TOKEN'' []
      in if url = [] then Inr None
         else if token = [] then
           Inl (config_error ''ASV_RESTART_GATEWAY_TOKEN is required when restart probing is enabled'')
         else Inr (Some (new_restart_probe url token)))"

text \<open>\<open>KubernetesClient.in_cluster\<close>: the mounted token and certificate of the service account.\<close>

definition service_account :: string where
  "service_account = ''/var/run/secrets/kubernetes.io/serviceaccount''"

definition in_cluster :: "surroundings \<Rightarrow> exn + kubernetes_client" where
  "in_cluster su =
     (case su_read_text su (service_account @ ''/token'') of
        Inl e \<Rightarrow> Inl e
      | Inr token \<Rightarrow>
          (case su_read_text su (service_account @ ''/ca.crt'') of
             Inl e \<Rightarrow> Inl e
           | Inr certificate \<Rightarrow> Inr (new_client
               (''https://'' @ getenv su ''KUBERNETES_SERVICE_HOST'' ''kubernetes.default.svc'' @ '':''
                  @ getenv su ''KUBERNETES_SERVICE_PORT_HTTPS'' ''443'')
               (py_strip token))))"

definition namespaces_of :: "string \<Rightarrow> string list" where
  "namespaces_of s = remdups (filter (\<lambda>n. n \<noteq> []) (map py_strip (split_on (CHR '','') s)))"

definition adapter_config :: "surroundings \<Rightarrow> exn + adapter option" where
  "adapter_config su =
     (let mode = getenv su ''ASV_ADAPTER_MODE'' ''safe-unknown'' in
      if mode = ''kubernetes'' then
        (case kafka_config su of Inl e \<Rightarrow> Inl e | Inr kafka \<Rightarrow>
        (case credential_config su of Inl e \<Rightarrow> Inl e | Inr credential \<Rightarrow>
        (case egress_config su of Inl e \<Rightarrow> Inl e | Inr egress \<Rightarrow>
        (case restart_config su of Inl e \<Rightarrow> Inl e | Inr restart \<Rightarrow>
        (case in_cluster su of Inl e \<Rightarrow> Inl e | Inr client \<Rightarrow>
        (case new_cluster \<lparr>cl_kubernetes = client,
                cl_allowed_namespaces = namespaces_of (getenv su ''ASV_ALLOWED_NAMESPACES'' []),
                cl_kafka = kafka, cl_credential = credential, cl_egress = egress, cl_restart_gateway = restart\<rparr> of
           Inl e \<Rightarrow> Inl e | Inr cl \<Rightarrow> Inr (Some (KubernetesKafkaAdapter cl))))))))
      else if mode \<noteq> ''safe-unknown'' then
        Inl (config_error ''ASV_ADAPTER_MODE must be safe-unknown or kubernetes'')
      else Inr None)"

text \<open>The publisher, with the seconds between two batches.\<close>

definition publisher_config :: "surroundings \<Rightarrow> exn + (publisher \<times> py_float) option" where
  "publisher_config su =
     (let url = getenv su ''ASV_SIEM_URL'' []; token = getenv su ''ASV_SIEM_BEARER_TOKEN'' [] in
      if url = [] then Inr None
      else if token = [] then Inl (config_error ''ASV_SIEM_BEARER_TOKEN is required when SIEM delivery is enabled'')
      else
        (case py_int (JStr (getenv su ''ASV_SIEM_MAX_ATTEMPTS'' ''8'')) of Inl e \<Rightarrow> Inl e | Inr attempts \<Rightarrow>
        (case su_float su (getenv su ''ASV_SIEM_BASE_BACKOFF_SECONDS'' ''1'') of Inl e \<Rightarrow> Inl e | Inr base \<Rightarrow>
        (case su_float su (getenv su ''ASV_SIEM_MAX_BACKOFF_SECONDS'' ''300'') of Inl e \<Rightarrow> Inl e | Inr most \<Rightarrow>
        (case new_publisher (siem_send url token) attempts base most of Inl e \<Rightarrow> Inl e | Inr publisher \<Rightarrow>
        (case su_float su (getenv su ''ASV_SIEM_INTERVAL_SECONDS'' ''5'') of Inl e \<Rightarrow> Inl e | Inr interval \<Rightarrow>
           Inr (Some (publisher, interval))))))))"

record server =
  sv_api :: api
  sv_publisher :: "(publisher \<times> py_float) option"
  sv_recovery_interval :: py_float

definition build_server :: "surroundings \<Rightarrow> int \<Rightarrow> server m" where
  "build_server su deadline_seconds =
     (let signing_key = utf8 (getenv su ''ASV_SIGNING_KEY'' []); auth_secret = utf8 (getenv su ''ASV_AUTH_SECRET'' []) in
      if length signing_key < 32 then throw (config_error ''ASV_SIGNING_KEY must contain at least 32 bytes'')
      else if length auth_secret < 32 then throw (config_error ''ASV_AUTH_SECRET must contain at least 32 bytes'')
      else
        bnd (lift (adapter_config su)) (\<lambda>adapter.
        bnd (new_control_plane signing_key adapter deadline_seconds 30) (\<lambda>cp.
        bnd (lift (new_authenticator auth_secret)) (\<lambda>secret.
        bnd (lift (publisher_config su)) (\<lambda>publisher.
        bnd (lift (su_float su (getenv su ''ASV_RECOVERY_INTERVAL_SECONDS'' ''5''))) (\<lambda>interval.
        if float_le interval (Finite 0) then throw (Exn ValueError ''recovery interval must be positive'')
        else ret \<lparr>sv_api = \<lparr>api_control_plane = cp, api_secret = secret\<rparr>, sv_publisher = publisher,
                  sv_recovery_interval = interval\<rparr>))))))"

end
