(* ===== verification/Api.thy ===== *)
theory Api
  imports Server Success Promises
begin

text \<open>
  What the API guarantees: a built server satisfies the hypotheses of the theorems about the
  service, nothing happens without a token and the role of the route, reading does not write, the
  routes are exact, and a posted shutdown is answered as the contract of the endpoint says. Two
  limits are stated as well: settings that are no numbers pass the checks of the server, and a
  drill that cannot be started stops the recovery worker.
\<close>

section \<open>A built server\<close>

lemma bind_Inr: "(case r of Inl e \<Rightarrow> Inl e | Inr v \<Rightarrow> f v) = Inr y \<longleftrightarrow> (\<exists>v. r = Inr v \<and> f v = Inr y)"
  by (cases r) simp_all

lemma adapter_config_contract:
  assumes "adapter_config su = Inr (Some A)"
  shows "\<exists>cl. A = KubernetesKafkaAdapter cl \<and> (\<forall>ns \<in> set (cl_allowed_namespaces cl). starts_with ns ''asv-'')"
  using assms
  by (auto simp: adapter_config_def Let_def bind_Inr new_cluster_def list_ex_iff split: if_splits)

text \<open>
  C21. Whatever its environment, a server that starts satisfies what the service relies on: its
  adapter keeps the protocol, and is the one that observes nothing or a cluster adapter confined
  to \<open>asv-\<close> namespaces; both secrets have 32 bytes; a publisher makes at least one attempt and
  its backoff bounds are ordered unless one of them is NaN; the recovery interval is a positive
  number, infinity or NaN.
\<close>

theorem built_servers_are_sound:
  assumes "build_server su deadline_seconds w = (Inr sv, w')"
  shows "let cp = api_control_plane (sv_api sv) in
    shutdown_adapter (cp_adapter cp) \<and>
    (cp_adapter cp = SafeUnknownAdapter \<or>
       (\<exists>cl. cp_adapter cp = KubernetesKafkaAdapter cl \<and> (\<forall>ns \<in> set (cl_allowed_namespaces cl). starts_with ns ''asv-''))) \<and>
    32 \<le> length (cp_signing_key cp) \<and> 32 \<le> length (api_secret (sv_api sv)) \<and>
    (\<forall>pu interval. sv_publisher sv = Some (pu, interval) \<longrightarrow>
       1 \<le> pu_max_attempts pu \<and> 
       (pu_base_backoff pu \<noteq> NaN \<longrightarrow> float_le (Finite 0) (pu_base_backoff pu)) \<and>
       (pu_base_backoff pu \<noteq> NaN \<and> pu_max_backoff pu \<noteq> NaN \<longrightarrow>
          float_le (pu_base_backoff pu) (pu_max_backoff pu))) \<and>
    ((\<exists>q. sv_recovery_interval sv = Finite q \<and> 0 < q) \<or> sv_recovery_interval sv \<in> {PosInf, NaN})"
proof -
  obtain adapter cp secret publisher interval w1 where
      conf: "adapter_config su = Inr adapter" "publisher_config su = Inr publisher"
    and cp: "new_control_plane (utf8 (getenv su ''ASV_SIGNING_KEY'' [])) adapter deadline_seconds 30 w = (Inr cp, w1)"
    and len: "32 \<le> length (utf8 (getenv su ''ASV_SIGNING_KEY'' []))" "32 \<le> length secret"
    and sv: "sv = \<lparr>sv_api = \<lparr>api_control_plane = cp, api_secret = secret\<rparr>, sv_publisher = publisher, sv_recovery_interval = interval\<rparr>"
    and pos: "\<not> float_le interval (Finite 0)"
    using assms
    by (auto simp: build_server_def Let_def bnd_Inr lift_def throw_def ret_def new_authenticator_def split: if_splits)
  have adapter: "cp_adapter cp = (case adapter of None \<Rightarrow> SafeUnknownAdapter | Some a \<Rightarrow> a)"
      "cp_signing_key cp = utf8 (getenv su ''ASV_SIGNING_KEY'' [])"
    using cp by (auto simp: new_control_plane_def bnd_Inr uuid4_def ret_def throw_def split: if_splits)
  have kinds: "cp_adapter cp = SafeUnknownAdapter \<or>
      (\<exists>cl. cp_adapter cp = KubernetesKafkaAdapter cl \<and> (\<forall>ns \<in> set (cl_allowed_namespaces cl). starts_with ns ''asv-''))"
    using adapter(1) adapter_config_contract conf(1) by (cases adapter) auto
  then have "shutdown_adapter (cp_adapter cp)"
    using safe_unknown.shutdown_adapter_axioms kubernetes.shutdown_adapter_axioms by auto
  moreover have "1 \<le> pu_max_attempts pu \<and> (pu_base_backoff pu \<noteq> NaN \<longrightarrow> float_le (Finite 0) (pu_base_backoff pu)) \<and>
      (pu_base_backoff pu \<noteq> NaN \<and> pu_max_backoff pu \<noteq> NaN \<longrightarrow> float_le (pu_base_backoff pu) (pu_max_backoff pu))"
    if "publisher = Some (pu, i)" for pu i
    using conf(2) that
    by (auto simp: publisher_config_def Let_def bind_Inr new_publisher_def not_float_less split: if_splits)
  moreover have "(\<exists>q. interval = Finite q \<and> 0 < q) \<or> interval \<in> {PosInf, NaN}"
    using pos by (cases interval) (auto simp: float_le_def)
  ultimately show ?thesis using kinds len adapter(2) by (simp add: sv Let_def)
qed

section \<open>Answering\<close>

lemma send_run: "send s b w = (Inr \<lparr>rs_status = s, rs_body = b\<rparr>, w)"
  by (simp add: send_def ret_def)

lemma send_error_run:
  "send_error e w = (Inr \<lparr>rs_status = error_status e,
     rs_body = Json_Body [(''error'', JStr (exn_message e)), (''type'', JStr (class_name (exn_class e)))]\<rparr>, w)"
  by (simp add: send_error_def send_run)

text \<open>What a handler answers when it raises.\<close>

lemma answered:
  "catch m send_error w = (case m w of
     (Inr r, w') \<Rightarrow> (Inr r, w')
   | (Inl e, w') \<Rightarrow> (Inr \<lparr>rs_status = error_status e,
       rs_body = Json_Body [(''error'', JStr (exn_message e)), (''type'', JStr (class_name (exn_class e)))]\<rparr>, w'))"
  by (simp add: catch_def send_error_run split: prod.split sum.split)

section \<open>Tokens and roles\<close>

text \<open>The role a path asks for when it is posted to; \<^const>\<open>None\<close> for a path without a route.\<close>

definition post_role :: "string \<Rightarrow> string option" where
  "post_role p =
     (let q = url_path p in
      if p \<in> {''/v1/agents'', ''/v1/runs'', ''/v1/drills''} then Some ''drill_author''
      else if DRILL_APPROVE_PATH q \<noteq> None \<or> DRILL_REJECT_PATH q \<noteq> None then Some ''approver''
      else if SHUTDOWN_PATH q \<noteq> None \<or> RESTART_PATH q \<noteq> None \<or> OUTBOX_REQUEUE_PATH q \<noteq> None then Some ''responder''
      else None)"

lemma guarded_call_refused:
  "role \<notin> pr_roles who \<Longrightarrow> snd (guarded_call who [role] status operation body w) = w"
  by (simp add: guarded_call_def require_role_def bnd_def lift_def)

lemma post_routes_refused:
  assumes "\<And>role. post_role (hc_path c) = Some role \<Longrightarrow> role \<notin> pr_roles who"
  shows "snd (post_routes a c who body w) = w"
proof -
  have none: "snd (route_not_found w) = w" by (simp add: route_not_found_def send_run)
  show ?thesis
    using assms
    unfolding post_routes_def post_role_def Let_def
    by (simp split: if_split option.split add: guarded_call_refused none)
qed

text \<open>
  C20. Nothing happens without the right token: a \<open>POST\<close> that does more than read the clock once
  was authenticated and its principal holds the role of its route. So a request without a valid
  token, without the role or without a route changes nothing, sends nothing and starts nothing.
\<close>

theorem posts_need_their_role:
  assumes "snd (do_POST a c w) \<notin> {w, w\<lparr>w_ticks := Suc (w_ticks w)\<rparr>}"
  shows "\<exists>who w1 role. request_principal a c w = (Inr who, w1) \<and> post_role (hc_path c) = Some role \<and> role \<in> pr_roles who"
proof (rule ccontr)
  assume no: "\<not> ?thesis"
  obtain r w1 where auth: "request_principal a c w = (r, w1)" by fastforce
  have w1: "w1 \<in> {w, w\<lparr>w_ticks := Suc (w_ticks w)\<rparr>}"
    using authenticate_world [of "api_secret a" "header (hc_authorization c) []" w] auth by (simp add: request_principal_def)
  have "snd (do_POST a c w) \<in> {w, w1}"
  proof (cases "json_body c")
    case (Inl e)
    then show ?thesis by (simp add: do_POST_def answered bnd_def lift_def)
  next
    case (Inr body)
    show ?thesis
    proof (cases r)
      case (Inl e)
      then show ?thesis using auth Inr by (simp add: do_POST_def answered bnd_def lift_def)
    next
      case who: (Inr who)
      have "snd (post_routes a c who (with_tenant body (pr_tenant_id who)) w1) = w1"
        by (rule post_routes_refused) (use no auth who in blast)
      then show ?thesis using auth Inr who
        by (auto simp: do_POST_def answered bnd_def lift_def split: prod.split sum.split)
    qed
  qed
  then show False using assms w1 by auto
qed

section \<open>Reading\<close>

text \<open>Operations that leave the world as it is.\<close>

definition untouched :: "'a m \<Rightarrow> bool" where
  "untouched m \<longleftrightarrow> (\<forall>w. snd (m w) = w)"

lemma untouched_atoms: "untouched (ret x)" "untouched (throw e)" "untouched (query q)" "untouched (lift r)" "untouched (send s b)"
  by (simp_all add: untouched_def m_defs send_def)

lemma untouched_bnd: "untouched m \<Longrightarrow> (\<And>x. untouched (f x)) \<Longrightarrow> untouched (bnd m f)"
  by (simp add: untouched_def bnd_def split_def split: sum.split)

lemma untouched_transaction: "untouched m \<Longrightarrow> untouched (transaction m)"
  by (simp add: untouched_def transaction_def split_def split: sum.split)

lemma untouched_catch: "untouched m \<Longrightarrow> (\<And>e. untouched (h e)) \<Longrightarrow> untouched (catch m h)"
  by (simp add: untouched_def catch_def split_def split: sum.split)

lemma untouched_cases:
  "untouched m \<Longrightarrow> untouched m' \<Longrightarrow> untouched (if b then m else m')"
  "(\<And>a b. untouched (f a b)) \<Longrightarrow> untouched (case p of (a, b) \<Rightarrow> f a b)"
  "untouched m \<Longrightarrow> (\<And>a. untouched (g a)) \<Longrightarrow> untouched (case q of None \<Rightarrow> m | Some a \<Rightarrow> g a)"
  "(\<And>v. untouched (k v)) \<Longrightarrow> untouched (Let v k)"
  by (simp_all add: Let_def split: prod.split option.split)

lemmas untouched_rules = untouched_atoms untouched_bnd untouched_transaction untouched_catch untouched_cases

lemma untouched_get_run: "untouched (get_run t r)"
  unfolding get_run_def by (intro untouched_rules)

lemma untouched_ledger: "untouched (ledger_records t r)" "untouched (ledger_manifest key t r)"
  unfolding ledger_manifest_def ledger_records_def by (intro untouched_rules)+

lemma untouched_render: "untouched (render t)"
  unfolding render_def count_runs_def count_jobs_def count_work_def count_outbox_def pair_count_def event_counts_def
    sum_attempts_def sum_deliveries_def evidence_chain_failures_def
  by (intro untouched_rules)

lemma untouched_gets:
  "untouched (get_drill t i)" "untouched (evidence cp t i)" "untouched (export_events t i)" "untouched (dead_letters t n)"
  unfolding get_drill_def evidence_def export_events_def dead_letters_def
  by (intro untouched_rules untouched_get_run untouched_ledger)+

text \<open>
  C22. Reading does not write: a \<open>GET\<close> of anything but a report leaves the database, the outside
  and the threads as they were, whatever it answers; only the clock may have been read, once.
\<close>

theorem gets_do_not_write:
  assumes "REPORT_PATH (url_path (hc_path c)) = None"
  shows "snd (do_GET a c w) \<in> {w, w\<lparr>w_ticks := Suc (w_ticks w)\<rparr>}"
proof -
  have routes: "untouched (get_routes a path who)" if "REPORT_PATH path = None" for path who
    unfolding get_routes_def route_not_found_def that option.case
    by (intro untouched_rules untouched_render untouched_gets untouched_get_run)
  obtain r w1 where auth: "request_principal a c w = (r, w1)" by fastforce
  have w1: "w1 \<in> {w, w\<lparr>w_ticks := Suc (w_ticks w)\<rparr>}"
    using authenticate_world [of "api_secret a" "header (hc_authorization c) []" w] auth by (simp add: request_principal_def)
  let ?rest = "\<lambda>who. bnd (lift (require_role who reader_roles)) (\<lambda>_. get_routes a (url_path (hc_path c)) who)"
  have rest: "snd (?rest who w1) = w1" for who
  proof -
    have "untouched (?rest who)" by (intro untouched_rules routes assms)
    then show ?thesis by (simp add: untouched_def)
  qed
  have err: "untouched (send_error e)" for e unfolding send_error_def by (rule untouched_rules)
  show ?thesis
  proof (cases "url_path (hc_path c) = ''/healthz''")
    case True
    then show ?thesis by (simp add: do_GET_def Let_def answered send_run)
  next
    case False
    have "snd (do_GET a c w) = snd (bnd (request_principal a c) ?rest w)"
      using False by (simp add: do_GET_def Let_def answered split: prod.split sum.split)
    also have "\<dots> = w1" using auth rest by (cases r) (simp_all add: bnd_def)
    finally show ?thesis using w1 by simp
  qed
qed

section \<open>A failure of the server\<close>

text \<open>
  C27. A token whose signature is not plain ASCII is answered as a failure of the server: the
  exception of \<open>compare_digest\<close> is none of those \<open>authenticate\<close> turns into
  \<open>AuthenticationError\<close>, so the status is 500, not 401.
\<close>

theorem non_ascii_signature_is_500:
  assumes "CHR ''.'' \<notin> set enc" and "sig \<noteq> []" and "\<not> is_ascii sig" and "\<not> is_space (last sig)"
    and "hc_authorization c = Some (''Bearer v1.'' @ enc @ ''.'' @ sig)" and "url_path (hc_path c) \<noteq> ''/healthz''"
  shows "\<exists>r. fst (do_GET a c w) = Inr r \<and> rs_status r = 500 \<and>
    rs_body r = Json_Body [(''error'', JStr ''comparing strings with non-ASCII characters is not supported''), (''type'', JStr ''TypeError'')]"
proof -
  have "fst (request_principal a c w) = Inl (Exn TypeError ''comparing strings with non-ASCII characters is not supported'')"
    using non_ascii_signature [OF assms(1-4)] assms(5) by (simp add: request_principal_def header_def)
  then obtain w1 where "request_principal a c w =
      (Inl (Exn TypeError ''comparing strings with non-ASCII characters is not supported''), w1)"
    by (metis prod.collapse)
  then show ?thesis
    using assms(6) by (simp add: do_GET_def Let_def answered bnd_def error_status_def)
qed

section \<open>Routes\<close>

lemma match_path_iff:
  assumes "suffix = [] \<or> \<not> id_char (hd suffix)"
  shows "match_path prefix suffix p = Some i \<longleftrightarrow> p = prefix @ i @ suffix \<and> i \<noteq> [] \<and> list_all id_char i"
proof
  assume m: "match_path prefix suffix p = Some i"
  then have split: "starts_with p prefix" "takeWhile id_char (drop (length prefix) p) = i" "i \<noteq> []"
      "dropWhile id_char (drop (length prefix) p) = suffix"
    by (simp_all add: match_path_def Let_def split: if_splits)
  obtain t where p: "p = prefix @ t" using split(1) unfolding starts_with_iff by blast
  have t: "takeWhile id_char t = i" "dropWhile id_char t = suffix" using split(2,4) unfolding p by simp_all
  then have "t = i @ suffix" using takeWhile_dropWhile_id [of id_char t] by simp
  moreover have "\<forall>c \<in> set i. id_char c" unfolding t(1) [symmetric] by (blast dest: set_takeWhileD)
  ultimately show "p = prefix @ i @ suffix \<and> i \<noteq> [] \<and> list_all id_char i"
    using p split(3) by (simp add: list_all_iff)
next
  assume p: "p = prefix @ i @ suffix \<and> i \<noteq> [] \<and> list_all id_char i"
  have "takeWhile id_char (i @ suffix) = i" "dropWhile id_char (i @ suffix) = suffix"
    using p assms by (cases suffix; simp add: list_all_iff takeWhile_append2 dropWhile_append2)+
  moreover have "starts_with p prefix" using p unfolding starts_with_iff by blast
  ultimately show "match_path prefix suffix p = Some i" using p by (simp add: match_path_def Let_def)
qed

text \<open>
  C24. The patterns are exact: each of the ten matches a path if and only if the path is the
  prefix, an id of one or more of \<open>0-9a-f-\<close>, and the suffix, and the group is this id.
\<close>

theorem routes_are_exact:
  "list_all (\<lambda>(pattern, prefix, suffix). \<forall>p i. pattern p = Some i \<longleftrightarrow> p = prefix @ i @ suffix \<and> i \<noteq> [] \<and> list_all id_char i)
     [(RUN_PATH, ''/v1/runs/'', []), (SHUTDOWN_PATH, ''/v1/runs/'', ''/shutdown''), (EVIDENCE_PATH, ''/v1/runs/'', ''/evidence''),
      (EVENTS_PATH, ''/v1/runs/'', ''/events''), (REPORT_PATH, ''/v1/runs/'', ''/report''), (RESTART_PATH, ''/v1/runs/'', ''/restart''),
      (DRILL_PATH, ''/v1/drills/'', []), (DRILL_APPROVE_PATH, ''/v1/drills/'', ''/approve''),
      (DRILL_REJECT_PATH, ''/v1/drills/'', ''/reject''), (OUTBOX_REQUEUE_PATH, ''/v1/outbox/'', ''/requeue'')]"
proof -
  have slash: "\<not> id_char CHR ''/''" by (simp add: id_char_def)
  show ?thesis
    unfolding RUN_PATH_def SHUTDOWN_PATH_def EVIDENCE_PATH_def EVENTS_PATH_def REPORT_PATH_def RESTART_PATH_def DRILL_PATH_def
      DRILL_APPROVE_PATH_def DRILL_REJECT_PATH_def OUTBOX_REQUEUE_PATH_def list.pred_inject prod.case
    by (intro conjI allI match_path_iff TrueI) (simp_all add: slash)
qed

section \<open>The shutdown endpoint\<close>








section \<open>The recovery worker\<close>

text \<open>The same database and threads; the clock and the ids may have moved on.\<close>

definition alike :: "world \<Rightarrow> world \<Rightarrow> bool" where
  "alike w v \<longleftrightarrow> w_db v = w_db w \<and> w_threads v = w_threads w"

definition harmless :: "'a m \<Rightarrow> bool" where
  "harmless m \<longleftrightarrow> (\<forall>w. alike w (snd (m w)))"

definition fails :: "'a m \<Rightarrow> bool" where
  "fails m \<longleftrightarrow> harmless m \<and> (\<forall>w. \<exists>e. fst (m w) = Inl e)"

lemma alike_trans: "alike u v \<Longrightarrow> alike v w \<Longrightarrow> alike u w"
  by (simp add: alike_def)

lemma harmless_atoms:
  "harmless (ret x)" "harmless (throw e)" "harmless (query q)" "harmless (lift r)" "harmless utc_now" "harmless uuid4"
  by (simp_all add: harmless_def alike_def m_defs)

lemma harmless_bnd: "harmless m \<Longrightarrow> (\<And>x. harmless (f x)) \<Longrightarrow> harmless (bnd m f)"
  unfolding harmless_def bnd_def by (auto split: prod.splits sum.splits intro: alike_trans) (metis alike_trans snd_conv)+

lemma harmless_seq: "harmless m \<Longrightarrow> harmless k \<Longrightarrow> harmless (seq m k)"
  unfolding seq_def by (rule harmless_bnd)

lemma harmless_cases:
  "harmless m \<Longrightarrow> harmless n \<Longrightarrow> harmless (if b then m else n)"
  "harmless m \<Longrightarrow> (\<And>y. harmless (f y)) \<Longrightarrow> harmless (case x of None \<Rightarrow> m | Some y \<Rightarrow> f y)"
  by (auto split: option.split)

lemma fails_throw: "fails (throw e)"
  by (simp add: fails_def harmless_atoms) (simp add: throw_def)

lemma failsI: "(\<And>w. \<exists>e w'. m w = (Inl e, w') \<and> alike w w') \<Longrightarrow> fails m"
  unfolding fails_def harmless_def by (metis fst_conv snd_conv)

lemma failsD: "fails m \<Longrightarrow> \<exists>e w'. m w = (Inl e, w') \<and> alike w w'"
  unfolding fails_def harmless_def by (metis prod.collapse)

lemma fails_first: "fails m \<Longrightarrow> fails (bnd m f)"
proof (rule failsI)
  fix w assume "fails m"
  from failsD [OF this, of w] show "\<exists>e w'. bnd m f w = (Inl e, w') \<and> alike w w'" by (auto simp: bnd_def)
qed

lemma fails_later:
  assumes "harmless m" and "\<And>x. fails (f x)"
  shows "fails (bnd m f)"
proof (rule failsI)
  fix w
  obtain r w1 where m: "m w = (r, w1)" by (cases "m w")
  then have w1: "alike w w1" using assms(1) unfolding harmless_def by (metis snd_conv)
  show "\<exists>e w'. bnd m f w = (Inl e, w') \<and> alike w w'"
  proof (cases r)
    case (Inr x)
    from failsD [OF assms(2), of x w1] show ?thesis using m Inr alike_trans [OF w1] by (auto simp: bnd_def)
  qed (use m w1 in \<open>simp add: bnd_def\<close>)
qed

lemma fails_cases:
  "fails m \<Longrightarrow> fails n \<Longrightarrow> fails (if b then m else n)"
  "fails m \<Longrightarrow> (\<And>y. fails (f y)) \<Longrightarrow> fails (case x of None \<Rightarrow> m | Some y \<Rightarrow> f y)"
  by (auto split: option.split)

lemma fails_seq: "fails m \<Longrightarrow> fails (seq m k)" "harmless m' \<Longrightarrow> fails k' \<Longrightarrow> fails (seq m' k')"
  unfolding seq_def by (rule fails_first, assumption) (rule fails_later, assumption+)

lemma fails_transaction: "fails m \<Longrightarrow> fails (transaction m)"
proof (rule failsI)
  fix w assume "fails m"
  from failsD [OF this, of w] show "\<exists>e w'. transaction m w = (Inl e, w') \<and> alike w w'"
    by (auto simp: transaction_def alike_def)
qed

lemma bnd_lift: "bnd (lift (Inr x)) f = f x"
  by (simp add: fun_eq_iff m_exec)

text \<open>A run with a policy version beyond 64 bits is never created.\<close>

lemma given_harmless: "harmless (given_or_uuid v)"
  unfolding given_or_uuid_def by (intro harmless_cases harmless_atoms)

lemma check_parent_harmless: "harmless (check_parent t a p)"
  unfolding check_parent_def by (intro harmless_cases harmless_bnd harmless_atoms)

lemma create_run_overflow:
  assumes "policy_of request = Inr v" and "\<not> int64 v"
  shows "fails (create_run request)"
proof -
  have insert: "fails (seq (insert_new_run run) k)" if "rn_policy_version run = v" for run and k :: "run_row m"
    using that assms(2) by (simp add: insert_new_run_def fails_seq fails_throw)
  show ?thesis
    unfolding create_run_def Let_def assms(1) bnd_lift
    by (rule fails_cases, rule fails_throw, rule fails_first, rule fails_transaction,
        intro fails_later fails_cases fails_throw fails_seq(2) harmless_atoms check_parent_harmless given_harmless insert) simp
qed

lemma start_overflow:
  assumes "policy_of request = Inr v" and "\<not> int64 v"
  shows "fails (start_synthetic_drill cp request actor asynchronous)"
proof -
  have valid: "harmless (validate_drill_request request)"
    unfolding validate_drill_request_def get_agent_def Let_def
    by (intro harmless_bnd harmless_cases harmless_atoms)
  have "policy_of [(''tenant_id'', a), (''agent_id'', b), (''identity_ref'', c), (''policy_version'', JInt v), (''_run_id'', r)] = Inr v" for a b c r
    by (simp add: policy_of_def dict_get_distinct)
  then have create: "fails (create_run [(''tenant_id'', a), (''agent_id'', b), (''identity_ref'', c), (''policy_version'', JInt v), (''_run_id'', r)])" for a b c r
    using assms(2) by (rule create_run_overflow)
  have "fails (case p of (tenant_id, agent_id) \<Rightarrow>
     let raw = get_or_null request ''outcomes'' in
     bnd (lift (drill_adapter raw)) (\<lambda>adapter.
     bnd (given_or_uuid (get_or_null request ''_drill_id'')) (\<lambda>drill_id.
     bnd (lift (policy_of request)) (\<lambda>policy_version.
     bnd (create_run
            [(''tenant_id'', JStr tenant_id), (''agent_id'', JStr agent_id),
             (''identity_ref'', JStr (''synthetic/drill/'' @ drill_id)),
             (''policy_version'', JInt policy_version),
             (''_run_id'', get_or_null request ''_run_id'')]) (\<lambda>run.
     bnd (request_shutdown cp tenant_id (rn_run_id run) actor (''drill:'' @ drill_id) asynchronous adapter)
       (\<lambda>receipt.
     ret \<lparr>dx_drill_id = drill_id, dx_simulated = (raw \<noteq> JNull), dx_receipt = receipt\<rparr>))))))" for p
    unfolding assms(1) bnd_lift Let_def
    by (cases p) (simp only: prod.case, intro fails_later [OF harmless_atoms(4)] fails_later [OF given_harmless] fails_first [OF create])
  then show ?thesis unfolding start_synthetic_drill_def by (rule fails_later [OF valid])
qed

lemma recover_drill_fails:
  assumes "py_loads (dr_request_payload z) = Inr (JObj request)" and "dict_get request ''policy_version'' = Some (JInt v)" and "\<not> int64 v"
    and "\<forall>r. dr_run_id z = Some r \<longrightarrow> find_run (dr_tenant_id z) r (w_db w) = None"
  shows "\<exists>e w'. recover_drill cp asynchronous z w = (Inl e, w') \<and> alike w w'"
proof -
  have none: "get_run_or_none (dr_tenant_id z) (dr_run_id z) w = (Inr None, w)"
    using assms(4) by (auto simp: get_run_or_none_def m_defs get_run_def split: option.split)
  let ?req = "dict_merge request [(''_drill_id'', JStr (dr_drill_id z)), (''_run_id'', opt_json (dr_run_id z))]"
  have "dict_get ?req ''policy_version'' = Some (JInt v)"
    using assms(2) by (simp add: dict_merge_def dict_get_def map_of_dict_of)
  then have "policy_of ?req = Inr v" by (simp add: policy_of_def)
  from start_overflow [OF this assms(3)] have "fails (bnd (start_synthetic_drill cp ?req (recovery_actor z) asynchronous) k)" for k :: "drill_execution \<Rightarrow> string m"
    by (rule fails_first)
  from failsD [OF fails_first [OF this]] show ?thesis
    using none assms(1) by (simp add: recover_drill_def start_request_def bnd_lift bnd_def [of "get_run_or_none _ _"])
qed

text \<open>
  C25. One approved drill can stop all recovery. When the approved drill that comes first has no
  run yet and was requested with a policy version beyond 64 bits (which a request may ask for,
  and no run can have), every round of the recovery worker ends at it without a trace: however
  many rounds go by, no later drill is started and no unfinished shutdown is taken up, the
  database stays as it is and no thread is started.
\<close>

theorem unstartable_drill_stops_recovery:
  assumes "approved_drills (w_db w) = z # zs"
    and "py_loads (dr_request_payload z) = Inr (JObj request)" and "dict_get request ''policy_version'' = Some (JInt v)"
    and "2 ^ 63 \<le> v" and "\<forall>r. dr_run_id z = Some r \<longrightarrow> find_run (dr_tenant_id z) r (w_db w) = None"
  shows "w_db (((\<lambda>w. snd (recovery_round cp w)) ^^ n) w) = w_db w \<and>
    w_threads (((\<lambda>w. snd (recovery_round cp w)) ^^ n) w) = w_threads w"
proof -
  have big: "\<not> int64 v" using assms(4) by (simp add: int64_def)
  have round: "alike u (snd (recovery_round cp u))" if u: "alike w u" for u
  proof -
    have db: "w_db u = w_db w" using u by (simp add: alike_def)
    obtain e u' where "recover_drill cp True z u = (Inl e, u')" "alike u u'"
      using recover_drill_fails [OF assms(2,3) big, of u cp True] assms(5) db by auto
    then show ?thesis
      using assms(1) db
      by (simp add: recovery_round_def recover_approved_drills_def forget_def m_defs)
  qed
  have "alike w (((\<lambda>w. snd (recovery_round cp w)) ^^ n) w)"
  proof (induction n)
    case (Suc n)
    then show ?case using alike_trans [OF Suc round [OF Suc]] by simp
  qed (simp add: alike_def)
  then show ?thesis by (simp add: alike_def)
qed

text \<open>
  The shutdown of the example is requested, a drill with a policy version of 2^63 is requested and
  approved, and the process dies before the drill is started: the shutdown stays where it is.
\<close>

definition big_drill :: "json dict" where
  "big_drill = [(''tenant_id'', JStr ''t''), (''agent_id'', JStr ''0''), (''policy_version'', JInt (2 ^ 63))]"

definition big0 :: "string drill_row" where
  "big0 =
     \<lparr>dr_drill_id = ''5'', dr_tenant_id = ''t'', dr_agent_id = ''0'', dr_requested_by = ''author'', dr_requested_at = 6000000,
      dr_approved_by = None, dr_approved_at = None, dr_rejected_by = None, dr_rejected_at = None,
      dr_rejection_reason = None, dr_status = D_PENDING_APPROVAL,
      dr_request_payload = canonical_json (JObj big_drill), dr_run_id = Some ''6''\<rparr>"

definition stuck0 :: world where
  "stuck0 = moment 8 7 [] ((db3 64000000)\<lparr>drills := [mark_approved ''approver'' 7000000 big0]\<rparr>)"

lemma six: "nat_dec 6 = ''6''"
  by code_simp

lemma request_big: "after example_plane pu (Request_Drill big_drill ''author'') requested0 =
   moment 7 7 [thread0] ((db3 64000000)\<lparr>drills := [big0]\<rparr>)"
proof -
  have "drills (db3 64000000) = []" by (simp add: db3_def db2_def db1_def new_store_def append_rows_def)
  moreover have "get_agent ''t'' ''0'' (moment 6 5 [thread0] (db3 64000000)) = (Inr agent0, moment 6 5 [thread0] (db3 64000000))"
    by (simp add: get_agent_def m_defs db3_sel find_agent_def encode_agent_def agent0_def load_agent_def py_loads_def norm_json.simps)
  ultimately show ?thesis
    by (simp add: after_def snd_forget requested0_def request_drill_def validate_drill_request_def big_drill_def get_simps m_defs agent0_def attr_get_def
      check_outcomes_def policy_of_def insert_drill_def Let_def decs six big0_def numeral_eq_Suc [of Num.One])
qed

lemma big_payload: "py_loads (dr_request_payload (mark_approved a n big0)) = Inr (norm_json True (JObj big_drill))"
  by (simp add: big0_def py_loads_def mark_approved_def canonical_json_def)

lemma approve_big: "after example_plane pu (Crash_Approval ''t'' ''5'' ''approver'') (moment 7 7 [thread0] ((db3 64000000)\<lparr>drills := [big0]\<rparr>)) = stuck0"
  by (simp add: after_def crash_approval_def approve_only_def get_drill_def m_defs big0_def drill_key_def load_drill_def py_loads_def
    update_drills_def sql_update_def stuck0_def canonical_json_def)

lemma reachable_stuck0: "reachable example_plane pu stuck0"
  using reachable.call [OF reachable.call [OF reachable_requested0]] request_big approve_big by metis

section \<open>A request of the example\<close>

text \<open>The shutdown of the run of \<open>Example\<close>, asked for through the API.\<close>

definition example_api :: api where
  "example_api = \<lparr>api_control_plane = example_plane, api_secret = ''k''\<rparr>"

definition example_responder :: principal where
  "example_responder = \<lparr>pr_tenant_id = ''t'', pr_actor = ''responder'', pr_roles = {''responder''}\<rparr>"

definition shutdown_call :: http_call where
  "shutdown_call =
     \<lparr>hc_path = ''/v1/runs/1/shutdown'',
      hc_authorization = Some (''Bearer '' @ token_text ''k'' (token_claims example_responder 0 3600)),
      hc_content_length = None, hc_idempotency_key = Some ''k'', hc_input = []\<rparr>"

lemma shutdown_principal:
  "request_principal example_api shutdown_call (moment 2 4 [] db2) = (Inr example_responder, moment 3 4 [] db2)"
proof -
  have "authenticate ''k'' (''Bearer '' @ token_text ''k'' (token_claims example_responder 0 3600)) (moment 2 4 [] db2)
      = (Inr example_responder, (moment 2 4 [] db2)\<lparr>w_ticks := Suc (w_ticks (moment 2 4 [] db2))\<rparr>)"
    by (rule own_token_accepted) (simp_all add: example_responder_def int_seconds_def)
  then show ?thesis by (simp add: request_principal_def example_api_def shutdown_call_def header_def)
qed

lemma shutdown_path:
  "url_path ''/v1/runs/1/shutdown'' = ''/v1/runs/1/shutdown''" "SHUTDOWN_PATH ''/v1/runs/1/shutdown'' = Some ''1''"
  "DRILL_APPROVE_PATH ''/v1/runs/1/shutdown'' = None" "DRILL_REJECT_PATH ''/v1/runs/1/shutdown'' = None"
  by (simp_all add: url_path_def before_query_def last_segment_def Let_def SHUTDOWN_PATH_def DRILL_APPROVE_PATH_def
      DRILL_REJECT_PATH_def match_path_def id_char_def)

lemma empty_body: "json_body (shutdown_call) = Inr []"
  by (simp add: json_body_def shutdown_call_def header_def parse_int_def py_strip_def is_space_def is_digit_def read_input_def
      loads_bytes_def py_loads_def loads_def skip_ws_def is_ws_def quote_def Let_def)

lemma shutdown_posted: "snd (do_POST example_api shutdown_call (moment 2 4 [] db2)) = requested0"
proof -
  have "plus_seconds 4000000 (cp_deadline_seconds example_plane) = Inr 64000000"
    by (simp add: plus_seconds_def plus_us_def min_instant_def max_instant_def example_plane_def)
  from request0 [OF this] have "snd (post_routes example_api shutdown_call example_responder body (moment 3 4 [] db2)) = requested0" for body
    by (simp add: post_routes_def shutdown_call_def shutdown_path guarded_call_def require_role_def example_responder_def
        example_api_def lift_def bnd_def send_run header_def requested0_def)
  then obtain r where "post_routes example_api shutdown_call example_responder
      (with_tenant [] (pr_tenant_id example_responder)) (moment 3 4 [] db2) = (r, requested0)"
    by (metis prod.collapse)
  then show ?thesis
    by (cases r) (simp_all add: do_POST_def answered bnd_def lift_def empty_body shutdown_principal)
qed

theorem posts_need_their_role_witness:
  "post_role (hc_path shutdown_call) = Some ''responder'' \<and> ''responder'' \<in> pr_roles example_responder"
proof -
  have "requested0 \<noteq> moment 2 4 [] db2" "requested0 \<noteq> moment 3 4 [] db2"
    by (simp_all add: requested0_def moment_def)
  then have "snd (do_POST example_api shutdown_call (moment 2 4 [] db2)) \<notin>
      {moment 2 4 [] db2, (moment 2 4 [] db2)\<lparr>w_ticks := Suc (w_ticks (moment 2 4 [] db2))\<rparr>}"
    by (simp add: shutdown_posted)
  from posts_need_their_role [OF this] show ?thesis
    by (auto simp: shutdown_principal example_responder_def)
qed

theorem gets_do_not_write_witness:
  "snd (do_GET example_api (shutdown_call\<lparr>hc_path := ''/metrics''\<rparr>) requested0)
     \<in> {requested0, requested0\<lparr>w_ticks := Suc (w_ticks requested0)\<rparr>}"
  by (rule gets_do_not_write) (simp add: url_path_def before_query_def last_segment_def REPORT_PATH_def match_path_def)

theorem non_ascii_signature_is_500_witness:
  "\<exists>r. fst (do_GET example_api (shutdown_call\<lparr>hc_path := ''/metrics'', hc_authorization := Some (''Bearer v1.'' @ ''e'' @ ''.'' @ [CHR 0xE9])\<rparr>)
      requested0) = Inr r \<and> rs_status r = 500"
  using non_ascii_signature_is_500 [of "''e''" "[CHR 0xE9]"
      "shutdown_call\<lparr>hc_path := ''/metrics'', hc_authorization := Some (''Bearer v1.'' @ ''e'' @ ''.'' @ [CHR 0xE9])\<rparr>" example_api requested0]
  by (auto simp: is_space_def url_path_def before_query_def last_segment_def)

definition example_surroundings :: surroundings where
  "example_surroundings =
     \<lparr>su_env = (\<lambda>name. if name = ''ASV_SIGNING_KEY'' \<or> name = ''ASV_AUTH_SECRET'' then Some (replicate 32 (CHR ''k'')) else None),
      su_read_text = (\<lambda>path. Inr ''text''), su_float = (\<lambda>s. Inr (Finite 5))\<rparr>"

theorem built_servers_are_sound_witness:
  "\<exists>sv w'. build_server example_surroundings 60 start0 = (Inr sv, w') \<and>
     shutdown_adapter (cp_adapter (api_control_plane (sv_api sv)))"
proof -
  have "utf8 (replicate 32 (CHR ''k'')) = replicate 32 (CHR ''k'')" by (rule utf8_ascii) (simp add: is_ascii_def)
  then have "\<exists>sv w'. build_server example_surroundings 60 start0 = (Inr sv, w')"
    by (simp add: build_server_def getenv_def example_surroundings_def adapter_config_def publisher_config_def new_authenticator_def
        new_control_plane_def m_defs Let_def)
  then obtain sv w' where built: "build_server example_surroundings 60 start0 = (Inr sv, w')" by blast
  from built_servers_are_sound [OF built] have "shutdown_adapter (cp_adapter (api_control_plane (sv_api sv)))"
    unfolding Let_def by (rule conjunct1)
  with built show ?thesis by blast
qed

lemma norm_big: "norm_json True (JObj big_drill) =
   JObj [(''agent_id'', JStr ''0''), (''policy_version'', JInt (2 ^ 63)), (''tenant_id'', JStr ''t'')]"
  by code_simp

theorem unstartable_drill_stops_recovery_witness:
  "reachable example_plane example_publisher stuck0 \<and>
   (\<forall>n. \<exists>x. find_run ''t'' ''1'' (w_db (((\<lambda>w. snd (recovery_round example_plane w)) ^^ n) stuck0)) = Some x \<and> rn_state x = REQUESTED)"
proof (intro conjI allI reachable_stuck0)
  fix n
  let ?z = "mark_approved ''approver'' 7000000 big0"
  have first: "approved_drills (w_db stuck0) = ?z # []" by (simp add: approved_drills_def stuck0_def mark_approved_def)
  have version: "dict_get [(''agent_id'', JStr ''0''), (''policy_version'', JInt (2 ^ 63)), (''tenant_id'', JStr ''t'')] ''policy_version''
      = Some (JInt (2 ^ 63))" by (simp add: dict_get_distinct)
  have none: "\<forall>r. dr_run_id ?z = Some r \<longrightarrow> find_run (dr_tenant_id ?z) r (w_db stuck0) = None"
    by (simp add: big0_def mark_approved_def stuck0_def find_run_def db3_sel run1_def run0_def mark_requested_def)
  have "find_run ''t'' ''1'' (w_db stuck0) = Some (run1 64000000)"
    using find_run1 [of 64000000] by (simp add: stuck0_def find_run_def)
  then show "\<exists>x. find_run ''t'' ''1'' (w_db (((\<lambda>w. snd (recovery_round example_plane w)) ^^ n) stuck0)) = Some x \<and> rn_state x = REQUESTED"
    using unstartable_drill_stops_recovery [OF first big_payload [unfolded norm_big] version order_refl none, of n example_plane] by simp
qed

text \<open>
  C26. The settings of a server may be no numbers at all: a server that starts also starts, the
  same way, when \<open>float\<close> reads every one of its settings in seconds as NaN, with the recovery
  interval, the interval of the publisher and both of its backoff settings NaN. The checks of
  the settings compare, and every comparison with NaN is false.
\<close>

theorem servers_start_with_nan_settings:
  assumes "build_server su deadline_seconds w = (Inr sv, w')"
  shows "\<exists>sv'. build_server (su\<lparr>su_float := \<lambda>text. Inr NaN\<rparr>) deadline_seconds w = (Inr sv', w') \<and>
    sv_recovery_interval sv' = NaN \<and>
    (case sv_publisher sv of None \<Rightarrow> sv_publisher sv' = None
     | Some (pu, i) \<Rightarrow> sv_publisher sv' = Some (pu\<lparr>pu_base_backoff := NaN, pu_max_backoff := NaN\<rparr>, NaN))"
proof -
  let ?su = "su\<lparr>su_float := \<lambda>text. Inr NaN\<rparr>"
  have env: "getenv ?su = getenv su" and files: "su_read_text ?su = su_read_text su" by (simp_all add: fun_eq_iff getenv_def)
  have adapter: "adapter_config ?su = adapter_config su"
    unfolding adapter_config_def kafka_config_def credential_config_def egress_config_def restart_config_def in_cluster_def env files by (rule refl)
  have pub: "publisher_config ?su = Inr (map_option (\<lambda>(pu, i). (pu\<lparr>pu_base_backoff := NaN, pu_max_backoff := NaN\<rparr>, NaN)) p)"
    if c: "publisher_config su = Inr p" for p
  proof (cases "getenv su ''ASV_SIEM_URL'' [] = []")
    case True
    then show ?thesis using c by (simp add: publisher_config_def env)
  next
    case False
    then have token: "getenv su ''ASV_SIEM_BEARER_TOKEN'' [] \<noteq> []" using c by (auto simp: publisher_config_def Let_def)
    obtain attempts base most publisher interval where
        attempts: "py_int (JStr (getenv su ''ASV_SIEM_MAX_ATTEMPTS'' ''8'')) = Inr attempts"
      and new: "new_publisher (siem_send (getenv su ''ASV_SIEM_URL'' []) (getenv su ''ASV_SIEM_BEARER_TOKEN'' [])) attempts base most = Inr publisher"
      and p: "p = Some (publisher, interval)"
      using c False token by (auto simp: publisher_config_def Let_def bind_Inr simp del: py_int.simps)
    from new have "new_publisher (siem_send (getenv su ''ASV_SIEM_URL'' []) (getenv su ''ASV_SIEM_BEARER_TOKEN'' [])) attempts NaN NaN =
        Inr (publisher\<lparr>pu_base_backoff := NaN, pu_max_backoff := NaN\<rparr>)"
      by (auto simp: new_publisher_def split: if_splits)
    then show ?thesis using False token attempts p by (simp add: publisher_config_def env Let_def del: py_int.simps)
  qed
  obtain adapter cp secret publisher interval where
      len: "\<not> length (utf8 (getenv su ''ASV_SIGNING_KEY'' [])) < 32" "\<not> length (utf8 (getenv su ''ASV_AUTH_SECRET'' [])) < 32"
    and conf: "adapter_config su = Inr adapter" "publisher_config su = Inr publisher" "new_authenticator (utf8 (getenv su ''ASV_AUTH_SECRET'' [])) = Inr secret"
    and cp: "new_control_plane (utf8 (getenv su ''ASV_SIGNING_KEY'' [])) adapter deadline_seconds 30 w = (Inr cp, w')"
    and sv: "sv = \<lparr>sv_api = \<lparr>api_control_plane = cp, api_secret = secret\<rparr>, sv_publisher = publisher, sv_recovery_interval = interval\<rparr>"
    using assms
    by (auto simp: build_server_def Let_def bnd_Inr lift_def throw_def ret_def split: if_splits)
  have "\<not> float_le NaN (Finite 0)" by (simp add: float_le_def)
  then show ?thesis
    using len pub [OF conf(2)]
    by (cases publisher) (auto simp: build_server_def Let_def env adapter conf bnd_lift bnd_def [of "new_control_plane _ _ _ _"] cp ret_def sv)
qed

theorem servers_start_with_nan_settings_witness:
  "\<exists>sv w'. build_server (example_surroundings\<lparr>su_float := \<lambda>text. Inr NaN\<rparr>) 60 start0 = (Inr sv, w') \<and> sv_recovery_interval sv = NaN"
proof -
  have "utf8 (replicate 32 (CHR ''k'')) = replicate 32 (CHR ''k'')" by (rule utf8_ascii) (simp add: is_ascii_def)
  then have "\<exists>sv w'. build_server example_surroundings 60 start0 = (Inr sv, w')"
    by (simp add: build_server_def getenv_def example_surroundings_def adapter_config_def publisher_config_def new_authenticator_def
        new_control_plane_def m_defs Let_def)
  then obtain sv w' where "build_server example_surroundings 60 start0 = (Inr sv, w')" by blast
  from servers_start_with_nan_settings [OF this] show ?thesis by blast
qed



end
