(* ===== verification/Spec2Isabelle.thy ===== *)
theory Spec2Isabelle
  imports Success Promises Api
begin

text \<open>
  Agent Shutdown Verification (ASV): the control plane of \<open>src/asv\<close>.

  ASV proves what happens when an AI agent is shut down from outside. Agents and their runs are
  registered; a responder requests the shutdown of a run; an orchestrator fences the run, stops
  its process, discovers the work it delegated, probes five boundaries (process, delegation,
  Kafka, credentials, network) and ends the shutdown as \<open>VERIFIED\<close>, \<open>PARTIAL\<close>, \<open>UNKNOWN\<close> or
  \<open>FAILED\<close>. Every step is an evidence record in a hash chain and an event for a SIEM.

  The development is a shallow embedding. An operation is a function of the \<open>world\<close> (database,
  clock, UUIDs, outside, started threads) that returns an exception or a value, and the world
  afterwards. The clock readings, the UUIDs and the answers of the outside are functions the
  world holds, about which nothing is assumed unless a theorem says so.
\<close>

section \<open>The parts\<close>

text \<open>
  Foundations
    \<^item> \<open>Prelude\<close>: Python dictionaries as association lists, decimal text, sorting.
    \<^item> \<open>Json\<close>, \<open>Json_Reader\<close>: JSON values, \<open>json.dumps\<close>, \<open>json.loads\<close>, \<open>canonical_json\<close>; what
      was written is read back, equal texts mean equal values, and the fuel of the reader suffices.
    \<^item> \<open>Crypto\<close>: SHA-256 and HMAC on 32-bit words, hexadecimal text, UTF-8.
    \<^item> \<open>Timestamps\<close>: instants in microseconds, ISO text, the range of \<open>datetime\<close>.
    \<^item> \<open>Floats\<close>: the \<open>float\<close> seconds of the settings with infinities and NaN, their comparisons,
      and \<open>timedelta(seconds=x)\<close>.

  The program
    \<^item> \<open>Domain\<close> (\<open>domain.py\<close>): states, probe results, \<open>ProbeObservation\<close>, \<open>aggregate_probe_results\<close>;
      the exceptions.
    \<^item> \<open>Store\<close> (\<open>store.py\<close>): each table a list of records, each insert with the keys and foreign
      keys of the schema. \<open>Effects\<close>: transactions with rollback, the clock, UUIDs, calls to the
      outside, threads; a program logic of triples with a normal and an exceptional exit.
    \<^item> \<open>Evidence\<close> (\<open>evidence.py\<close>): \<open>append\<close>, \<open>records\<close>, \<open>verify_chain\<close>, \<open>manifest\<close> and the signatures.
    \<^item> \<open>Adapters\<close> (\<open>adapters.py\<close>): the protocol \<open>ShutdownAdapter\<close>, \<open>SafeUnknownAdapter\<close>,
      \<open>SyntheticAdapter\<close>.
    \<^item> \<open>Registry\<close>, \<open>Orchestrator\<close>, \<open>Reports\<close>, \<open>Drills\<close> (\<open>service.py\<close>): \<open>ControlPlane\<close>, one
      definition per method and per phase of \<open>_orchestrate\<close>.
    \<^item> \<open>Outbox\<close> (\<open>siem.py\<close>): \<open>HttpSiemSink\<close> and \<open>OutboxPublisher.publish_batch\<close>.
    \<^item> \<open>Auth\<close> (\<open>auth.py\<close>): \<open>issue\<close>, \<open>authenticate\<close>, \<open>require_role\<close>, base64.
    \<^item> \<open>Metrics\<close> (\<open>metrics.py\<close>): the queries and the text of the page.
    \<^item> \<open>Gateways\<close>, \<open>Kubernetes\<close> (\<open>integrations.py\<close>): the transports, the four gateway probes,
      \<open>KubernetesClient\<close> and \<open>KubernetesKafkaAdapter\<close>.
    \<^item> \<open>Server\<close> (\<open>server.py\<close>): \<open>do_POST\<close>, \<open>do_GET\<close>, routes, bodies, the status of an error,
      and \<open>build_server\<close>, which makes the service from the environment.

  How they interact. The handlers of \<open>Server\<close> authenticate with \<open>Auth\<close> and call the operations
  of the service. Those write rows of \<open>Store\<close> and evidence through \<open>Evidence\<close>, whose \<open>append\<close>
  also fills the outbox; the orchestrator calls the adapter, which talks to the outside only. The
  publisher empties the outbox. \<open>System\<close> composes them: a \<open>call\<close> is one operation of the
  service, the recovery worker, the publisher or a started thread, or a crash: the process dies
  between two steps of a shutdown (\<open>Crash\<close>), or between the approval of a drill and its start
  (\<open>Crash_Approval\<close>). A world is \<open>reachable\<close> when some sequence of calls, with any arguments,
  leads to it from an empty store.
\<close>

section \<open>What is shown\<close>

text \<open>
  Interfaces. The locale \<open>shutdown_adapter\<close> is what the orchestrator relies on; it is interpreted
  on the default, the synthetic and the cluster adapter. The locale \<open>run_invariant\<close>
  (\<open>Run_Invariants\<close>) lists the writes of the registry and the orchestrator as laws of an invariant,
  \<open>service_invariant\<close> (\<open>Service_Invariants\<close>) extends it by those of reports, drills and the
  publisher; inside them every operation is proved to keep the invariant. They are interpreted
  for the evidence chain and its copy in the outbox, the probes and owners of the rows, and the
  drills (\<open>Guarantees\<close>), for the delivery state (\<open>Delivery\<close>), and for the trivial invariant, which
  leaves the relation \<open>run_le\<close>: no operation loses a run or leaves the state machine \<open>edge\<close>.

  Properties, by theory.
    \<^item> \<open>Evidence\<close>: \<open>verify_chain\<close> accepts exactly the chains of its format, notices every changed
      payload, and does not notice a rewritten earlier record or a missing end; \<open>append\<close> is atomic; a
      manifest verifies.
    \<^item> \<open>Safety\<close>: every call follows the state machine; the columns of a run agree; \<open>VERIFIED\<close> rests
      on five stored passes.
    \<^item> \<open>Liveness\<close>: with a lease a shutdown always ends; a failure is never upgraded; an expired
      shutdown is not verified, taken up first or again; recovery leaves nothing unfinished once
      the threads it started have run.
    \<^item> \<open>Success\<close>: a shutdown whose adapter accepts and passes everything, in time, ends \<open>VERIFIED\<close>,
      from whatever phase a crash left it in.
    \<^item> \<open>Promises\<close>: the outbox copies the ledger; drills need two people; every attempt to send is
      recorded, but for a delay without a date; repeated requests change nothing; leases exclude
      each other through any further claims, renewals and requests.
    \<^item> \<open>Auth\<close>, \<open>Api\<close>: tokens are signed and in force, routes need their role, reading does not write,
      a posted shutdown is answered as its contract says, a server that starts meets the
      hypotheses used here, but may have NaN for its intervals; a drill that cannot be started
      stops the recovery worker for good.
    \<^item> \<open>Metrics\<close>: the page is the one of the counts, of one tenant.
    \<^item> \<open>Boundaries\<close>: exactly when a probe of the cluster adapter passes, in terms of the statuses and
      bodies of the answers, what a fence and a stop have done, and where its requests may go.

  \<open>Example\<close> holds the concrete history most witnesses run on.
\<close>

section \<open>Bounds and simplifications\<close>

text \<open>
    \<^item> The JSON reader has fuel: one more than the length of the document. \<open>Json_Reader\<close> proves that
      more never helps. Every other recursion is structural; an orchestration takes at most 49
      readings of the clock, the number the theorem of \<open>Success\<close> asks for.
    \<^item> A string holds code points below 256, a JSON number is an integer. Payloads in UTF-16 or
      UTF-32 are outside the model, as are the recursion and digit limits of Python's parser. The
      message of a \<open>JSONDecodeError\<close> is a fixed text.
    \<^item> Integers of Python are \<open>int\<close>; a policy version beyond 64 bits is refused by the driver, as in
      the code; SHA-256 works on 32-bit words. A \<open>float\<close> is a rational number, an infinity or NaN: the
      rounding of doubles is not modelled, the overflow of the backoff is. The parser of \<open>float\<close> is
      an argument, \<open>su_float\<close>.
    \<^item> An operation is one step of the interleaving: two operations do not overlap, except that a
      started thread runs at any later point, as one step. A crash happens after any phase or
      probe of a shutdown, which leaves the run in that phase, or after the commit of an approval;
      between the two commits of one transition, and while other threads are in the middle of
      theirs, it is not modelled.
    \<^item> A transport is the function \<open>ex_reply\<close> of the outside, which sees all earlier requests;
      \<open>urllib_result\<close> and \<open>secure_result\<close> say what the two transports of the code make of a network.
      A request to it carries the body before \<open>json.dumps\<close>, and a response of the API the value
      before it is written.
    \<^item> A path is in origin form; a \<open>parent_run_id\<close> that is no string is returned as text.
    \<^item> The digests are functions; no theorem assumes that they do not collide.
\<close>

section \<open>Not modelled\<close>

text \<open>
    \<^item> The entry points \<open>main\<close> of \<open>server.py\<close> and \<open>auth.py\<close>, sockets, \<open>serve_forever\<close>, logging:
      input and output without logic of their own.
    \<^item> The loops of the background threads: \<open>run_forever\<close> and the recovery worker repeat
      \<open>publish_batch\<close> and \<open>recovery_round\<close>, which are modelled; the daemon threads and their timers
      are not.
    \<^item> The SQLite file, its locking and the connections; the pod files \<open>in_cluster\<close> reads are
      arguments.
    \<^item> The chart, the container image, the tests and the fixture agent.
\<close>

end
